(* ===== verification/Ocserv_Prelude.thy ===== *)
theory Ocserv_Prelude
  imports Main "HOL-Library.Word"
begin

text \<open>
  Shared vocabulary of the ocserv development: machine types, the error codes of
  \<^verbatim>\<open>src/src/defs.h\<close>, the parts of the C string library the sources rely on
  (\<^verbatim>\<open>strchr\<close>, \<^verbatim>\<open>strtoul\<close>, the \<^verbatim>\<open>ctype.h\<close> classes, \<^verbatim>\<open>inet_pton\<close> and \<^verbatim>\<open>inet_ntop\<close>),
  and the keyed hash table through which every database of the server is
  reached.  A C string is a \<^typ>\<open>string\<close> without its terminating NUL.

  The vendored hash table \<^verbatim>\<open>ccan/htable\<close> appears as the list of its entries in
  iteration order.  Its clients only add an entry, look one up by key, mutate one
  in place, delete one, and walk over all of them; the order in which a walk
  meets the entries depends on the hash values, so every theorem below is stated
  for an arbitrary list.
\<close>

named_theorems table_simps \<open>simplification rules of the keyed hash table\<close>
named_theorems cstr_simps \<open>simplification rules of the C string functions\<close>

type_synonym u8 = "8 word"
type_synonym u16 = "16 word"
type_synonym u32 = "32 word"
type_synonym u64 = "64 word"
type_synonym bytes = "u8 list"
type_synonym time_t = int

section \<open>Error codes (defs.h)\<close>

abbreviation (input) ERR_SUCCESS :: int where "ERR_SUCCESS \<equiv> 0"
abbreviation (input) ERR_BAD_COMMAND :: int where "ERR_BAD_COMMAND \<equiv> -2"
abbreviation (input) ERR_AUTH_FAIL :: int where "ERR_AUTH_FAIL \<equiv> -3"
abbreviation (input) ERR_AUTH_CONTINUE :: int where "ERR_AUTH_CONTINUE \<equiv> -4"
abbreviation (input) ERR_WAIT_FOR_SCRIPT :: int where "ERR_WAIT_FOR_SCRIPT \<equiv> -5"
abbreviation (input) ERR_MEM :: int where "ERR_MEM \<equiv> -6"
abbreviation (input) ERR_READ_CONFIG :: int where "ERR_READ_CONFIG \<equiv> -7"
abbreviation (input) ERR_NO_IP :: int where "ERR_NO_IP \<equiv> -8"
abbreviation (input) ERR_PARSING :: int where "ERR_PARSING \<equiv> -9"
abbreviation (input) ERR_EXEC :: int where "ERR_EXEC \<equiv> -10"
abbreviation (input) ERR_PEER_TERMINATED :: int where "ERR_PEER_TERMINATED \<equiv> -11"
abbreviation (input) ERR_CTL :: int where "ERR_CTL \<equiv> -12"
abbreviation (input) ERR_NO_CMD_FD :: int where "ERR_NO_CMD_FD \<equiv> -13"

section \<open>Characters and C strings\<close>

definition ccode :: "char \<Rightarrow> nat" where
  "ccode c = of_char c"

definition isdigit :: "char \<Rightarrow> bool" where
  "isdigit c = (48 \<le> ccode c \<and> ccode c \<le> 57)"

definition isupper :: "char \<Rightarrow> bool" where
  "isupper c = (65 \<le> ccode c \<and> ccode c \<le> 90)"

definition islower :: "char \<Rightarrow> bool" where
  "islower c = (97 \<le> ccode c \<and> ccode c \<le> 122)"

definition isalnum :: "char \<Rightarrow> bool" where
  "isalnum c = (isdigit c \<or> isupper c \<or> islower c)"

definition isspace :: "char \<Rightarrow> bool" where
  "isspace c = (ccode c = 32 \<or> (9 \<le> ccode c \<and> ccode c \<le> 13))"

definition digit_val :: "char \<Rightarrow> nat" where
  "digit_val c = ccode c - 48"

definition xdigit_val :: "char \<Rightarrow> nat option" where
  "xdigit_val c =
     (if isdigit c then Some (ccode c - 48)
      else if 97 \<le> ccode c \<and> ccode c \<le> 102 then Some (ccode c - 87)
      else if 65 \<le> ccode c \<and> ccode c \<le> 70 then Some (ccode c - 55)
      else None)"

definition tolower :: "char \<Rightarrow> char" where
  "tolower c = (if isupper c then char_of (ccode c + 32) else c)"

text \<open>\<^verbatim>\<open>strchr\<close>: the suffix that starts at the first occurrence, \<^term>\<open>None\<close> for NULL.\<close>

fun strchr :: "string \<Rightarrow> char \<Rightarrow> string option" where
  "strchr [] c = None"
| "strchr (x # xs) c = (if x = c then Some (x # xs) else strchr xs c)"

text \<open>What \<^verbatim>\<open>talloc_strndup (s, strchr (s, c) - s)\<close> copies.\<close>

definition upto_chr :: "string \<Rightarrow> char \<Rightarrow> string" where
  "upto_chr s c = takeWhile (\<lambda>x. x \<noteq> c) s"

text \<open>\<^verbatim>\<open>strcasecmp (a, b) == 0\<close>.\<close>

definition strcaseeq :: "string \<Rightarrow> string \<Rightarrow> bool" where
  "strcaseeq a b = (map tolower a = map tolower b)"

fun split_on :: "char \<Rightarrow> string \<Rightarrow> string list" where
  "split_on c [] = [[]]"
| "split_on c (x # xs) =
     (if x = c then [] # split_on c xs
      else case split_on c xs of [] \<Rightarrow> [[x]] | y # ys \<Rightarrow> (x # y) # ys)"

definition digits_val :: "string \<Rightarrow> nat" where
  "digits_val ds = foldl (\<lambda>v d. 10 * v + digit_val d) 0 ds"

text \<open>The optional sign that \<^verbatim>\<open>strtoul\<close> consumes after the leading white space.\<close>

fun strto_sign :: "string \<Rightarrow> bool \<times> string" where
  "strto_sign [] = (False, [])"
| "strto_sign (c # r) =
     (if c = CHR ''-'' then (True, r) else if c = CHR ''+'' then (False, r) else (False, c # r))"

text \<open>
  \<^verbatim>\<open>strtoul (s, &end, 10)\<close> for a 64-bit \<^verbatim>\<open>unsigned long\<close>: the value, the string at
  \<^verbatim>\<open>end\<close> and whether \<^verbatim>\<open>errno\<close> was set to \<^verbatim>\<open>ERANGE\<close>.  A minus sign negates modulo
  \<^term>\<open>2 ^ 64\<close>, as the C standard prescribes.
\<close>

definition strtoul10 :: "string \<Rightarrow> nat \<times> string \<times> bool" where
  "strtoul10 s =
     (case strto_sign (dropWhile isspace s) of (neg, r) \<Rightarrow>
        (let ds = takeWhile isdigit r; rest = dropWhile isdigit r; v = digits_val ds in
         if ds = [] then (0, s, False)
         else if v \<ge> 2 ^ 64 then (2 ^ 64 - 1, rest, True)
         else (if neg then (2 ^ 64 - v) mod 2 ^ 64 else v, rest, False)))"

fun dec_string :: "nat \<Rightarrow> string" where
  "dec_string n =
     (if n < 10 then [char_of (n + 48)]
      else dec_string (n div 10) @ [char_of (n mod 10 + 48)])"

declare dec_string.simps [simp del]

section \<open>Byte arrays\<close>

definition bytes_and :: "bytes \<Rightarrow> bytes \<Rightarrow> bytes" where
  "bytes_and a b = map2 and a b"

definition bytes_or :: "bytes \<Rightarrow> bytes \<Rightarrow> bytes" where
  "bytes_or a b = map2 or a b"

definition bytes_not :: "bytes \<Rightarrow> bytes" where
  "bytes_not a = map not a"

lemma length_bytes_ops [simp]:
  "length (bytes_and a b) = min (length a) (length b)"
  "length (bytes_or a b) = min (length a) (length b)" "length (bytes_not a) = length a"
  by (simp_all add: bytes_and_def bytes_or_def bytes_not_def)

lemma nth_bytes_ops [simp]:
  "i < length a \<Longrightarrow> i < length b \<Longrightarrow> bytes_and a b ! i = and (a ! i) (b ! i)"
  "i < length a \<Longrightarrow> i < length b \<Longrightarrow> bytes_or a b ! i = or (a ! i) (b ! i)"
  "i < length a \<Longrightarrow> bytes_not a ! i = not (a ! i)"
  by (simp_all add: bytes_and_def bytes_or_def bytes_not_def)

text \<open>Replacing the host part of a masked network leaves the network part.\<close>

lemma bytes_host_part:
  assumes "length x = n" "length m = n" "length net = n"
  shows "bytes_and (bytes_or (bytes_and x (bytes_not m)) (bytes_and net m)) m = bytes_and net m"
proof (rule nth_equalityI)
  fix i assume "i < length (bytes_and (bytes_or (bytes_and x (bytes_not m)) (bytes_and net m)) m)"
  then have i: "i < n" using assms by simp
  have "and (or (and (x ! i) (not (m ! i))) (and (net ! i) (m ! i))) (m ! i) = and (net ! i) (m ! i)"
    by (rule bit_eqI) (auto simp: bit_simps)
  then show "bytes_and (bytes_or (bytes_and x (bytes_not m)) (bytes_and net m)) m ! i = bytes_and net m ! i"
    using i assms by simp
qed (use assms in simp)

section \<open>inet_pton and inet_ntop\<close>

definition octet_ok :: "string \<Rightarrow> bool" where
  "octet_ok s =
     (s \<noteq> [] \<and> list_all isdigit s \<and> digits_val s \<le> 255 \<and> (hd s = CHR ''0'' \<longrightarrow> length s = 1))"

definition inet_pton4 :: "string \<Rightarrow> bytes option" where
  "inet_pton4 s =
     (let ps = split_on (CHR ''.'') s in
      if length ps = 4 \<and> list_all octet_ok ps then Some (map (\<lambda>p. of_nat (digits_val p)) ps)
      else None)"

fun inet_ntop4 :: "bytes \<Rightarrow> string" where
  "inet_ntop4 [] = []"
| "inet_ntop4 [a] = dec_string (unat a)"
| "inet_ntop4 (a # b # r) = dec_string (unat a) @ CHR ''.'' # inet_ntop4 (b # r)"

text \<open>
  The scanning loop of \<^verbatim>\<open>inet_pton (AF_INET6)\<close>: \<^term>\<open>cur\<close> is the text of the current
  group, \<^term>\<open>xd\<close> its number of hexadecimal digits, \<^term>\<open>val\<close> their value, \<^term>\<open>tp\<close> the
  bytes written and \<^term>\<open>colonp\<close> the position of the double colon.
\<close>

fun pton6_loop :: "string \<Rightarrow> string \<Rightarrow> nat \<Rightarrow> nat \<Rightarrow> bytes \<Rightarrow> nat option
    \<Rightarrow> (nat \<times> nat \<times> bytes \<times> nat option) option" where
  "pton6_loop [] cur xd val tp colonp = Some (xd, val, tp, colonp)"
| "pton6_loop (ch # src) cur xd val tp colonp =
     (case xdigit_val ch of
        Some d \<Rightarrow> if xd = 4 then None else pton6_loop src cur (xd + 1) (16 * val + d) tp colonp
      | None \<Rightarrow>
          if ch = CHR '':'' then
            (if xd = 0 then
               (if colonp \<noteq> None then None
                else pton6_loop src src 0 val tp (Some (length tp)))
             else if src = [] then None
             else if length tp + 2 > 16 then None
             else pton6_loop src src 0 0 (tp @ [of_nat (val div 256), of_nat val]) colonp)
          else if ch = CHR ''.'' \<and> length tp + 4 \<le> 16 then
            (case inet_pton4 cur of
               Some q \<Rightarrow> Some (0, val, tp @ q, colonp)
             | None \<Rightarrow> None)
          else None)"

definition pton6_finish :: "nat \<times> nat \<times> bytes \<times> nat option \<Rightarrow> bytes option" where
  "pton6_finish r =
     (case r of (xd, val, tp, colonp) \<Rightarrow>
        if xd > 0 \<and> length tp + 2 > 16 then None
        else (let tp' = (if xd > 0 then tp @ [of_nat (val div 256), of_nat val] else tp) in
          (case colonp of
             Some c \<Rightarrow> (if length tp' = 16 then None
                        else Some (take c tp' @ replicate (16 - length tp') 0 @ drop c tp'))
           | None \<Rightarrow> (if length tp' = 16 then Some tp' else None))))"

definition inet_pton6 :: "string \<Rightarrow> bytes option" where
  "inet_pton6 s =
     (case s of
        [] \<Rightarrow> None
      | c # r \<Rightarrow>
          if c = CHR '':'' \<and> (r = [] \<or> hd r \<noteq> CHR '':'') then None
          else let src = (if c = CHR '':'' then r else s) in
            Option.bind (pton6_loop src src 0 0 [] None) pton6_finish)"

section \<open>Lemmas on strings\<close>

lemma strchr_None [cstr_simps]: "strchr s c = None \<longleftrightarrow> c \<notin> set s"
  by (induction s) auto

lemma strchr_skip [cstr_simps]: "c \<notin> set a \<Longrightarrow> strchr (a @ b) c = strchr b c"
  by (induction a) auto

lemma strchr_SomeD: "strchr s c = Some t \<Longrightarrow> \<exists>u. s = u @ t \<and> c \<notin> set u \<and> (\<exists>v. t = c # v)"
  by (induction s) (auto split: if_splits intro: exI [of _ "_ # _"] exI [of _ "[]"])

lemma upto_chr_skip [cstr_simps]: "c \<notin> set a \<Longrightarrow> upto_chr (a @ c # b) c = a"
  unfolding upto_chr_def by (induction a) auto

lemma set_split_on: "set s \<subseteq> insert c (\<Union> (set ` set (split_on c s)))"
proof (induction s)
  case (Cons x xs)
  then show ?case by (cases "split_on c xs") auto
qed simp

lemma split_on_none: "c \<notin> set s \<Longrightarrow> split_on c s = [s]"
  by (induction s) auto

lemma octet_ok_digits: "octet_ok s \<Longrightarrow> \<forall>c \<in> set s. isdigit c"
  by (simp add: octet_ok_def list_all_iff)

lemma inet_pton4_chars:
  assumes "inet_pton4 s = Some b"
  shows "c \<in> set s \<Longrightarrow> isdigit c \<or> c = CHR ''.''" "CHR ''.'' \<in> set s" "length b = 4"
proof -
  from assms have ps: "length (split_on (CHR ''.'') s) = 4" "list_all octet_ok (split_on (CHR ''.'') s)"
    "b = map (\<lambda>p. of_nat (digits_val p)) (split_on (CHR ''.'') s)"
    by (auto simp: inet_pton4_def Let_def split: if_splits)
  then show "c \<in> set s \<Longrightarrow> isdigit c \<or> c = CHR ''.''"
    using set_split_on [of s "CHR ''.''"] by (auto simp: list_all_iff) (blast dest: octet_ok_digits)
  show "CHR ''.'' \<in> set s" using ps(1) split_on_none [of "CHR ''.''" s] by fastforce
  show "length b = 4" using ps by simp
qed

lemma not_isdigit [cstr_simps]:
  "\<not> isdigit (CHR ''.'')" "\<not> isdigit (CHR '':'')" "\<not> isdigit (CHR ''/'')" "\<not> isdigit (CHR ''d'')"
  by (simp_all add: isdigit_def ccode_def)

lemma xdigit_digit: "isdigit c \<Longrightarrow> xdigit_val c \<noteq> None"
  by (simp add: xdigit_val_def)

subsection \<open>Decimal numbers\<close>

lemma ccode_char_of [simp]: "n < 256 \<Longrightarrow> ccode (char_of n) = n"
  by (simp add: ccode_def)

lemma isdigit_char_of: "d < 10 \<Longrightarrow> isdigit (char_of (d + 48))" "d < 10 \<Longrightarrow> digit_val (char_of (d + 48)) = d"
  by (simp_all add: isdigit_def digit_val_def)

lemma digits_val_snoc: "digits_val (xs @ [d]) = 10 * digits_val xs + digit_val d"
  by (simp add: digits_val_def)

lemma dec_string_digits: "c \<in> set (dec_string n) \<Longrightarrow> isdigit c"
proof (induction n rule: dec_string.induct)
  case (1 n)
  then show ?case
    by (cases "n < 10") (auto simp: dec_string.simps [of n] isdigit_char_of)
qed

lemma dec_string_val [cstr_simps]: "digits_val (dec_string n) = n"
proof (induction n rule: dec_string.induct)
  case (1 n)
  show ?case
  proof (cases "n < 10")
    case True
    then show ?thesis by (simp add: dec_string.simps [of n] digits_val_def isdigit_char_of)
  next
    case False
    then show ?thesis using 1 by (simp add: dec_string.simps [of n] digits_val_snoc isdigit_char_of)
  qed
qed

lemma dec_string_nonempty [simp]: "dec_string n \<noteq> []"
  by (simp add: dec_string.simps [of n])

lemma dec_string_hd: "n > 0 \<Longrightarrow> hd (dec_string n) \<noteq> CHR ''0''"
proof (induction n rule: dec_string.induct)
  case (1 n)
  show ?case
  proof (cases "n < 10")
    case True
    have "char_of (n + 48) \<noteq> CHR ''0''"
    proof
      assume "char_of (n + 48) = CHR ''0''"
      then have "ccode (char_of (n + 48)) = ccode (CHR ''0'')" by simp
      then show False using True 1 by (simp add: ccode_def)
    qed
    then show ?thesis using True by (simp add: dec_string.simps [of n])
  next
    case False
    then show ?thesis using 1 by (simp add: dec_string.simps [of n])
  qed
qed

lemma strtoul10_dec_string [cstr_simps]: "n < 2 ^ 64 \<Longrightarrow> strtoul10 (dec_string n) = (n, [], False)"
proof -
  assume n: "n < 2 ^ 64"
  obtain c r where cr: "dec_string n = c # r" by (cases "dec_string n") auto
  have c: "isdigit c" using dec_string_digits [of c n] cr by simp
  then have "\<not> isspace c" "c \<noteq> CHR ''-''" "c \<noteq> CHR ''+''"
    by (auto simp: isdigit_def isspace_def ccode_def)
  then have "strto_sign (dropWhile isspace (dec_string n)) = (False, dec_string n)" by (simp add: cr)
  moreover have digits: "takeWhile isdigit (dec_string n) = dec_string n"
      "dropWhile isdigit (dec_string n) = []"
    using dec_string_digits [of _ n] by (simp_all add: takeWhile_eq_all_conv dropWhile_eq_Nil_conv)
  ultimately show ?thesis using n by (simp add: strtoul10_def dec_string_val Let_def digits)
qed

subsection \<open>Dotted quads\<close>

lemma octet_ok_dec_string: "n \<le> 255 \<Longrightarrow> octet_ok (dec_string n)"
  using dec_string_digits [of _ n] dec_string_hd [of n]
  by (cases "n = 0") (auto simp: octet_ok_def list_all_iff dec_string_val, simp add: dec_string.simps [of 0])

lemma split_on_skip: "c \<notin> set a \<Longrightarrow> split_on c (a @ c # b) = a # split_on c b"
  by (induction a) auto

lemma dec_string_no_dot [cstr_simps]:
  "CHR ''.'' \<notin> set (dec_string n)" "CHR '':'' \<notin> set (dec_string n)" "CHR ''/'' \<notin> set (dec_string n)"
  using dec_string_digits [of _ n] by (force simp: not_isdigit)+

lemma pton4_ntop4:
  assumes "length b = 4"
  shows "inet_pton4 (inet_ntop4 b) = Some b"
proof -
  obtain w x y z where b: "b = [w, x, y, z]"
    using assms by (auto simp: length_Suc_conv numeral_eq_Suc)
  have "unat v < 2 ^ LENGTH(8)" for v :: u8 by (rule unsigned_less)
  then have "unat v \<le> 255" for v :: u8 by (simp add: less_Suc_eq_le [symmetric])
  then show ?thesis
    by (simp add: inet_pton4_def b split_on_skip split_on_none cstr_simps octet_ok_dec_string)
qed

text \<open>An accepted IPv6 address consists of hexadecimal digits, colons and dots.\<close>

lemma pton6_loop_chars:
  "pton6_loop src cur xd val tp colonp = Some r \<Longrightarrow> \<exists>pre. cur = pre @ src \<Longrightarrow> c \<in> set src
    \<Longrightarrow> xdigit_val c \<noteq> None \<or> c = CHR '':'' \<or> c = CHR ''.''"
proof (induction src cur xd val tp colonp rule: pton6_loop.induct)
  case (2 ch src cur xd val tp colonp)
  obtain pre where pre: "cur = pre @ ch # src" using 2 by blast
  then have pre': "\<exists>pre. cur = pre @ src" by (intro exI [of _ "pre @ [ch]"]) simp
  show ?case
  proof (cases "c = ch \<and> (xdigit_val ch \<noteq> None \<or> ch = CHR '':'')")
    case False
    then consider "c \<in> set src" | "xdigit_val ch = None" "ch \<noteq> CHR '':''" using 2 by auto
    then show ?thesis
    proof cases
      case 1
      show ?thesis
      proof (cases "xdigit_val ch = None \<and> ch \<noteq> CHR '':''")
        case True
        then obtain q where "inet_pton4 cur = Some q"
          using 2 by (auto split: if_splits option.splits)
        then show ?thesis using inet_pton4_chars(1) [of cur q c] 1 pre xdigit_digit by auto
      next
        case False
        then show ?thesis using 2 1 pre' by (auto split: if_splits option.splits)
      qed
    next
      case 2
      then obtain q where "inet_pton4 cur = Some q"
        using "2.prems" by (auto split: if_splits option.splits)
      then show ?thesis using inet_pton4_chars(1) [of cur q c] "2.prems" pre xdigit_digit by auto
    qed
  qed auto
qed simp

lemma inet_pton6_chars:
  assumes "inet_pton6 s = Some b" "c \<in> set s"
  shows "xdigit_val c \<noteq> None \<or> c = CHR '':'' \<or> c = CHR ''.''"
proof -
  obtain src r where "pton6_loop src src 0 0 [] None = Some r" "s = src \<or> s = CHR '':'' # src"
    using assms(1)
    by (cases s) (auto simp: inet_pton6_def Let_def bind_eq_Some_conv split: if_splits simp del: pton6_loop.simps)
  then show ?thesis using pton6_loop_chars [of src src 0 0 "[]" None r c] assms(2) by auto
qed

lemma inet_pton4_length: "inet_pton4 s = Some b \<Longrightarrow> length b = 4"
  by (auto simp: inet_pton4_def Let_def split: if_splits)

lemma pton6_loop_length:
  "pton6_loop src cur xd val tp colonp = Some (x, v, t, c) \<Longrightarrow> length tp \<le> 16
    \<Longrightarrow> length t \<le> 16"
proof (induction src cur xd val tp colonp rule: pton6_loop.induct)
  case (2 ch src cur xd val tp colonp)
  then show ?case
    by (auto split: option.splits if_splits dest!: inet_pton4_length)
qed simp

lemma inet_pton6_length:
  assumes "inet_pton6 s = Some b"
  shows "length b = 16"
proof -
  obtain src x v t c where "pton6_loop src src 0 0 [] None = Some (x, v, t, c)" "pton6_finish (x, v, t, c) = Some b"
    using assms
    by (cases s) (auto simp: inet_pton6_def Let_def bind_eq_Some_conv split: if_splits simp del: pton6_loop.simps)
  with pton6_loop_length [OF this(1)] show ?thesis
    by (auto simp: pton6_finish_def Let_def split: if_splits option.splits)
qed

end
