(* ===== verification/Ip_Util.thy ===== *)
theory Ip_Util
  imports Ocserv_Prelude
begin

text \<open>
  Address helpers (\<^verbatim>\<open>src/src/ip-util.c\<close>, \<^verbatim>\<open>ip-util.h\<close>): prefix lengths and netmasks, the
  check every configured or RADIUS-provided route passes before it reaches a shell
  command line, and the conversion back to CIDR form.  An IPv4 address in network
  order is its list of four bytes.  \<^verbatim>\<open>mem\<close> says whether the allocations of a call
  succeed; every failed allocation takes the same error return.
\<close>

unbundle bit_operations_syntax

section \<open>Definitions\<close>

text \<open>\<^verbatim>\<open>memcmp\<close> of the address bytes: only the test for zero is used by the callers.\<close>

definition ip_cmp :: "bytes \<Rightarrow> bytes \<Rightarrow> bool" where
  "ip_cmp a b = (a \<noteq> b)"

definition htonl :: "u32 \<Rightarrow> bytes" where
  "htonl w = [ucast (drop_bit 24 w), ucast (drop_bit 16 w), ucast (drop_bit 8 w), ucast w]"

definition ntohl :: "bytes \<Rightarrow> u32" where
  "ntohl b = foldl (\<lambda>w x. push_bit 8 w OR ucast x) 0 b"

definition ipv4_prefix_to_strmask :: "nat \<Rightarrow> string option" where
  "ipv4_prefix_to_strmask prefix =
     (if prefix = 0 \<or> prefix > 32 then None
      else Some (inet_ntop4 (htonl (push_bit (32 - prefix) (0xFFFFFFFF :: u32)))))"

text \<open>The loop writes byte \<open>j\<close> while \<open>i > 0\<close>; the bytes it does not reach stay zero.\<close>

function ipv6_mask_loop :: "int \<Rightarrow> nat \<Rightarrow> bytes \<Rightarrow> bytes" where
  "ipv6_mask_loop i j b =
     (if i > 0 then
        ipv6_mask_loop (i - 8) (j + 1)
          (b[j := (if i \<ge> 8 then 0xff else ucast (push_bit (8 - nat i) (0xff :: u32)))])
      else b)"
  by pat_completeness auto
termination by (relation "measure (\<lambda>(i, j, b). nat i)") auto

declare ipv6_mask_loop.simps [simp del]

definition ipv6_prefix_to_mask :: "nat \<Rightarrow> bytes option" where
  "ipv6_prefix_to_mask prefix =
     (if prefix = 0 \<or> prefix > 128 then None
      else Some (ipv6_mask_loop (int prefix) 0 (replicate 16 0)))"

definition valid_ipv6_prefix :: "nat \<Rightarrow> bool" where
  "valid_ipv6_prefix prefix = (prefix > 10 \<and> prefix \<le> 128)"

function bit_count_loop :: "u32 \<Rightarrow> int \<Rightarrow> bool \<Rightarrow> int" where
  "bit_count_loop i c seen_one =
     (if i = 0 then c
      else if i AND 1 \<noteq> 0 then bit_count_loop (drop_bit 1 i) (c + 1) True
      else if seen_one then -1
      else bit_count_loop (drop_bit 1 i) c False)"
  by pat_completeness auto
termination
  by (relation "measure (\<lambda>(i, c, s). unat i)")
    (auto simp: drop_bit_Suc unat_div unat_gt_0)

declare bit_count_loop.simps [simp del]

definition bit_count :: "u32 \<Rightarrow> int" where
  "bit_count i = bit_count_loop i 0 False"

definition mask2prefix :: "bytes \<Rightarrow> int" where
  "mask2prefix m = bit_count (ntohl m)"

definition ipv4_mask_to_int :: "string \<Rightarrow> int" where
  "ipv4_mask_to_int prefix =
     (case inet_pton4 prefix of None \<Rightarrow> -1 | Some m \<Rightarrow> mask2prefix m)"

text \<open>A NULL string never reaches the function: the callers pass the text after a slash.\<close>

definition parse_uint_full :: "string \<Rightarrow> nat \<Rightarrow> nat option" where
  "parse_uint_full str mx =
     (if str = [] then None
      else case strtoul10 str of (val, end, erange) \<Rightarrow>
        if erange \<or> end \<noteq> [] \<or> val > mx then None else Some val)"

text \<open>
  The result is \<^term>\<open>None\<close> for a negative return and otherwise the route the caller is left
  with: the IPv4 prefix form is rewritten to a dotted netmask, every other accepted form is kept.
\<close>

definition ip_route_sanity_check :: "bool \<Rightarrow> string \<Rightarrow> string option" where
  "ip_route_sanity_check mem route =
     (if route = ''default'' then Some route
      else
        let is_ipv6 = (strchr route (CHR '':'') \<noteq> None) in
        case strchr route (CHR ''/'') of
          None \<Rightarrow> None
        | Some slash \<Rightarrow>
            if \<not> mem then None
            else
              let addr_part = upto_chr route (CHR ''/''); prefix_part = tl slash in
              if is_ipv6 then
                (if inet_pton6 addr_part = None then None
                 else if parse_uint_full prefix_part 128 = None then None
                 else Some route)
              else if inet_pton4 addr_part = None then None
              else if strchr prefix_part (CHR ''.'') \<noteq> None then
                (if ipv4_mask_to_int prefix_part < 0 then None else Some route)
              else
                (case parse_uint_full prefix_part 32 of
                   None \<Rightarrow> None
                 | Some prefix \<Rightarrow>
                     if prefix = 0 then Some (addr_part @ ''/0.0.0.0'')
                     else (case ipv4_prefix_to_strmask prefix of
                             None \<Rightarrow> None
                           | Some pstr \<Rightarrow> Some (addr_part @ ''/'' @ pstr))))"

definition ipv4_route_to_cidr :: "string \<Rightarrow> string option" where
  "ipv4_route_to_cidr route =
     (case strchr route (CHR ''.'') of
        None \<Rightarrow> Some route
      | Some p \<Rightarrow>
          (case strchr p (CHR ''/'') of
             None \<Rightarrow> None
           | Some q \<Rightarrow>
               let len = length route - length q; netmask = tl q in
               if strchr netmask (CHR ''.'') = None then Some route
               else let prefix = ipv4_mask_to_int netmask in
                 if prefix \<le> 0 \<or> prefix > 32 then None
                 else Some (take len route @ ''/'' @ dec_string (nat prefix))))"

section \<open>Netmasks\<close>

lemma odd_and_one: "(i :: u32) AND 1 \<noteq> 0 \<longleftrightarrow> odd (unat i)"
proof -
  have "unat (i AND 1) = unat i mod 2"
    by (simp add: and_one_eq unat_mod)
  then show ?thesis
    by (metis odd_iff_mod_2_eq_one parity_cases unsigned_eq_0_iff zero_neq_one)
qed

lemma unat_half: "unat ((i :: u32) div 2) = unat i div 2"
  by (simp add: unat_div)

lemma bit_count_loop_unfold:
  "bit_count_loop i c seen =
     (if i = 0 then c else if odd (unat i) then bit_count_loop (i div 2) (c + 1) True
      else if seen then -1 else bit_count_loop (i div 2) c False)"
  using odd_and_one [of i] bit_count_loop.simps [of i c seen] drop_bit_eq_div [of 1 i]
  by auto

lemma unat_half_less: "(i :: u32) \<noteq> 0 \<Longrightarrow> unat (i div 2) < unat i"
  by (simp add: unat_half unat_gt_0)

lemma ones_arith [simp]:
  "\<not> 2 * 2 ^ k \<le> Suc 0" "Suc (2 * (2 ^ k - Suc 0)) = 2 * 2 ^ k - Suc 0"
  using one_le_power [of "2 :: nat" k] by linarith+

text \<open>After the first one bit the loop accepts only ones up to the top.\<close>

lemma bit_count_loop_ones: "unat i = 2 ^ k - 1 \<Longrightarrow> bit_count_loop i c True = c + int k"
proof (induction k arbitrary: i c)
  case 0
  then show ?case by (simp add: bit_count_loop_unfold unsigned_eq_0_iff)
next
  case (Suc k)
  then have "odd (unat i)" "unat i \<noteq> 0" "unat (i div 2) = 2 ^ k - 1" by (auto simp: unat_half)
  then show ?case
    using Suc.IH [of "i div 2" "c + 1"]
    by (subst bit_count_loop_unfold) (auto simp: unsigned_eq_0_iff)
qed

lemma bit_count_loop_onesD:
  "c \<ge> 0 \<Longrightarrow> bit_count_loop i c True \<noteq> -1 \<Longrightarrow> \<exists>k. unat i = 2 ^ k - 1"
proof (induction "unat i" arbitrary: i c rule: less_induct)
  case less
  show ?case
  proof (cases "i = 0")
    case True
    then show ?thesis by (intro exI [of _ 0]) simp
  next
    case False
    then have odd: "odd (unat i)"
      using less.prems by (auto simp: bit_count_loop_unfold [of i] split: if_splits)
    with False have "bit_count_loop (i div 2) (c + 1) True \<noteq> -1"
      using less.prems by (simp add: bit_count_loop_unfold [of i])
    moreover have "unat (i div 2) < unat i"
      using False by (simp add: unat_half_less)
    ultimately obtain k where "unat i div 2 = 2 ^ k - 1"
      using less.hyps [of "i div 2" "c + 1"] less.prems by (auto simp: unat_half)
    with odd have "unat i = 2 ^ Suc k - 1" by (auto elim!: oddE)
    then show ?thesis by blast
  qed
qed

lemma bit_count_loop_run:
  "k > 0 \<Longrightarrow> unat i = 2 ^ j * (2 ^ k - 1) \<Longrightarrow> bit_count_loop i c False = c + int k"
proof (induction j arbitrary: i)
  case 0
  then obtain k' where k: "k = Suc k'" by (cases k) auto
  with 0 have "odd (unat i)" "unat i \<noteq> 0" "unat (i div 2) = 2 ^ k' - 1" by (auto simp: unat_half)
  then show ?case
    using bit_count_loop_ones [of "i div 2" k' "c + 1"] k
    by (subst bit_count_loop_unfold) (auto simp: unsigned_eq_0_iff)
next
  case (Suc j)
  then have "even (unat i)" "unat i \<noteq> 0" "unat (i div 2) = 2 ^ j * (2 ^ k - 1)"
    using one_less_power [of "2 :: nat" k] by (auto simp: unat_half)
  then show ?case
    using Suc.IH [of "i div 2"] Suc.prems
    by (subst bit_count_loop_unfold) (auto simp: unsigned_eq_0_iff)
qed

lemma bit_count_loop_runD:
  "c \<ge> 0 \<Longrightarrow> bit_count_loop i c False \<noteq> -1 \<Longrightarrow> \<exists>j k. unat i = 2 ^ j * (2 ^ k - 1)"
proof (induction "unat i" arbitrary: i rule: less_induct)
  case less
  consider "i = 0" | "i \<noteq> 0" "odd (unat i)" | "i \<noteq> 0" "even (unat i)" by blast
  then show ?case
  proof cases
    case 1
    then show ?thesis by (intro exI [of _ 0]) simp
  next
    case 2
    then have "bit_count_loop (i div 2) (c + 1) True \<noteq> -1"
      using less.prems by (simp add: bit_count_loop_unfold [of i])
    then obtain k where "unat i div 2 = 2 ^ k - 1"
      using bit_count_loop_onesD [of "c + 1" "i div 2"] less.prems by (auto simp: unat_half)
    with 2 have "unat i = 2 ^ 0 * (2 ^ Suc k - 1)" by (auto elim!: oddE)
    then show ?thesis by blast
  next
    case 3
    then have "bit_count_loop (i div 2) c False \<noteq> -1"
      using less.prems by (simp add: bit_count_loop_unfold [of i])
    moreover have "unat (i div 2) < unat i" using 3 by (simp add: unat_half_less)
    ultimately obtain j k where "unat i div 2 = 2 ^ j * (2 ^ k - 1)"
      using less.hyps [of "i div 2"] less.prems by (auto simp: unat_half)
    with 3 have "unat i = 2 ^ Suc j * (2 ^ k - 1)" by auto
    then show ?thesis by blast
  qed
qed

lemma bit_count_run: "unat i = 2 ^ j * (2 ^ k - 1) \<Longrightarrow> bit_count i = int k"
  using bit_count_loop_run [of k i j 0]
  by (cases "k = 0") (auto simp: bit_count_def bit_count_loop_unfold unsigned_eq_0_iff)

lemma bit_count_iff: "bit_count i = int k \<longleftrightarrow> (\<exists>j. unat i = 2 ^ j * (2 ^ k - 1))"
proof
  assume k: "bit_count i = int k"
  then obtain j k' where jk: "unat i = 2 ^ j * (2 ^ k' - 1)"
    using bit_count_loop_runD [of 0 i] by (auto simp: bit_count_def)
  then show "\<exists>j. unat i = 2 ^ j * (2 ^ k - 1)" using k bit_count_run [OF jk] by auto
qed (auto intro: bit_count_run)

lemma bit_count_ge: "bit_count i = -1 \<or> (\<exists>k. bit_count i = int k)"
  using bit_count_loop_runD [of 0 i] bit_count_run by (fastforce simp: bit_count_def)

text \<open>
  C25 Netmask recognition.  A dotted netmask is accepted with prefix length \<open>k\<close> exactly when its
  32 bits are one run of \<open>k\<close> ones between zeros.  Zeros above the run are not rejected, so a
  mask that is contiguous but not left-aligned, such as 0.0.255.0, passes as a /8.
\<close>

theorem mask_to_int_iff:
  assumes "inet_pton4 str = Some m"
  shows "ipv4_mask_to_int str = int k \<longleftrightarrow> (\<exists>j. unat (ntohl m) = 2 ^ j * (2 ^ k - 1))"
  using assms by (simp add: ipv4_mask_to_int_def mask2prefix_def bit_count_iff)

theorem mask_to_int_iff_witness:
  "ipv4_mask_to_int ''0.0.255.0'' = 8"
proof -
  have "inet_pton4 ''0.0.255.0'' = Some [0, 0, 255, 0]" by code_simp
  moreover have "unat (ntohl [0, 0, 255, 0]) = 2 ^ 8 * (2 ^ 8 - 1)"
    by (simp add: ntohl_def push_bit_eq_mult)
  then have "\<exists>j. unat (ntohl [0, 0, 255, 0]) = 2 ^ j * (2 ^ 8 - 1)" by (rule exI [of _ 8])
  ultimately show ?thesis using mask_to_int_iff [of "''0.0.255.0''" "[0, 0, 255, 0]" 8] by simp
qed

section \<open>Routes\<close>

lemma ntohl_htonl: "ntohl (htonl w) = w"
proof (rule bit_word_eqI)
  fix n assume "n < LENGTH(32)"
  then consider "n < 8" | "8 \<le> n" "n < 16" | "16 \<le> n" "n < 24" | "24 \<le> n" "n < 32"
    by fastforce
  then show "bit (ntohl (htonl w)) n = bit w n"
    by cases (auto simp: ntohl_def htonl_def bit_simps)
qed

lemma length_htonl [simp]: "length (htonl w) = 4"
  by (simp add: htonl_def)

lemma bit_count_prefix:
  assumes "p \<le> 32"
  shows "bit_count (push_bit (32 - p) 0xFFFFFFFF) = int p"
proof (rule bit_count_run [where j = "32 - p"])
  have shift: "2 ^ 32 = (2 ^ (32 - p) * 2 ^ p :: nat)"
    using assms by (metis le_add_diff_inverse2 power_add)
  have low: "(2 ^ 32 - 1) mod 2 ^ p = (2 ^ p - (1 :: nat))"
    using assms take_bit_of_mask [of p 32, where 'a = nat]
    by (simp only: mask_eq_exp_minus_1 take_bit_eq_mod min_absorb1)
  have "unat (push_bit (32 - p) (0xFFFFFFFF :: u32)) = (2 ^ (32 - p) * (2 ^ 32 - 1)) mod 2 ^ 32"
    unfolding unsigned_push_bit_eq by (simp add: push_bit_eq_mult take_bit_eq_mod mult.commute)
  also have "\<dots> = (2 ^ (32 - p) * (2 ^ 32 - 1)) mod (2 ^ (32 - p) * 2 ^ p)"
    using shift by (rule arg_cong)
  also have "\<dots> = 2 ^ (32 - p) * (2 ^ p - 1)"
    by (simp only: mod_mult_mult1 low)
  finally show "unat (push_bit (32 - p) (0xFFFFFFFF :: u32)) = 2 ^ (32 - p) * (2 ^ p - 1)" .
qed

lemma prefix_facts:
  assumes "1 \<le> p" "p \<le> 32"
  obtains m where "ipv4_prefix_to_strmask p = Some m" "CHR ''.'' \<in> set m" "ipv4_mask_to_int m = int p"
    "parse_uint_full (dec_string p) 32 = Some p"
proof
  let ?b = "htonl (push_bit (32 - p) 0xFFFFFFFF)"
  show "ipv4_prefix_to_strmask p = Some (inet_ntop4 ?b)"
    using assms by (simp add: ipv4_prefix_to_strmask_def)
  have "inet_pton4 (inet_ntop4 ?b) = Some ?b" by (simp add: pton4_ntop4)
  then show "CHR ''.'' \<in> set (inet_ntop4 ?b)" "ipv4_mask_to_int (inet_ntop4 ?b) = int p"
    using assms by (simp_all add: inet_pton4_chars(2) ipv4_mask_to_int_def mask2prefix_def
        ntohl_htonl bit_count_prefix)
  show "parse_uint_full (dec_string p) 32 = Some p"
    using assms by (simp add: parse_uint_full_def cstr_simps)
qed

lemma ipv4_addr_text:
  assumes "inet_pton4 a = Some b"
  shows "CHR '':'' \<notin> set a" "CHR ''/'' \<notin> set a" "a @ r \<noteq> ''default''"
proof -
  show "CHR '':'' \<notin> set a" "CHR ''/'' \<notin> set a"
    using inet_pton4_chars(1) [OF assms] by (force simp: cstr_simps)+
  obtain c a' where a: "a = c # a'" using inet_pton4_chars(2) [OF assms] by (cases a) auto
  then have "isdigit c \<or> c = CHR ''.''" using inet_pton4_chars(1) [OF assms, of c] by simp
  then show "a @ r \<noteq> ''default''" using a by (auto simp: cstr_simps)
qed

lemma to_cidr_split:
  assumes "inet_pton4 a = Some b"
  shows "ipv4_route_to_cidr (a @ CHR ''/'' # m) =
    (if CHR ''.'' \<notin> set m then Some (a @ CHR ''/'' # m)
     else if ipv4_mask_to_int m \<le> 0 \<or> ipv4_mask_to_int m > 32 then None
     else Some (a @ CHR ''/'' # dec_string (nat (ipv4_mask_to_int m))))"
proof -
  obtain u v where a: "a = u @ CHR ''.'' # v" "CHR ''.'' \<notin> set u"
    using inet_pton4_chars(2) [OF assms] by (meson split_list_first)
  then have "CHR ''/'' \<notin> set v" using ipv4_addr_text(2) [OF assms] by auto
  then show ?thesis using a by (simp add: ipv4_route_to_cidr_def cstr_simps Let_def)
qed

text \<open>
  C23 Route round trip.  For every IPv4 address and prefix length from 1 to 32, the route check
  accepts the CIDR form, rewrites it to the dotted-netmask form, and the conversion used for
  the route commands gives the original CIDR form back.
\<close>

theorem route_cidr_roundtrip:
  assumes "inet_pton4 a \<noteq> None" "1 \<le> p" "p \<le> 32"
  shows "Option.bind (ip_route_sanity_check True (a @ ''/'' @ dec_string p)) ipv4_route_to_cidr
           = Some (a @ ''/'' @ dec_string p)"
proof -
  obtain b where b: "inet_pton4 a = Some b" using assms by auto
  obtain m where m: "ipv4_prefix_to_strmask p = Some m" "CHR ''.'' \<in> set m" "ipv4_mask_to_int m = int p"
    "parse_uint_full (dec_string p) 32 = Some p" using prefix_facts [OF assms(2,3)] by blast
  have "ip_route_sanity_check True (a @ ''/'' @ dec_string p) = Some (a @ ''/'' @ m)"
    using assms(2) b m ipv4_addr_text [OF b]
    by (simp add: ip_route_sanity_check_def cstr_simps Let_def)
  then show ?thesis using m assms by (simp add: to_cidr_split [OF b])
qed

theorem route_cidr_roundtrip_witness:
  "Option.bind (ip_route_sanity_check True (''192.168.16.0'' @ ''/'' @ dec_string 20)) ipv4_route_to_cidr
     = Some (''192.168.16.0'' @ ''/'' @ dec_string 20)"
proof (rule route_cidr_roundtrip)
  show "inet_pton4 ''192.168.16.0'' \<noteq> None" by code_simp
qed simp_all

lemma zero_mask: "inet_pton4 ''0.0.0.0'' = Some [0, 0, 0, 0]" "ipv4_mask_to_int ''0.0.0.0'' = 0"
proof -
  show "inet_pton4 ''0.0.0.0'' = Some [0, 0, 0, 0]" by code_simp
  then show "ipv4_mask_to_int ''0.0.0.0'' = 0"
    by (simp add: ipv4_mask_to_int_def mask2prefix_def bit_count_def bit_count_loop_unfold ntohl_def)
qed

text \<open>The default route does not survive the same composition.\<close>

lemma route_cidr_default_lost:
  assumes "inet_pton4 a \<noteq> None"
  shows "Option.bind (ip_route_sanity_check True (a @ ''/0'')) ipv4_route_to_cidr = None"
proof -
  obtain b where b: "inet_pton4 a = Some b" using assms by auto
  have "parse_uint_full ''0'' 32 = Some 0"
    by (simp add: parse_uint_full_def strtoul10_def isspace_def isdigit_def ccode_def digits_val_def
        digit_val_def)
  with \<open>parse_uint_full ''0'' 32 = Some 0\<close> have "ip_route_sanity_check True (a @ ''/0'') = Some (a @ ''/0.0.0.0'')"
    using b ipv4_addr_text [OF b] by (simp add: ip_route_sanity_check_def cstr_simps Let_def)
  then show ?thesis by (simp add: to_cidr_split [OF b] zero_mask)
qed

lemma strto_sign_set: "strto_sign t = (neg, r) \<Longrightarrow> set t \<subseteq> {CHR ''+'', CHR ''-''} \<union> set r"
  by (cases t) (auto split: if_splits)

lemma parse_uint_full_chars:
  assumes "parse_uint_full s mx = Some v" "c \<in> set s"
  shows "isspace c \<or> c = CHR ''+'' \<or> c = CHR ''-'' \<or> isdigit c"
proof -
  obtain neg r where r: "strto_sign (dropWhile isspace s) = (neg, r)" by fastforce
  have rest: "dropWhile isdigit r = []"
    using assms(1) r by (auto simp: parse_uint_full_def strtoul10_def Let_def split: if_splits)
  have "set s \<subseteq> set (takeWhile isspace s) \<union> set (dropWhile isspace s)"
    by (metis set_append set_eq_subset takeWhile_dropWhile_id)
  moreover have "set (dropWhile isspace s) \<subseteq> {CHR ''+'', CHR ''-''} \<union> set r"
    using r by (rule strto_sign_set)
  moreover have "\<forall>d \<in> set r. isdigit d" using rest by (simp add: dropWhile_eq_Nil_conv)
  ultimately show ?thesis using assms(2) by (auto dest: set_takeWhileD)
qed

lemma mask_string_parses:
  "ipv4_prefix_to_strmask p = Some m \<Longrightarrow> inet_pton4 m \<noteq> None \<and> ipv4_mask_to_int m \<ge> 0"
  using bit_count_prefix [of p]
  by (auto simp: ipv4_prefix_to_strmask_def pton4_ntop4 ipv4_mask_to_int_def mask2prefix_def ntohl_htonl
      split: if_splits)

text \<open>The shape of an accepted route that is not the keyword.\<close>

lemma route_check_parts:
  assumes "ip_route_sanity_check mem r = Some r'" "r \<noteq> ''default''"
  shows "\<exists>a q. r' = a @ ''/'' @ q \<and>
    (if CHR '':'' \<in> set r
     then r' = r \<and> inet_pton6 a \<noteq> None \<and>
       list_all (\<lambda>c. isspace c \<or> c = CHR ''+'' \<or> c = CHR ''-'' \<or> isdigit c) q
     else inet_pton4 a \<noteq> None \<and> inet_pton4 q \<noteq> None \<and> 0 \<le> ipv4_mask_to_int q \<and>
       list_all (\<lambda>c. isdigit c \<or> c = CHR ''.'' \<or> c = CHR ''/'') r')"
proof -
  obtain a q where split: "strchr r (CHR ''/'') = Some (CHR ''/'' # q)" "r = a @ CHR ''/'' # q"
      "upto_chr r (CHR ''/'') = a" and mem
    using assms strchr_SomeD [of r "CHR ''/''"]
    by (fastforce simp: ip_route_sanity_check_def Let_def cstr_simps split: option.splits if_splits)
  have quads: "list_all (\<lambda>c. isdigit c \<or> c = CHR ''.'' \<or> c = CHR ''/'') (x @ ''/'' @ y)"
    if "inet_pton4 x \<noteq> None" "inet_pton4 y \<noteq> None" for x y
    using that inet_pton4_chars(1) by (auto simp: list_all_iff)
  show ?thesis
  proof (cases "CHR '':'' \<in> set r")
    case True
    then have "r' = r" "inet_pton6 a \<noteq> None" "parse_uint_full q 128 \<noteq> None"
      using assms split by (auto simp: ip_route_sanity_check_def Let_def cstr_simps split: if_splits)
    then show ?thesis using True split(2) parse_uint_full_chars [of q 128] by (auto simp: list_all_iff)
  next
    case False
    then have a: "inet_pton4 a \<noteq> None"
      using assms split by (auto simp: ip_route_sanity_check_def Let_def cstr_simps split: if_splits)
    have "\<exists>m. r' = a @ ''/'' @ m \<and> inet_pton4 m \<noteq> None \<and> 0 \<le> ipv4_mask_to_int m"
    proof (cases "CHR ''.'' \<in> set q")
      case True
      then have "r' = r" "0 \<le> ipv4_mask_to_int q"
        using assms split False by (auto simp: ip_route_sanity_check_def Let_def cstr_simps split: if_splits)
      moreover from this have "inet_pton4 q \<noteq> None"
        by (auto simp: ipv4_mask_to_int_def split: option.splits)
      ultimately show ?thesis using split(2) by auto
    next
      case no_dot: False
      then obtain p where "r' = a @ ''/0.0.0.0'' \<or>
          (\<exists>m. ipv4_prefix_to_strmask p = Some m \<and> r' = a @ ''/'' @ m)"
        using assms split False a
        by (auto simp: ip_route_sanity_check_def Let_def cstr_simps split: if_splits option.splits)
      then show ?thesis using mask_string_parses [of p] zero_mask by (elim disjE) auto
    qed
    then obtain m where "r' = a @ ''/'' @ m" "inet_pton4 m \<noteq> None" "0 \<le> ipv4_mask_to_int m" by blast
    then show ?thesis using False a quads [of a m] by (intro exI [of _ a] exI [of _ m]) simp
  qed
qed

text \<open>
  C24 Routes that reach the shell.  Whatever string is checked, an accepted route is the
  keyword \<open>default\<close>, passed on unchanged, or an address, a slash and a suffix.  An IPv4 route is
  always left in the form address/netmask with both parts dotted quads, hence digits, dots and
  one slash.  An IPv6 route is passed on unchanged; its address part parses, and its suffix holds
  digits, a sign and white space: the white space that \<open>strtoul\<close> skips, line breaks included,
  is not rejected.
\<close>

theorem route_check_shape:
  assumes "ip_route_sanity_check mem r = Some r'"
  shows "r = ''default'' \<and> r' = ''default'' \<or>
    (\<exists>a q. r' = a @ ''/'' @ q \<and>
      (if CHR '':'' \<in> set r
       then r' = r \<and> inet_pton6 a \<noteq> None \<and>
         list_all (\<lambda>c. isspace c \<or> c = CHR ''+'' \<or> c = CHR ''-'' \<or> isdigit c) q
       else inet_pton4 a \<noteq> None \<and> inet_pton4 q \<noteq> None \<and> 0 \<le> ipv4_mask_to_int q \<and>
         list_all (\<lambda>c. isdigit c \<or> c = CHR ''.'' \<or> c = CHR ''/'') r'))"
proof (cases "r = ''default''")
  case True
  then show ?thesis using assms by (simp add: ip_route_sanity_check_def)
next
  case False
  then show ?thesis using route_check_parts [OF assms] by blast
qed

theorem route_check_shape_witness:
  "ip_route_sanity_check True (''2001:db8::/'' @ CHR 0x0A # ''64'') = Some (''2001:db8::/'' @ CHR 0x0A # ''64'') \<and>
   (\<exists>a q. ''2001:db8::/'' @ CHR 0x0A # ''64'' = a @ ''/'' @ q \<and> inet_pton6 a \<noteq> None)"
proof -
  let ?r = "''2001:db8::/'' @ CHR 0x0A # ''64''"
  have addr: "inet_pton6 ''2001:db8::'' \<noteq> None"
    by (simp add: inet_pton6_def pton6_finish_def xdigit_val_def isdigit_def ccode_def)
  have pfx: "parse_uint_full (CHR 0x0A # ''64'') 128 \<noteq> None"
    by (simp add: parse_uint_full_def strtoul10_def isspace_def isdigit_def ccode_def digits_val_def
        digit_val_def)
  have check: "ip_route_sanity_check True ?r = Some ?r"
    using addr pfx by (simp add: ip_route_sanity_check_def upto_chr_def Let_def)
  have other: "?r \<noteq> ''default''" by simp
  have colon: "CHR '':'' \<in> set ?r" by simp
  show ?thesis
    using check route_check_shape [OF check, unfolded if_P [OF colon]] other by blast
qed

section \<open>IPv6 masks\<close>

lemma bit_mask_byte: "i < 8 \<Longrightarrow> bit (ucast (push_bit (8 - i) (0xff :: u32)) :: u8) n \<longleftrightarrow> n < 8 \<and> 8 - i \<le> n"
proof -
  assume "i < 8"
  have ff: "(0xff :: u32) = mask 8" by (simp add: mask_eq_exp_minus_1)
  show ?thesis by (auto simp: ff bit_simps)
qed

lemma bit_ff: "bit (0xff :: u8) n \<longleftrightarrow> n < 8"
proof -
  have "(0xff :: u8) = mask 8" by (simp add: mask_eq_exp_minus_1)
  then show ?thesis by (simp only: bit_mask_iff) simp
qed

lemma ipv6_mask_loop_bits:
  "j \<le> 16 \<Longrightarrow> i \<le> 8 * (16 - int j) \<Longrightarrow> length b = 16 \<Longrightarrow> \<forall>t < 16. t \<ge> j \<longrightarrow> b ! t = 0 \<Longrightarrow>
     length (ipv6_mask_loop i j b) = 16 \<and>
     (\<forall>t < 16. \<forall>n. bit (ipv6_mask_loop i j b ! t) n \<longleftrightarrow>
        (if t < j then bit (b ! t) n else n < 8 \<and> 8 * (int t - int j) + 7 - int n < i))"
proof (induction i j b rule: ipv6_mask_loop.induct)
  case (1 i j b)
  show ?case
  proof (cases "i > 0")
    case False
    then show ?thesis using "1.prems" by (subst ipv6_mask_loop.simps) (auto simp: ipv6_mask_loop.simps [of i j b])
  next
    case True
    define v :: u8 where "v = (if i \<ge> 8 then 0xff else ucast (push_bit (8 - nat i) (0xff :: u32)))"
    have v: "bit v n \<longleftrightarrow> n < 8 \<and> 7 - int n < i" for n
    proof (cases "i \<ge> 8")
      case True
      then show ?thesis by (simp only: v_def if_True bit_ff) auto
    next
      case False
      then show ?thesis using \<open>i > 0\<close> by (auto simp: v_def bit_mask_byte)
    qed
    have step: "ipv6_mask_loop i j b = ipv6_mask_loop (i - 8) (j + 1) (b[j := v])"
      using True by (subst ipv6_mask_loop.simps) (simp add: v_def)
    have j: "j < 16" using True "1.prems"(2) by auto
    have IH: "length (ipv6_mask_loop (i - 8) (j + 1) (b[j := v])) = 16 \<and>
     (\<forall>t < 16. \<forall>n. bit (ipv6_mask_loop (i - 8) (j + 1) (b[j := v]) ! t) n \<longleftrightarrow>
        (if t < j + 1 then bit (b[j := v] ! t) n else n < 8 \<and> 8 * (int t - int (j + 1)) + 7 - int n < i - 8))"
      unfolding v_def by (rule "1.IH" [OF True]) (use "1.prems" j in \<open>auto simp: nth_list_update\<close>)
    show ?thesis unfolding step using IH v j "1.prems"(3) by (auto simp: nth_list_update less_Suc_eq)
  qed
qed

text \<open>Bit \<open>n\<close> of byte \<open>t\<close> is set exactly when it is one of the first \<open>prefix\<close> bits of the address.\<close>

lemma ipv6_prefix_to_mask_bits:
  assumes "ipv6_prefix_to_mask prefix = Some m"
  shows "length m = 16 \<and> (\<forall>t < 16. \<forall>n. bit (m ! t) n \<longleftrightarrow> n < 8 \<and> 8 * t + 7 < prefix + n)"
  using assms ipv6_mask_loop_bits [of 0 "int prefix" "replicate 16 0"]
  by (auto simp: ipv6_prefix_to_mask_def split: if_splits)

lemma ipv6_prefix_mono:
  assumes "ipv6_prefix_to_mask a = Some m" "ipv6_prefix_to_mask b = Some m'" "a \<le> b"
  shows "bytes_and (bytes_and x m) m' = bytes_and x m"
proof (rule nth_equalityI)
  note bits = ipv6_prefix_to_mask_bits [OF assms(1)] ipv6_prefix_to_mask_bits [OF assms(2)]
  show "length (bytes_and (bytes_and x m) m') = length (bytes_and x m)" using bits by simp
  fix i assume "i < length (bytes_and (bytes_and x m) m')"
  then have i: "i < length x" "i < 16" using bits by auto
  have "and (and (x ! i) (m ! i)) (m' ! i) = and (x ! i) (m ! i)"
    using bits i(2) assms(3) by (intro bit_eqI) (auto simp: bit_simps)
  then show "bytes_and (bytes_and x m) m' ! i = bytes_and x m ! i" using i bits by simp
qed

end
