(* ===== verification/Sock_Addr.thy ===== *)
theory Sock_Addr
  imports Ip_Util
begin

text \<open>
  Socket addresses (the casts of \<^verbatim>\<open>src/src/ip-util.h\<close> and \<^verbatim>\<open>human_addr2\<close> of \<^verbatim>\<open>ip-util.c\<close>).  An
  address is the memory it is stored in, a byte list, together with the length a socket call
  or a message gives for it; the two need not agree, and a read behind the memory is \<^term>\<open>None\<close>.
  The layout is the one of Linux on a little-endian machine: family at 0, port at 2, the IPv4
  address at 4, the IPv6 address at 8.
\<close>

section \<open>Reading memory\<close>

definition mem_at :: "bytes \<Rightarrow> nat \<Rightarrow> nat \<Rightarrow> bytes option" where
  "mem_at b off n = (if off + n \<le> length b then Some (take n (drop off b)) else None)"

definition mem_cpy :: "bytes \<Rightarrow> bytes \<Rightarrow> nat \<Rightarrow> bytes" where
  "mem_cpy dst src n = take n src @ drop n dst"

record saddr =
  sa_raw :: bytes
  sa_len :: nat

abbreviation (input) SOCKADDR_IN :: nat where "SOCKADDR_IN \<equiv> 16"
abbreviation (input) SOCKADDR_IN6 :: nat where "SOCKADDR_IN6 \<equiv> 28"
abbreviation (input) SOCKADDR_STORAGE :: nat where "SOCKADDR_STORAGE \<equiv> 128"
abbreviation (input) AF_INET :: nat where "AF_INET \<equiv> 2"
abbreviation (input) AF_INET6 :: nat where "AF_INET6 \<equiv> 10"
abbreviation (input) MAX_IP_STR :: nat where "MAX_IP_STR \<equiv> 46"

definition SA_IN_SIZE :: "nat \<Rightarrow> nat" where
  "SA_IN_SIZE sz = (if sz = SOCKADDR_IN then 4 else 16)"

definition SA_IN_OFFSET :: "nat \<Rightarrow> nat" where
  "SA_IN_OFFSET sz = (if sz = SOCKADDR_IN then 4 else 8)"

text \<open>The bytes at \<^verbatim>\<open>SA_IN_P_GENERIC (addr, size)\<close>, as many as \<^verbatim>\<open>SA_IN_SIZE (size)\<close>.\<close>

definition sa_in :: "bytes \<Rightarrow> nat \<Rightarrow> bytes option" where
  "sa_in raw sz = mem_at raw (SA_IN_OFFSET sz) (SA_IN_SIZE sz)"

definition le16 :: "bytes \<Rightarrow> nat" where
  "le16 b = unat (b ! 0) + 256 * unat (b ! 1)"

definition be16 :: "bytes \<Rightarrow> nat" where
  "be16 b = 256 * unat (b ! 0) + unat (b ! 1)"

definition sa_family :: "bytes \<Rightarrow> nat option" where
  "sa_family raw = map_option le16 (mem_at raw 0 2)"

definition sa_port :: "bytes \<Rightarrow> nat option" where
  "sa_port raw = map_option be16 (mem_at raw 2 2)"

definition saddr_zero :: saddr where
  "saddr_zero = \<lparr>sa_raw = replicate SOCKADDR_STORAGE 0, sa_len = 0\<rparr>"

definition saddr_wf :: "saddr \<Rightarrow> bool" where
  "saddr_wf a = (length (sa_raw a) = SOCKADDR_STORAGE \<and> sa_len a \<le> SOCKADDR_STORAGE)"

section \<open>inet_ntop (AF_INET6)\<close>

fun hex_string :: "nat \<Rightarrow> string" where
  "hex_string n =
     (let digit = (\<lambda>d. char_of (if d < 10 then d + 48 else d + 87)) in
      if n < 16 then [digit n] else hex_string (n div 16) @ [digit (n mod 16)])"

declare hex_string.simps [simp del]

fun words_of :: "bytes \<Rightarrow> nat list" where
  "words_of (a # b # r) = (256 * unat a + unat b) # words_of r"
| "words_of r = []"

text \<open>The longest run of zero words (start and length), the first of them on a tie.\<close>

definition better_run :: "(nat \<times> nat) option \<Rightarrow> (nat \<times> nat) option \<Rightarrow> (nat \<times> nat) option" where
  "better_run cur best =
     (case (cur, best) of
        (None, _) \<Rightarrow> best
      | (Some c, None) \<Rightarrow> Some c
      | (Some c, Some b) \<Rightarrow> if snd c > snd b then Some c else Some b)"

fun zero_run :: "nat list \<Rightarrow> nat \<Rightarrow> (nat \<times> nat) option \<Rightarrow> (nat \<times> nat) option \<Rightarrow> (nat \<times> nat) option" where
  "zero_run [] i cur best = better_run cur best"
| "zero_run (w # ws) i cur best =
     (if w = 0 then
        zero_run ws (i + 1) (case cur of None \<Rightarrow> Some (i, 1) | Some (b, n) \<Rightarrow> Some (b, n + 1)) best
      else zero_run ws (i + 1) None (better_run cur best))"

fun ntop6_loop :: "bytes \<Rightarrow> nat \<times> nat \<Rightarrow> nat \<Rightarrow> nat list \<Rightarrow> string" where
  "ntop6_loop src (base, len) i [] = []"
| "ntop6_loop src (base, len) i (w # ws) =
     (if base \<le> i \<and> i < base + len then
        (if i = base then '':'' else []) @ ntop6_loop src (base, len) (i + 1) ws
      else
        (if i \<noteq> 0 then '':'' else []) @
        (if i = 6 \<and> base = 0 \<and> (len = 6 \<or> len = 5 \<and> words_of src ! 5 = 65535)
         then inet_ntop4 (drop 12 src)
         else hex_string w @ ntop6_loop src (base, len) (i + 1) ws))"

definition inet_ntop6 :: "bytes \<Rightarrow> string" where
  "inet_ntop6 src =
     (let ws = words_of src;
          best = (case zero_run ws 0 None None of
                    Some (b, n) \<Rightarrow> if n < 2 then (8, 0) else (b, n) | None \<Rightarrow> (8, 0))
      in ntop6_loop src best 0 ws @ (if fst best \<noteq> 8 \<and> fst best + snd best = 8 then '':'' else []))"

text \<open>\<^verbatim>\<open>inet_ntop\<close> returns NULL when the buffer has no room for the text and its terminator.\<close>

definition ntop_fit :: "nat \<Rightarrow> string \<Rightarrow> string option" where
  "ntop_fit sz s = (if length s + 1 \<le> sz then Some s else None)"

section \<open>human_addr2\<close>

text \<open>The bracket, the colon and the port that follow the address of a full print.\<close>

definition human_port :: "nat \<Rightarrow> nat \<Rightarrow> nat \<Rightarrow> string option" where
  "human_port salen port room =
     (let b = (if salen = SOCKADDR_IN6 \<and> port \<noteq> 0 \<and> room > 0 then '']'' else []);
          room1 = room - length b
      in if port = 0 \<or> room1 = 0 then (if room1 = 0 then None else Some b)
         else if room1 - 1 = 0 then None
         else Some (b @ '':'' @ take (room1 - 2) (dec_string port)))"

definition human_addr2 :: "bytes \<Rightarrow> nat \<Rightarrow> nat \<Rightarrow> bool \<Rightarrow> string option option" where
  "human_addr2 sa salen buflen full =
     (if buflen = 0 then Some None
      else case sa_family sa of
        None \<Rightarrow> None
      | Some fam \<Rightarrow>
          if fam \<noteq> AF_INET \<and> fam \<noteq> AF_INET6 then Some None
          else
            let v6 = (salen = SOCKADDR_IN6) in
            (case (sa_port sa, if v6 then mem_at sa 8 16 else mem_at sa 4 4) of
               (Some port, Some ip) \<Rightarrow>
                 let open_b = (if v6 \<and> full \<and> port \<noteq> 0 then ''['' else []);
                     room = buflen - length open_b
                 in (case ntop_fit room (if v6 then inet_ntop6 ip else inet_ntop4 ip) of
                       None \<Rightarrow> Some None
                     | Some t \<Rightarrow>
                         if \<not> full then Some (Some (open_b @ t))
                         else (case human_port salen port (room - length t) of
                                 None \<Rightarrow> None
                               | Some p \<Rightarrow> Some (Some (open_b @ t @ p))))
             | _ \<Rightarrow> None))"

section \<open>Lemmas\<close>

lemma mem_at_Some: "mem_at b off n = Some x \<longleftrightarrow> off + n \<le> length b \<and> x = take n (drop off b)"
  by (auto simp: mem_at_def)

lemma mem_cpy_length [simp]: "n \<le> length src \<Longrightarrow> n \<le> length dst \<Longrightarrow> length (mem_cpy dst src n) = length dst"
  by (simp add: mem_cpy_def)

lemma sa_in_storage: "saddr_wf a \<Longrightarrow> \<exists>x. sa_in (sa_raw a) n = Some x"
  by (simp add: sa_in_def mem_at_def saddr_wf_def SA_IN_OFFSET_def SA_IN_SIZE_def)

text \<open>The memory of an address is read in bounds when it has the size the length field names.\<close>

lemma human_addr2_total:
  assumes "8 \<le> length sa" "salen = SOCKADDR_IN6 \<longrightarrow> 24 \<le> length sa"
  shows "\<exists>r. human_addr2 sa salen buflen False = Some r"
  using assms by (auto simp: human_addr2_def sa_family_def sa_port_def mem_at_def ntop_fit_def Let_def)

lemma human_addr2_storage: "saddr_wf a \<Longrightarrow> \<exists>r. human_addr2 (sa_raw a) n buflen False = Some r"
  by (rule human_addr2_total) (simp_all add: saddr_wf_def)

text \<open>The text of an address fits into a buffer of \<^verbatim>\<open>MAX_IP_STR\<close> bytes.\<close>

lemma dec_string_byte: "length (dec_string (unat (a :: u8))) \<le> 3"
proof -
  have "unat a < 256" using unsigned_less [of a] by simp
  then show ?thesis by (simp add: dec_string.simps)
qed

lemma inet_ntop4_length: "length (inet_ntop4 b) \<le> 4 * length b - 1"
proof (induction b rule: inet_ntop4.induct)
  case (3 a b r)
  then show ?case using dec_string_byte [of a] by simp
qed (use dec_string_byte in auto)

lemma hex_string_length: "n < 65536 \<Longrightarrow> length (hex_string n) \<le> 4"
  by (simp add: hex_string.simps Let_def)

lemma words_of_less: "w \<in> set (words_of b) \<Longrightarrow> w < 65536"
proof (induction b rule: words_of.induct)
  case (1 a b r)
  have "unat a < 256" "unat b < 256" using unsigned_less [of a] unsigned_less [of b] by simp_all
  with 1 show ?case by auto
qed auto

lemma words_of_length: "length (words_of b) = length b div 2"
  by (induction b rule: words_of.induct) auto

lemma ntop6_loop_length:
  "\<forall>w \<in> set ws. w < 65536 \<Longrightarrow> \<not> (base = 0 \<and> (len = 5 \<or> len = 6)) \<Longrightarrow>
     length (ntop6_loop src (base, len) i ws) \<le> 5 * length ws"
proof (induction ws arbitrary: i)
  case (Cons w ws)
  have "length (hex_string w) \<le> 4" "length (ntop6_loop src (base, len) (Suc i) ws) \<le> 5 * length ws"
    using hex_string_length [of w] Cons.IH [of "Suc i"] Cons.prems by simp_all
  then show ?case using Cons.prems(2) by auto
qed simp

lemma ntop6_loop_length4:
  "\<forall>w \<in> set ws. w < 65536 \<Longrightarrow> length src = 16 \<Longrightarrow> i + length ws = 8 \<Longrightarrow>
     length (ntop6_loop src (base, len) i ws) + (if i = 0 then 1 else 0) \<le> 5 * length ws + 6"
proof (induction ws arbitrary: i)
  case (Cons w ws)
  have "length (inet_ntop4 (drop 12 src)) \<le> 15" using inet_ntop4_length [of "drop 12 src"] Cons.prems(2) by simp
  then show ?case using hex_string_length [of w] Cons.IH [of "i + 1"] Cons.prems by auto
qed simp

lemma inet_ntop6_length:
  assumes "length b = 16"
  shows "length (inet_ntop6 b) \<le> 45"
proof -
  obtain base len where best: "(case zero_run (words_of b) 0 None None of
      Some (b, n) \<Rightarrow> if n < 2 then (8, 0) else (b, n) | None \<Rightarrow> (8, 0)) = (base, len)" by fastforce
  have w: "\<forall>w \<in> set (words_of b). w < 65536" "length (words_of b) = 8"
    using words_of_less words_of_length [of b] assms by auto
  have "length (ntop6_loop b (base, len) 0 (words_of b)) \<le> 45"
    using ntop6_loop_length4 [OF w(1) assms, of 0 base len] w(2) by simp
  moreover have "length (ntop6_loop b (base, len) 0 (words_of b)) \<le> 40" if "base + len = 8"
    using ntop6_loop_length [OF w(1), of base len b 0] w(2) that by fastforce
  ultimately show ?thesis by (auto simp: inet_ntop6_def best Let_def)
qed

lemma human_addr2_text:
  assumes "saddr_wf a" "sa_family (sa_raw a) = Some AF_INET \<or> sa_family (sa_raw a) = Some AF_INET6"
  shows "\<exists>t. human_addr2 (sa_raw a) n MAX_IP_STR False = Some (Some t)"
proof -
  have l: "length (sa_raw a) = SOCKADDR_STORAGE" using assms(1) by (simp add: saddr_wf_def)
  have "length (inet_ntop4 (take 4 (drop 4 (sa_raw a)))) \<le> 15" "length (inet_ntop6 (take 16 (drop 8 (sa_raw a)))) \<le> 45"
    using inet_ntop4_length [of "take 4 (drop 4 (sa_raw a))"] inet_ntop6_length [of "take 16 (drop 8 (sa_raw a))"] l by simp_all
  then show ?thesis using assms(2) l by (auto simp: human_addr2_def ntop_fit_def mem_at_def sa_port_def Let_def)
qed

end
