(* ===== verification/Hash_Table.thy ===== *)
theory Hash_Table
  imports Ocserv_Prelude
begin

text \<open>
  The databases of the server (banned addresses, sec-mod client entries, IP
  leases, TLS sessions) are \<^verbatim>\<open>ccan/htable\<close> tables whose comparison function
  compares a key of the entries.  This theory holds the operations the clients
  use on the list of entries, the contract \<open>keyed_table\<close> they rely on, and the
  consequences of that contract, proved once.
\<close>

section \<open>Operations\<close>

text \<open>\<^verbatim>\<open>htable_get\<close>: the first candidate for which the comparison function holds.\<close>

definition htable_get :: "('e \<Rightarrow> bool) \<Rightarrow> 'e list \<Rightarrow> 'e option" where
  "htable_get cmp t = find cmp t"

definition htable_add :: "'e \<Rightarrow> 'e list \<Rightarrow> 'e list" where
  "htable_add e t = t @ [e]"

text \<open>Mutation through the pointer that \<^verbatim>\<open>htable_get\<close> returned.\<close>

fun htable_store :: "('e \<Rightarrow> bool) \<Rightarrow> 'e \<Rightarrow> 'e list \<Rightarrow> 'e list" where
  "htable_store cmp e [] = []"
| "htable_store cmp e (x # xs) = (if cmp x then e # xs else x # htable_store cmp e xs)"

text \<open>\<^verbatim>\<open>htable_del\<close> of the entry that the comparison function designates.\<close>

fun htable_del :: "('e \<Rightarrow> bool) \<Rightarrow> 'e list \<Rightarrow> 'e list" where
  "htable_del cmp [] = []"
| "htable_del cmp (x # xs) = (if cmp x then xs else x # htable_del cmp xs)"

text \<open>A walk with \<^verbatim>\<open>htable_first\<close>/\<^verbatim>\<open>htable_next\<close> that calls \<^verbatim>\<open>htable_delval\<close> where \<open>p\<close> holds.\<close>

definition htable_purge :: "('e \<Rightarrow> bool) \<Rightarrow> 'e list \<Rightarrow> 'e list" where
  "htable_purge p t = filter (\<lambda>e. \<not> p e) t"

definition tbl_get :: "('e \<Rightarrow> 'k) \<Rightarrow> 'k \<Rightarrow> 'e list \<Rightarrow> 'e option" where
  "tbl_get key k t = htable_get (\<lambda>c. key c = k) t"

definition tbl_store :: "('e \<Rightarrow> 'k) \<Rightarrow> 'e \<Rightarrow> 'e list \<Rightarrow> 'e list" where
  "tbl_store key e t = htable_store (\<lambda>c. key c = key e) e t"

definition tbl_del :: "('e \<Rightarrow> 'k) \<Rightarrow> 'k \<Rightarrow> 'e list \<Rightarrow> 'e list" where
  "tbl_del key k t = htable_del (\<lambda>c. key c = k) t"

definition tbl_ok :: "('e \<Rightarrow> 'k) \<Rightarrow> 'e list \<Rightarrow> bool" where
  "tbl_ok key t = distinct (map key t)"

section \<open>The contract of a keyed table\<close>

locale keyed_table =
  fixes key :: "'e \<Rightarrow> 'k"
    and get :: "'k \<Rightarrow> 't \<Rightarrow> 'e option"
    and add :: "'e \<Rightarrow> 't \<Rightarrow> 't"
    and store :: "'e \<Rightarrow> 't \<Rightarrow> 't"
    and del :: "'k \<Rightarrow> 't \<Rightarrow> 't"
    and purge :: "('e \<Rightarrow> bool) \<Rightarrow> 't \<Rightarrow> 't"
    and elems :: "'t \<Rightarrow> 'e set"
    and ok :: "'t \<Rightarrow> bool"
  assumes get_iff: "ok t \<Longrightarrow> get k t = Some e \<longleftrightarrow> e \<in> elems t \<and> key e = k"
    and add_elems: "elems (add e t) = insert e (elems t)"
    and add_ok: "ok t \<Longrightarrow> get (key e) t = None \<Longrightarrow> ok (add e t)"
    and store_elems: "ok t \<Longrightarrow> get (key e) t = Some e0
          \<Longrightarrow> elems (store e t) = insert e (elems t - {e0})"
    and store_ok: "ok t \<Longrightarrow> ok (store e t)"
    and del_elems: "ok t \<Longrightarrow> elems (del k t) = {e \<in> elems t. key e \<noteq> k}"
    and del_ok: "ok t \<Longrightarrow> ok (del k t)"
    and purge_elems: "elems (purge p t) = {e \<in> elems t. \<not> p e}"
    and purge_ok: "ok t \<Longrightarrow> ok (purge p t)"
begin

lemma get_None_iff: "ok t \<Longrightarrow> get k t = None \<longleftrightarrow> (\<forall>e \<in> elems t. key e \<noteq> k)"
  using get_iff [of t k] by (cases "get k t") fastforce+

lemma get_SomeD: "ok t \<Longrightarrow> get k t = Some e \<Longrightarrow> e \<in> elems t \<and> key e = k"
  by (simp add: get_iff)

lemma elems_unique:
  "ok t \<Longrightarrow> e \<in> elems t \<Longrightarrow> e' \<in> elems t \<Longrightarrow> key e = key e' \<Longrightarrow> e = e'"
  using get_iff [of t "key e'"] by (metis option.inject)

lemma get_eqI: "ok t \<Longrightarrow> ok t' \<Longrightarrow>
    (\<And>e. key e = k \<Longrightarrow> e \<in> elems t \<longleftrightarrow> e \<in> elems t') \<Longrightarrow> get k t = get k t'"
proof -
  assume "ok t" "ok t'" "\<And>e. key e = k \<Longrightarrow> e \<in> elems t \<longleftrightarrow> e \<in> elems t'"
  then have "get k t = Some e \<longleftrightarrow> get k t' = Some e" for e
    by (auto simp: get_iff)
  then show ?thesis by (metis not_Some_eq)
qed

lemma get_add:
  assumes "ok t" "get (key e) t = None"
  shows "get k (add e t) = (if k = key e then Some e else get k t)"
proof (cases "k = key e")
  case True
  then show ?thesis using assms by (simp add: get_iff add_ok add_elems)
next
  case False
  then have "get k (add e t) = get k t"
    using assms by (intro get_eqI) (auto simp: add_ok add_elems)
  with False show ?thesis by simp
qed

lemma get_store:
  assumes "ok t" "get (key e) t = Some e0"
  shows "get k (store e t) = (if k = key e then Some e else get k t)"
proof (cases "k = key e")
  case True
  then show ?thesis using assms by (simp add: get_iff store_ok store_elems [OF assms])
next
  case False
  have "key e0 = key e" using assms by (simp add: get_iff)
  then have "get k (store e t) = get k t"
    using assms False by (intro get_eqI) (auto simp: store_ok store_elems [OF assms])
  with False show ?thesis by simp
qed

lemma get_del: "ok t \<Longrightarrow> get k (del k' t) = (if k = k' then None else get k t)"
  by (cases "k = k'") (auto simp: get_None_iff del_ok del_elems intro!: get_eqI)

lemma get_purge:
  "ok t \<Longrightarrow> get k (purge p t) = (case get k t of None \<Rightarrow> None | Some e \<Rightarrow> if p e then None else Some e)"
proof (cases "get k t")
  case None
  moreover assume ok: "ok t"
  ultimately have "get k (purge p t) = None"
    using purge_ok [of t p] by (simp add: get_None_iff purge_elems)
  with None show ?thesis by simp
next
  case (Some e)
  moreover assume ok: "ok t"
  ultimately have e: "e \<in> elems t" "key e = k" by (auto dest: get_SomeD)
  have "get k (purge p t) = None" if "p e"
    using that e ok purge_ok [of t p] by (auto simp: get_None_iff purge_elems dest: elems_unique)
  moreover have "get k (purge p t) = Some e" if "\<not> p e"
    using that e ok purge_ok [of t p] by (simp add: get_iff purge_elems)
  ultimately show ?thesis using Some by simp
qed

lemma get_purge_keep:
  "ok t \<Longrightarrow> get k t = Some e \<Longrightarrow> \<not> p e \<Longrightarrow> get k (purge p t) = Some e"
  by (simp add: get_purge)

end

section \<open>The list of entries implements the contract\<close>

lemma htable_get_Some: "htable_get p t = Some e \<Longrightarrow> e \<in> set t \<and> p e"
  by (auto simp: htable_get_def find_Some_iff)

lemma htable_get_None: "htable_get p t = None \<longleftrightarrow> (\<forall>e \<in> set t. \<not> p e)"
  by (auto simp: htable_get_def find_None_iff)

lemma htable_add_simps [table_simps]:
  "set (htable_add e t) = insert e (set t)" "map f (htable_add e t) = map f t @ [f e]"
  "length (htable_add e t) = Suc (length t)"
  by (simp_all add: htable_add_def)

lemma set_htable_purge [table_simps]: "set (htable_purge p t) = {e \<in> set t. \<not> p e}"
  by (simp add: htable_purge_def)

lemma tbl_get_Cons [table_simps]:
  "tbl_get key k [] = None"
  "tbl_get key k (x # xs) = (if key x = k then Some x else tbl_get key k xs)"
  by (simp_all add: tbl_get_def htable_get_def)

lemma tbl_store_Cons [table_simps]:
  "tbl_store key e [] = []"
  "tbl_store key e (x # xs) = (if key x = key e then e # xs else x # tbl_store key e xs)"
  by (simp_all add: tbl_store_def)

lemma tbl_del_Cons [table_simps]:
  "tbl_del key k [] = []"
  "tbl_del key k (x # xs) = (if key x = k then xs else x # tbl_del key k xs)"
  by (simp_all add: tbl_del_def)

lemma map_key_tbl_store [table_simps]: "map key (tbl_store key e t) = map key t"
  by (induction t) (simp_all add: table_simps)

lemma length_tbl_store [table_simps]: "length (tbl_store key e t) = length t"
  using map_key_tbl_store [of key e t] map_eq_imp_length_eq by blast

lemma tbl_ok_Cons [table_simps]:
  "tbl_ok key []" "tbl_ok key (x # xs) \<longleftrightarrow> (\<forall>y \<in> set xs. key y \<noteq> key x) \<and> tbl_ok key xs"
  by (simp add: tbl_ok_def) (simp add: tbl_ok_def, metis image_iff)

lemma tbl_get_iff: "tbl_ok key t \<Longrightarrow> tbl_get key k t = Some e \<longleftrightarrow> e \<in> set t \<and> key e = k"
  by (induction t) (auto simp: table_simps)

lemma tbl_get_SomeD: "tbl_get key k t = Some e \<Longrightarrow> e \<in> set t \<and> key e = k"
  by (auto simp: tbl_get_def dest: htable_get_Some)

lemma tbl_get_None: "tbl_get key k t = None \<longleftrightarrow> k \<notin> key ` set t"
  by (auto simp: tbl_get_def htable_get_None)

lemma set_tbl_store:
  "tbl_ok key t \<Longrightarrow> tbl_get key (key e) t = Some e0
    \<Longrightarrow> set (tbl_store key e t) = insert e (set t - {e0})"
proof (induction t)
  case (Cons x xs)
  show ?case
  proof (cases "key x = key e")
    case True
    with Cons.prems have "e0 = x" "x \<notin> set xs" by (auto simp: table_simps)
    with True show ?thesis by (simp add: table_simps)
  next
    case False
    with Cons.prems have "x \<noteq> e0" by (auto simp: table_simps dest: tbl_get_SomeD)
    with False Cons show ?thesis by (auto simp: table_simps)
  qed
qed (simp add: table_simps)

lemma tbl_store_absent: "tbl_get key (key e) t = None \<Longrightarrow> tbl_store key e t = t"
  by (induction t) (auto simp: table_simps split: if_splits)

lemma set_tbl_del: "tbl_ok key t \<Longrightarrow> set (tbl_del key k t) = {e \<in> set t. key e \<noteq> k}"
  by (induction t) (force simp: table_simps)+

lemma tbl_del_ok: "tbl_ok key t \<Longrightarrow> tbl_ok key (tbl_del key k t)"
  by (induction t) (auto simp: table_simps set_tbl_del)

lemma tbl_store_twice [table_simps]: "key e' = key e \<Longrightarrow> tbl_store key e' (tbl_store key e t) = tbl_store key e' t"
  by (induction t) (auto simp: table_simps)

lemma tbl_del_store [table_simps]: "k = key e \<Longrightarrow> tbl_del key k (tbl_store key e t) = tbl_del key k t"
  by (induction t) (auto simp: table_simps)

lemma tbl_del_purge: "tbl_ok key t \<Longrightarrow> tbl_del key k t = htable_purge (\<lambda>e. key e = k) t"
  by (induction t) (auto simp: table_simps htable_purge_def filter_id_conv)

lemma list_keyed_table:
  "keyed_table key (tbl_get key) htable_add (tbl_store key) (tbl_del key) htable_purge set (tbl_ok key)"
proof
  show "tbl_ok key (htable_add e t)" if "tbl_ok key t" "tbl_get key (key e) t = None" for t e
    using that by (auto simp: tbl_ok_def table_simps tbl_get_None)
  show "tbl_ok key (tbl_store key e t)" if "tbl_ok key t" for t e
    using that by (simp add: tbl_ok_def table_simps)
  show "tbl_ok key (htable_purge p t)" if "tbl_ok key t" for t p
    using that by (simp add: tbl_ok_def htable_purge_def distinct_map_filter)
qed (simp_all add: tbl_get_iff table_simps set_tbl_store set_tbl_del tbl_del_ok)

end
