(* ===== verification/Main_Ban.thy ===== *)
theory Main_Ban
  imports Hash_Table
begin

text \<open>
  The ban list of the main process (\<^verbatim>\<open>src/src/main-ban.c\<close>, \<^verbatim>\<open>main-ban.h\<close>).  Every failed
  login and every connection adds points to the source address; once the points
  reach \<^verbatim>\<open>max-ban-score\<close> the address is refused until its ban expires.  An IPv6
  address is accounted per /64.

  \<^verbatim>\<open>time_t\<close> values are unbounded integers, the score is a 32-bit word.  The values of
  \<^verbatim>\<open>time (NULL)\<close>, \<^verbatim>\<open>talloc_zero\<close> and \<^verbatim>\<open>htable_add\<close> come from the environment record.
\<close>

section \<open>State\<close>

record inaddr_st =
  ia_ip :: bytes
  ia_size :: nat

record ban_entry_st =
  be_ip :: inaddr_st
  be_score :: u32
  be_last_reset :: time_t
  be_expires :: time_t

record ban_config =
  max_ban_score :: u32
  ban_time :: int
  ban_reset_time :: int
  ban_points_connect :: u32

text \<open>The address a socket call reports: family and address bytes.\<close>

datatype sockaddr = SaIn bytes | SaIn6 bytes | SaOther

record if_address_st =
  if_addr :: sockaddr
  if_netmask :: sockaddr

record ban_server =
  ban_db :: "ban_entry_st list option"
  ban_cfg :: ban_config
  if_addresses :: "if_address_st list"

record ban_env =
  env_now :: time_t
  env_alloc :: bool
  env_htadd :: bool

definition IS_BANNED :: "ban_server \<Rightarrow> ban_entry_st \<Rightarrow> bool" where
  "IS_BANNED s e = (be_score e \<ge> max_ban_score (ban_cfg s))"

section \<open>Operations\<close>

definition ban_entry_cmp :: "inaddr_st \<Rightarrow> ban_entry_st \<Rightarrow> bool" where
  "ban_entry_cmp t c =
     (ia_size (be_ip c) = ia_size t \<and>
      take (ia_size t) (ia_ip (be_ip c)) = take (ia_size t) (ia_ip t))"

definition main_ban_db_init :: "ban_server \<Rightarrow> ban_server" where
  "main_ban_db_init s = s\<lparr>ban_db := Some []\<rparr>"

definition main_ban_db_elems :: "time_t \<Rightarrow> ban_server \<Rightarrow> nat" where
  "main_ban_db_elems now s =
     (case ban_db s of
        None \<Rightarrow> 0
      | Some db \<Rightarrow>
          if max_ban_score (ban_cfg s) = 0 then 0
          else length (filter (\<lambda>t. be_expires t > now \<and> IS_BANNED s t) db))"

definition massage_ipv6_address :: "inaddr_st \<Rightarrow> inaddr_st" where
  "massage_ipv6_address t =
     (if ia_size t = 16 then t\<lparr>ia_ip := take 8 (ia_ip t) @ replicate 8 0\<rparr> else t)"

definition mk_inaddr :: "bytes \<Rightarrow> nat \<Rightarrow> inaddr_st" where
  "mk_inaddr ip sz = massage_ipv6_address \<lparr>ia_ip = take sz ip, ia_size = sz\<rparr>"

text \<open>The score reset of an entry that was found.\<close>

definition ban_reset :: "ban_server \<Rightarrow> time_t \<Rightarrow> ban_entry_st \<Rightarrow> ban_entry_st" where
  "ban_reset s now e =
     (if (now > be_expires e \<and> IS_BANNED s e) \<or>
         (now > be_last_reset e + ban_reset_time (ban_cfg s) \<and> \<not> IS_BANNED s e)
      then e\<lparr>be_score := 0, be_last_reset := now\<rparr> else e)"

text \<open>The update of expiry and score that follows, for a new and an old entry alike.\<close>

definition ban_bump :: "ban_server \<Rightarrow> time_t \<Rightarrow> u32 \<Rightarrow> ban_entry_st \<Rightarrow> ban_entry_st" where
  "ban_bump s now score e =
     (let e1 = (if be_score e < max_ban_score (ban_cfg s)
                then e\<lparr>be_expires := now + ban_time (ban_cfg s)\<rparr> else e)
      in e1\<lparr>be_score := (if be_score e1 + score > be_score e1 then be_score e1 + score
                         else be_score e1)\<rparr>)"

definition add_ip_to_ban_list ::
  "ban_env \<Rightarrow> bytes option \<Rightarrow> nat \<Rightarrow> u32 \<Rightarrow> ban_server \<Rightarrow> int \<times> ban_server" where
  "add_ip_to_ban_list env ip ip_size score s =
     (case (ban_db s, ip) of
        (Some db, Some ipb) \<Rightarrow>
          if max_ban_score (ban_cfg s) = 0 \<or> (ip_size \<noteq> 4 \<and> ip_size \<noteq> 16) then (0, s)
          else
            let now = env_now env; t = mk_inaddr ipb ip_size; cmp = ban_entry_cmp t in
            (case htable_get cmp db of
               None \<Rightarrow>
                 if \<not> env_alloc env then (0, s)
                 else if \<not> env_htadd env then (0, s)
                 else let e = ban_bump s now score
                                \<lparr>be_ip = t, be_score = 0, be_last_reset = now, be_expires = 0\<rparr>
                      in (if IS_BANNED s e then -1 else 0, s\<lparr>ban_db := Some (htable_add e db)\<rparr>)
             | Some e0 \<Rightarrow>
                 let e = ban_bump s now score (ban_reset s now e0)
                 in (if IS_BANNED s e then -1 else 0, s\<lparr>ban_db := Some (htable_store cmp e db)\<rparr>))
      | _ \<Rightarrow> (0, s))"

definition add_str_ip_to_ban_list ::
  "ban_env \<Rightarrow> string option \<Rightarrow> u32 \<Rightarrow> ban_server \<Rightarrow> int \<times> ban_server" where
  "add_str_ip_to_ban_list env ip score s =
     (case (ban_db s, ip) of
        (Some db, Some str) \<Rightarrow>
          if max_ban_score (ban_cfg s) = 0 \<or> str = [] then (0, s)
          else if strchr str (CHR '':'') \<noteq> None then
            (case inet_pton6 str of
               None \<Rightarrow> (0, s)
             | Some b \<Rightarrow> add_ip_to_ban_list env (Some b) 16 score s)
          else
            (case inet_pton4 str of
               None \<Rightarrow> (0, s)
             | Some b \<Rightarrow> add_ip_to_ban_list env (Some b) 4 score s)
      | _ \<Rightarrow> (0, s))"

definition remove_ip_from_ban_list :: "bytes option \<Rightarrow> nat \<Rightarrow> ban_server \<Rightarrow> int \<times> ban_server" where
  "remove_ip_from_ban_list ip sz s =
     (case (ban_db s, ip) of
        (Some db, Some ipb) \<Rightarrow>
          if sz = 4 \<or> sz = 16 then
            (let cmp = ban_entry_cmp (mk_inaddr ipb sz) in
             case htable_get cmp db of
               None \<Rightarrow> (0, s)
             | Some e \<Rightarrow>
                 (1, s\<lparr>ban_db := Some (htable_store cmp (e\<lparr>be_score := 0, be_expires := 0\<rparr>) db)\<rparr>))
          else (0, s)
      | _ \<Rightarrow> (0, s))"

definition cleanup_banned_entries :: "time_t \<Rightarrow> ban_server \<Rightarrow> ban_server" where
  "cleanup_banned_entries now s =
     (case ban_db s of
        None \<Rightarrow> s
      | Some db \<Rightarrow>
          s\<lparr>ban_db := Some (htable_purge (\<lambda>t. now \<ge> be_expires t \<and>
                              now > be_last_reset t + ban_reset_time (ban_cfg s)) db)\<rparr>)"

subsection \<open>Local networks\<close>

text \<open>
  The interface list of \<^verbatim>\<open>getifaddrs\<close>: \<^term>\<open>None\<close> when the call fails; each element is the
  address (\<^term>\<open>None\<close> for a NULL \<^verbatim>\<open>ifa_addr\<close>) with its netmask.
\<close>

fun if_entry :: "sockaddr option \<times> sockaddr \<Rightarrow> if_address_st list" where
  "if_entry (Some (SaIn a), m) = [\<lparr>if_addr = SaIn a, if_netmask = m\<rparr>]"
| "if_entry (Some (SaIn6 a), m) = [\<lparr>if_addr = SaIn6 a, if_netmask = m\<rparr>]"
| "if_entry (Some SaOther, m) = []"
| "if_entry (None, m) = []"

definition if_address_init ::
  "(sockaddr option \<times> sockaddr) list option \<Rightarrow> bool \<Rightarrow> ban_server \<Rightarrow> int \<times> ban_server" where
  "if_address_init ifaddrs alloc s =
     (case ifaddrs of
        None \<Rightarrow> (0, s\<lparr>if_addresses := []\<rparr>)
      | Some l \<Rightarrow>
          if \<not> alloc then (0, s\<lparr>if_addresses := []\<rparr>)
          else (1, s\<lparr>if_addresses := concat (map if_entry l)\<rparr>))"

fun sa_bytes :: "sockaddr \<Rightarrow> bytes" where
  "sa_bytes (SaIn a) = a"
| "sa_bytes (SaIn6 a) = a"
| "sa_bytes SaOther = []"

definition test_local_ipv4 :: "bytes \<Rightarrow> bytes \<Rightarrow> bytes \<Rightarrow> bool" where
  "test_local_ipv4 remote local network = (bytes_and local network = bytes_and remote network)"

text \<open>The four 32-bit words of the address are compared one after the other.\<close>

definition test_local_ipv6 :: "bytes \<Rightarrow> bytes \<Rightarrow> bytes \<Rightarrow> bool" where
  "test_local_ipv6 remote local network =
     list_all (\<lambda>i. take 4 (drop (4 * i) (bytes_and local network)) =
                   take 4 (drop (4 * i) (bytes_and remote network))) [0 ..< 4]"

fun if_local_one :: "sockaddr \<Rightarrow> if_address_st \<Rightarrow> bool" where
  "if_local_one (SaIn r) ifa =
     (case if_addr ifa of SaIn l \<Rightarrow> test_local_ipv4 r l (sa_bytes (if_netmask ifa)) | _ \<Rightarrow> False)"
| "if_local_one (SaIn6 r) ifa =
     (case if_addr ifa of SaIn6 l \<Rightarrow> test_local_ipv6 r l (sa_bytes (if_netmask ifa)) | _ \<Rightarrow> False)"
| "if_local_one SaOther ifa = False"

definition if_address_test_local :: "ban_server \<Rightarrow> sockaddr \<Rightarrow> bool" where
  "if_address_test_local s addr = list_ex (if_local_one addr) (if_addresses s)"

definition if_address_cleanup :: "ban_server \<Rightarrow> ban_server" where
  "if_address_cleanup s = s\<lparr>if_addresses := []\<rparr>"

text \<open>
  \<^verbatim>\<open>check_if_banned\<close>, called on every new connection.  The test for a local network looks at
  the family of the address; the address that is charged is the one that \<^verbatim>\<open>SA_IN_P_GENERIC\<close>
  and \<^verbatim>\<open>SA_IN_SIZE\<close> find with the length of the address, \<^term>\<open>ip\<close>.  \<^term>\<open>now\<close> is the second
  reading of the clock.
\<close>

definition check_if_banned :: "ban_env \<Rightarrow> time_t \<Rightarrow> sockaddr \<Rightarrow> bytes \<Rightarrow> ban_server \<Rightarrow> bool \<times> ban_server" where
  "check_if_banned env now addr ip s =
     (case ban_db s of
        None \<Rightarrow> (False, s)
      | Some _ \<Rightarrow>
          if max_ban_score (ban_cfg s) = 0 then (False, s)
          else if if_address_test_local s addr then (False, s)
          else if length ip \<noteq> 4 \<and> length ip \<noteq> 16 then (False, s)
          else
            let t = mk_inaddr ip (length ip);
                s' = snd (add_ip_to_ban_list env (Some (ia_ip t)) (length ip)
                           (ban_points_connect (ban_cfg s)) s)
            in (case Option.bind (ban_db s') (htable_get (ban_entry_cmp t)) of
                  None \<Rightarrow> (False, s')
                | Some e \<Rightarrow> (\<not> now > be_expires e \<and> be_score e \<ge> max_ban_score (ban_cfg s'), s')))"

section \<open>The list as a table keyed by address\<close>

definition ia_wf :: "inaddr_st \<Rightarrow> bool" where
  "ia_wf t = (length (ia_ip t) \<le> ia_size t)"

definition ban_inv :: "ban_server \<Rightarrow> bool" where
  "ban_inv s = (\<exists>db. ban_db s = Some db \<and> list_all (ia_wf \<circ> be_ip) db \<and> tbl_ok be_ip db)"

definition ban_lookup :: "ban_server \<Rightarrow> inaddr_st \<Rightarrow> ban_entry_st option" where
  "ban_lookup s t = Option.bind (ban_db s) (tbl_get be_ip t)"

interpretation bans: keyed_table be_ip "tbl_get be_ip" htable_add "tbl_store be_ip" "tbl_del be_ip"
  htable_purge set "tbl_ok be_ip"
  by (rule list_keyed_table)

lemma mk_inaddr_wf [simp]: "ia_wf (mk_inaddr ip sz)"
  by (simp add: ia_wf_def mk_inaddr_def massage_ipv6_address_def)

lemma mk_inaddr_size [simp]: "ia_size (mk_inaddr ip sz) = sz"
  by (simp add: mk_inaddr_def massage_ipv6_address_def)

text \<open>Masking is idempotent, so the two maskings of \<^verbatim>\<open>check_if_banned\<close> agree with one.\<close>

lemma mk_inaddr_idem [simp]: "length ip = sz \<Longrightarrow> mk_inaddr (ia_ip (mk_inaddr ip sz)) sz = mk_inaddr ip sz"
  by (simp add: mk_inaddr_def massage_ipv6_address_def)

lemma ban_entry_cmp_iff: "ia_wf t \<Longrightarrow> ia_wf (be_ip c) \<Longrightarrow> ban_entry_cmp t c \<longleftrightarrow> be_ip c = t"
  by (cases t; cases "be_ip c") (auto simp: ban_entry_cmp_def ia_wf_def)

lemma ban_get_eq:
  "ia_wf t \<Longrightarrow> list_all (ia_wf \<circ> be_ip) db \<Longrightarrow> htable_get (ban_entry_cmp t) db = tbl_get be_ip t db"
  by (induction db) (auto simp: htable_get_def table_simps ban_entry_cmp_iff)

lemma ban_store_eq:
  "ia_wf (be_ip e) \<Longrightarrow> list_all (ia_wf \<circ> be_ip) db
    \<Longrightarrow> htable_store (ban_entry_cmp (be_ip e)) e db = tbl_store be_ip e db"
  by (induction db) (auto simp: table_simps ban_entry_cmp_iff)

lemma ban_store_wf:
  "list_all (ia_wf \<circ> be_ip) db \<Longrightarrow> ia_wf (be_ip e) \<Longrightarrow> list_all (ia_wf \<circ> be_ip) (tbl_store be_ip e db)"
  by (induction db) (auto simp: table_simps)

lemma ban_bump_ip [simp]: "be_ip (ban_bump s now score e) = be_ip e"
  by (simp add: ban_bump_def Let_def)

lemma ban_reset_ip [simp]: "be_ip (ban_reset s now e) = be_ip e"
  by (simp add: ban_reset_def)

text \<open>A put replaces the entry of its key, or adds it.\<close>

definition ban_put :: "ban_entry_st \<Rightarrow> ban_entry_st list \<Rightarrow> ban_entry_st list" where
  "ban_put e db = (if tbl_get be_ip (be_ip e) db = None then htable_add e db else tbl_store be_ip e db)"

definition ban_set :: "ban_entry_st \<Rightarrow> ban_server \<Rightarrow> ban_server" where
  "ban_set e s = s\<lparr>ban_db := map_option (ban_put e) (ban_db s)\<rparr>"

lemma ban_set_simps [simp]:
  "ban_cfg (ban_set e s) = ban_cfg s" "if_addresses (ban_set e s) = if_addresses s"
  "IS_BANNED (ban_set e s) = IS_BANNED s"
  by (simp_all add: ban_set_def IS_BANNED_def fun_eq_iff)

lemma ban_put_ok: "tbl_ok be_ip db \<Longrightarrow> tbl_ok be_ip (ban_put e db)"
  by (simp add: ban_put_def bans.store_ok bans.add_ok)

lemma ban_put_wf:
  "list_all (ia_wf \<circ> be_ip) db \<Longrightarrow> ia_wf (be_ip e) \<Longrightarrow> list_all (ia_wf \<circ> be_ip) (ban_put e db)"
  by (simp add: ban_put_def ban_store_wf htable_add_def)

lemma ban_set_inv: "ban_inv s \<Longrightarrow> ia_wf (be_ip e) \<Longrightarrow> ban_inv (ban_set e s)"
  by (auto simp: ban_inv_def ban_set_def ban_put_ok ban_put_wf)

lemma ban_lookup_set:
  "ban_inv s \<Longrightarrow> ban_lookup (ban_set e s) t = (if t = be_ip e then Some e else ban_lookup s t)"
  by (auto simp: ban_inv_def ban_lookup_def ban_set_def ban_put_def bans.get_add bans.get_store)

text \<open>The entry of an address that gains points, whether it was known or not.\<close>

definition ban_charge :: "ban_server \<Rightarrow> time_t \<Rightarrow> u32 \<Rightarrow> inaddr_st \<Rightarrow> ban_entry_st" where
  "ban_charge s now score t = ban_bump s now score
     (case ban_lookup s t of
        None \<Rightarrow> \<lparr>be_ip = t, be_score = 0, be_last_reset = now, be_expires = 0\<rparr>
      | Some e \<Rightarrow> ban_reset s now e)"

lemma ban_lookup_ip: "ban_lookup s t = Some e \<Longrightarrow> be_ip e = t"
  by (auto simp: ban_lookup_def bind_eq_Some_conv dest: tbl_get_SomeD)

lemma ban_charge_ip [simp]: "be_ip (ban_charge s now score t) = t"
  by (auto simp: ban_charge_def ban_lookup_ip split: option.split)

lemma add_ip_spec:
  assumes "ban_inv s" "max_ban_score (ban_cfg s) \<noteq> 0" "sz = 4 \<or> sz = 16"
    and "ban_lookup s (mk_inaddr ip sz) = None \<Longrightarrow> env_alloc env \<and> env_htadd env"
  shows "add_ip_to_ban_list env (Some ip) sz score s =
     (let e = ban_charge s (env_now env) score (mk_inaddr ip sz)
      in (if IS_BANNED s e then -1 else 0, ban_set e s))"
proof -
  from assms(1) obtain db where db: "ban_db s = Some db" "list_all (ia_wf \<circ> be_ip) db" "tbl_ok be_ip db"
    by (auto simp: ban_inv_def)
  let ?t = "mk_inaddr ip sz"
  have get: "htable_get (ban_entry_cmp ?t) db = ban_lookup s ?t"
    using db by (simp add: ban_get_eq ban_lookup_def)
  show ?thesis
  proof (cases "ban_lookup s ?t")
    case None
    then show ?thesis using assms db get
      by (auto simp: add_ip_to_ban_list_def Let_def ban_charge_def ban_set_def ban_put_def ban_lookup_def)
  next
    case (Some e)
    then have ip: "be_ip e = ?t" by (rule ban_lookup_ip)
    have "htable_store (ban_entry_cmp ?t) e' db = ban_put e' db" if "be_ip e' = ?t" for e'
      using ban_store_eq [of e' db] that db Some by (simp add: ban_put_def ban_lookup_def)
    then show ?thesis using assms db get Some ip
      by (auto simp: add_ip_to_ban_list_def Let_def ban_charge_def ban_set_def)
  qed
qed

lemma add_ip_cases:
  assumes "ban_inv s"
  shows "snd (add_ip_to_ban_list env ipo sz score s) = s \<or>
    (\<exists>ip. ipo = Some ip \<and> (sz = 4 \<or> sz = 16) \<and> max_ban_score (ban_cfg s) \<noteq> 0 \<and>
      snd (add_ip_to_ban_list env ipo sz score s) =
        ban_set (ban_charge s (env_now env) score (mk_inaddr ip sz)) s)"
proof (cases "\<exists>ip. ipo = Some ip \<and> (sz = 4 \<or> sz = 16) \<and> max_ban_score (ban_cfg s) \<noteq> 0 \<and>
    (ban_lookup s (mk_inaddr ip sz) = None \<longrightarrow> env_alloc env \<and> env_htadd env)")
  case True
  then obtain ip where ip: "ipo = Some ip" "sz = 4 \<or> sz = 16" "max_ban_score (ban_cfg s) \<noteq> 0"
    "ban_lookup s (mk_inaddr ip sz) = None \<Longrightarrow> env_alloc env \<and> env_htadd env" by auto
  then show ?thesis using add_ip_spec [OF assms ip(3,2,4)] by (simp add: Let_def)
next
  case False
  from assms obtain db where db: "ban_db s = Some db" "list_all (ia_wf \<circ> be_ip) db"
    by (auto simp: ban_inv_def)
  have "htable_get (ban_entry_cmp (mk_inaddr ip sz)) db = ban_lookup s (mk_inaddr ip sz)" for ip
    using db by (simp add: ban_get_eq ban_lookup_def)
  with False db show ?thesis
    by (auto simp: add_ip_to_ban_list_def Let_def split: option.split)
qed

lemma add_str_cases:
  "\<exists>ipo sz. add_str_ip_to_ban_list env str score s = (0, s) \<or>
     add_str_ip_to_ban_list env str score s = add_ip_to_ban_list env ipo sz score s"
  by (auto simp: add_str_ip_to_ban_list_def split: option.split)

section \<open>Effect of each operation on one address\<close>

lemma ban_inv_add: "ban_inv s \<Longrightarrow> ban_inv (snd (add_ip_to_ban_list env ipo sz score s))"
  using add_ip_cases [of s env ipo sz score] by (auto simp: ban_set_inv)

lemma ban_inv_add_str: "ban_inv s \<Longrightarrow> ban_inv (snd (add_str_ip_to_ban_list env str score s))"
  using add_str_cases [of env str score s] by (auto simp: ban_inv_add)

lemma remove_ip_spec:
  assumes "ban_inv s" "sz = 4 \<or> sz = 16"
  shows "remove_ip_from_ban_list (Some ip) sz s =
    (case ban_lookup s (mk_inaddr ip sz) of
       None \<Rightarrow> (0, s) | Some e \<Rightarrow> (1, ban_set (e\<lparr>be_score := 0, be_expires := 0\<rparr>) s))"
proof -
  from assms(1) obtain db where db: "ban_db s = Some db" "list_all (ia_wf \<circ> be_ip) db"
    by (auto simp: ban_inv_def)
  let ?t = "mk_inaddr ip sz"
  have "htable_store (ban_entry_cmp ?t) e db = ban_put e db"
    if "be_ip e = ?t" "ban_lookup s ?t \<noteq> None" for e
    using ban_store_eq [of e db] that db by (auto simp: ban_put_def ban_lookup_def)
  moreover have "htable_get (ban_entry_cmp ?t) db = ban_lookup s ?t"
    using db by (simp add: ban_get_eq ban_lookup_def)
  ultimately show ?thesis using assms(2) db
    by (auto simp: remove_ip_from_ban_list_def Let_def ban_set_def ban_lookup_ip split: option.split)
qed

lemma remove_ip_cases:
  "ban_inv s \<Longrightarrow> snd (remove_ip_from_ban_list ipo sz s) = s \<or>
    (\<exists>ip e. ipo = Some ip \<and> ban_lookup s (mk_inaddr ip sz) = Some e \<and>
       snd (remove_ip_from_ban_list ipo sz s) = ban_set (e\<lparr>be_score := 0, be_expires := 0\<rparr>) s)"
  using remove_ip_spec [of s sz]
  by (cases ipo; cases "sz = 4 \<or> sz = 16")
    (auto simp: remove_ip_from_ban_list_def split: option.splits)

lemma ban_inv_remove: "ban_inv s \<Longrightarrow> ban_inv (snd (remove_ip_from_ban_list ipo sz s))"
  using remove_ip_cases [of s ipo sz] by (auto simp: ban_lookup_ip intro!: ban_set_inv)

lemma ban_inv_cleanup: "ban_inv s \<Longrightarrow> ban_inv (cleanup_banned_entries now s)"
  by (auto simp: ban_inv_def cleanup_banned_entries_def bans.purge_ok list_all_iff table_simps)

lemma ban_lookup_cleanup:
  "ban_inv s \<Longrightarrow> ban_lookup s t = Some e \<Longrightarrow> now < be_expires e
    \<Longrightarrow> ban_lookup (cleanup_banned_entries now s) t = Some e"
  by (auto simp: ban_inv_def ban_lookup_def cleanup_banned_entries_def bans.get_purge)

lemma check_if_banned_state:
  "ban_inv s \<Longrightarrow> snd (check_if_banned env now addr ip s) = s \<or>
     (\<exists>i sz. snd (check_if_banned env now addr ip s) =
        snd (add_ip_to_ban_list env (Some i) sz (ban_points_connect (ban_cfg s)) s))"
  by (auto simp: check_if_banned_def Let_def split: option.split)

lemma ban_inv_check: "ban_inv s \<Longrightarrow> ban_inv (snd (check_if_banned env now addr ip s))"
  using check_if_banned_state [of s env now addr ip] ban_inv_add by metis

section \<open>Runs of the ban list\<close>

text \<open>The calls the main process makes on the ban list, in the order it makes them.\<close>

datatype ban_op =
    OpAdd ban_env "bytes option" nat u32
  | OpAddStr ban_env "string option" u32
  | OpRemove "bytes option" nat
  | OpCheck ban_env time_t sockaddr bytes
  | OpCleanup time_t

fun ban_step :: "ban_op \<Rightarrow> ban_server \<Rightarrow> ban_server" where
  "ban_step (OpAdd env ip sz score) s = snd (add_ip_to_ban_list env ip sz score s)"
| "ban_step (OpAddStr env str score) s = snd (add_str_ip_to_ban_list env str score s)"
| "ban_step (OpRemove ip sz) s = snd (remove_ip_from_ban_list ip sz s)"
| "ban_step (OpCheck env now addr ip) s = snd (check_if_banned env now addr ip s)"
| "ban_step (OpCleanup now) s = cleanup_banned_entries now s"

definition ban_run :: "ban_op list \<Rightarrow> ban_server \<Rightarrow> ban_server" where
  "ban_run ops s = fold ban_step ops s"

text \<open>The call happens while a ban that expires at \<open>x\<close> is in force, and is not its removal.\<close>

fun ban_op_during :: "time_t \<Rightarrow> inaddr_st \<Rightarrow> ban_op \<Rightarrow> bool" where
  "ban_op_during x t (OpAdd env ip sz score) = (env_now env \<le> x)"
| "ban_op_during x t (OpAddStr env str score) = (env_now env \<le> x)"
| "ban_op_during x t (OpRemove ip sz) = (\<forall>b. ip = Some b \<longrightarrow> mk_inaddr b sz \<noteq> t)"
| "ban_op_during x t (OpCheck env now addr ip) = (env_now env \<le> x)"
| "ban_op_during x t (OpCleanup now) = (now < x)"

definition ban_active :: "ban_server \<Rightarrow> inaddr_st \<Rightarrow> time_t \<Rightarrow> bool" where
  "ban_active s t x = (\<exists>e. ban_lookup s t = Some e \<and> IS_BANNED s e \<and> be_expires e = x)"

lemma ban_bump_score_mono: "be_score e \<le> be_score (ban_bump s now score e)"
  by (simp add: ban_bump_def Let_def order.strict_implies_order)

lemma ban_charge_banned:
  "ban_lookup s t = Some e \<Longrightarrow> IS_BANNED s e \<Longrightarrow> now \<le> be_expires e \<Longrightarrow>
     IS_BANNED s (ban_charge s now score t) \<and> be_expires (ban_charge s now score t) = be_expires e"
  using ban_bump_score_mono [of e s now score]
  by (auto simp: ban_charge_def ban_reset_def IS_BANNED_def ban_bump_def Let_def)

lemma ban_active_add:
  assumes "ban_inv s" "ban_active s t x" "env_now env \<le> x"
  shows "ban_active (snd (add_ip_to_ban_list env ipo sz score s)) t x"
  using assms add_ip_cases [OF assms(1), of env ipo sz score] ban_charge_banned [of s t]
  by (fastforce simp: ban_active_def ban_lookup_set)

lemma ban_step_inv: "ban_inv s \<Longrightarrow> ban_inv (ban_step op s)"
  by (cases op) (simp_all add: ban_inv_add ban_inv_add_str ban_inv_remove ban_inv_check ban_inv_cleanup)

lemma ban_step_active:
  assumes "ban_inv s" "ban_active s t x" "ban_op_during x t op"
  shows "ban_active (ban_step op s) t x"
proof (cases op)
  case (OpAdd env ip sz score)
  then show ?thesis using assms by (simp add: ban_active_add)
next
  case (OpAddStr env str score)
  then show ?thesis using assms add_str_cases [of env str score s] by (auto simp: ban_active_add)
next
  case (OpRemove ip sz)
  then show ?thesis using assms remove_ip_cases [OF assms(1), of ip sz]
    by (auto simp: ban_active_def ban_lookup_set dest: ban_lookup_ip)
next
  case (OpCheck env now addr ip)
  then show ?thesis using assms check_if_banned_state [OF assms(1), of env now addr ip]
    by (auto simp: ban_active_add)
next
  case (OpCleanup now)
  then show ?thesis using assms ban_lookup_cleanup [OF assms(1), of t _ now]
    by (auto simp: ban_active_def IS_BANNED_def cleanup_banned_entries_def split: option.split)
qed

lemma ban_run_inv: "ban_inv s \<Longrightarrow> ban_inv (ban_run ops s)"
  unfolding ban_run_def by (induction ops arbitrary: s) (simp_all add: ban_step_inv)

lemma ban_run_active:
  "ban_inv s \<Longrightarrow> ban_active s t x \<Longrightarrow> list_all (ban_op_during x t) ops \<Longrightarrow> ban_active (ban_run ops s) t x"
  unfolding ban_run_def
  by (induction ops arbitrary: s) (simp_all add: ban_step_inv ban_step_active)

definition ban_static :: "ban_server \<Rightarrow> ban_config \<times> if_address_st list" where
  "ban_static s = (ban_cfg s, if_addresses s)"

lemma add_ip_static: "ban_static (snd (add_ip_to_ban_list env ip sz score s)) = ban_static s"
  by (simp add: ban_static_def add_ip_to_ban_list_def Let_def split: option.split)

lemma ban_step_static: "ban_static (ban_step op s) = ban_static s"
proof (cases op)
  case (OpAdd env ip sz score)
  then show ?thesis by (simp add: add_ip_static)
next
  case (OpAddStr env str score)
  then show ?thesis by (simp add: add_str_ip_to_ban_list_def add_ip_static split: option.split)
next
  case (OpCheck env now addr ip)
  then show ?thesis by (simp add: check_if_banned_def Let_def add_ip_static split: option.split)
qed (simp_all add: ban_static_def remove_ip_from_ban_list_def Let_def
       cleanup_banned_entries_def split: option.split)

lemma ban_run_static: "ban_static (ban_run ops s) = ban_static s"
  unfolding ban_run_def by (induction ops arbitrary: s) (simp_all add: ban_step_static)

section \<open>Connection checks\<close>

abbreviation ip_key :: "bytes \<Rightarrow> inaddr_st" where
  "ip_key ip \<equiv> mk_inaddr ip (length ip)"

lemma check_if_banned_spec:
  assumes "ban_inv s" "max_ban_score (ban_cfg s) \<noteq> 0" "\<not> if_address_test_local s addr"
    and "length ip = 4 \<or> length ip = 16"
    and "ban_lookup s (ip_key ip) = None \<Longrightarrow> env_alloc env \<and> env_htadd env"
  shows "check_if_banned env now addr ip s =
    (let e = ban_charge s (env_now env) (ban_points_connect (ban_cfg s)) (ip_key ip)
     in (now \<le> be_expires e \<and> IS_BANNED s e, ban_set e s))"
proof -
  let ?t = "ip_key ip"
  have t: "mk_inaddr (ia_ip ?t) (length ip) = ?t"
    by simp
  let ?e = "ban_charge s (env_now env) (ban_points_connect (ban_cfg s)) ?t"
  have add: "snd (add_ip_to_ban_list env (Some (ia_ip ?t)) (length ip) (ban_points_connect (ban_cfg s)) s)
      = ban_set ?e s"
    using add_ip_spec [OF assms(1,2,4), of "ia_ip ?t" env] assms(5) t by (simp add: Let_def)
  have inv: "ban_inv (ban_set ?e s)" using assms(1) by (simp add: ban_set_inv)
  have "Option.bind (ban_db (ban_set ?e s)) (htable_get (ban_entry_cmp ?t)) = ban_lookup (ban_set ?e s) ?t"
    using inv by (auto simp: ban_inv_def ban_get_eq ban_lookup_def)
  also have "\<dots> = Some ?e" using assms(1) by (simp add: ban_lookup_set)
  finally show ?thesis using assms(1-4) add
    by (auto simp: check_if_banned_def Let_def ban_inv_def IS_BANNED_def not_less)
qed

text \<open>
  C6 Ban enforcement.  Banning is enabled and an IPv4 or IPv6 address that is not an address of a
  local interface is banned with expiry time \<open>x\<close>.  Then after any sequence of calls on the ban
  list made no later than \<open>x\<close> (more points for any address, connection attempts, clean-ups before
  \<open>x\<close>, removals of other addresses) a connection from that address is refused at every time up to
  \<open>x\<close>, and neither the calls nor the connection have moved the expiry: polling the server neither
  lifts nor prolongs the ban.
\<close>

theorem ban_enforced_until_expiry:
  assumes "ban_inv s" "max_ban_score (ban_cfg s) \<noteq> 0"
    and "length ip = 4 \<or> length ip = 16" "\<not> if_address_test_local s addr"
    and "ban_active s (ip_key ip) x"
    and "list_all (ban_op_during x (ip_key ip)) ops"
    and "env_now env \<le> x" "now \<le> x"
  shows "fst (check_if_banned env now addr ip (ban_run ops s)) \<and>
         ban_active (snd (check_if_banned env now addr ip (ban_run ops s))) (ip_key ip) x"
proof -
  let ?s = "ban_run ops s"
  have st: "ban_cfg ?s = ban_cfg s" "if_addresses ?s = if_addresses s"
    using ban_run_static [of ops s] by (simp_all add: ban_static_def)
  have inv: "ban_inv ?s" and act: "ban_active ?s (ip_key ip) x"
    using assms by (simp_all add: ban_run_inv ban_run_active)
  then obtain e where e: "ban_lookup ?s (ip_key ip) = Some e" "IS_BANNED ?s e" "be_expires e = x"
    by (auto simp: ban_active_def)
  have "check_if_banned env now addr ip ?s =
      (let e = ban_charge ?s (env_now env) (ban_points_connect (ban_cfg ?s)) (ip_key ip)
       in (now \<le> be_expires e \<and> IS_BANNED ?s e, ban_set e ?s))"
    using assms e inv by (intro check_if_banned_spec) (auto simp: st if_address_test_local_def)
  then show ?thesis using ban_charge_banned [OF e(1,2), of "env_now env"] assms(7,8) e inv
    by (auto simp: Let_def ban_active_def ban_lookup_set)
qed

text \<open>
  C33 Ban expiry.  A connection made after the ban of its address has expired starts from a
  clean score: it is accepted whenever the points of a single connection do not reach the
  maximum, and the entry then holds exactly those points.
\<close>

theorem ban_lifted_after_expiry:
  assumes "ban_inv s" "max_ban_score (ban_cfg s) \<noteq> 0"
    and "length ip = 4 \<or> length ip = 16" "\<not> if_address_test_local s addr"
    and "ban_active s (ip_key ip) x" "x < env_now env"
    and "ban_points_connect (ban_cfg s) < max_ban_score (ban_cfg s)"
  shows "\<not> fst (check_if_banned env now addr ip s) \<and>
     map_option be_score (ban_lookup (snd (check_if_banned env now addr ip s)) (ip_key ip))
       = Some (ban_points_connect (ban_cfg s))"
proof -
  obtain e where e: "ban_lookup s (ip_key ip) = Some e" "IS_BANNED s e" "be_expires e = x"
    using assms by (auto simp: ban_active_def)
  let ?c = "ban_charge s (env_now env) (ban_points_connect (ban_cfg s)) (ip_key ip)"
  have "be_score ?c = ban_points_connect (ban_cfg s)"
    using e assms(6) by (auto simp: ban_charge_def ban_reset_def ban_bump_def Let_def word_gt_0)
  moreover have "check_if_banned env now addr ip s = (now \<le> be_expires ?c \<and> IS_BANNED s ?c, ban_set ?c s)"
    using check_if_banned_spec [OF assms(1,2,4,3)] e by (simp add: Let_def)
  ultimately show ?thesis using assms(1,7) by (simp add: IS_BANNED_def ban_lookup_set not_le)
qed

section \<open>Witnesses\<close>

definition ban_demo :: ban_server where
  "ban_demo = \<lparr>ban_db = Some [\<lparr>be_ip = mk_inaddr [192, 0, 2, 7] 4, be_score = 90,
                              be_last_reset = 100, be_expires = 400\<rparr>],
     ban_cfg = \<lparr>max_ban_score = 80, ban_time = 300, ban_reset_time = 1200, ban_points_connect = 1\<rparr>,
     if_addresses = [\<lparr>if_addr = SaIn [10, 0, 0, 1], if_netmask = SaIn [255, 0, 0, 0]\<rparr>]\<rparr>"

definition env_at :: "time_t \<Rightarrow> ban_env" where
  "env_at now = \<lparr>env_now = now, env_alloc = True, env_htadd = True\<rparr>"

lemma ban_demo_facts:
  "ban_inv ban_demo" "max_ban_score (ban_cfg ban_demo) = 80" "ban_points_connect (ban_cfg ban_demo) = 1"
  "\<not> if_address_test_local ban_demo (SaIn [192, 0, 2, 7])"
  "ban_active ban_demo (mk_inaddr [192, 0, 2, 7] (Suc (Suc (Suc (Suc 0))))) 400"
  "mk_inaddr [192, 0, 2, 8] 4 \<noteq> mk_inaddr [192, 0, 2, 7] (Suc (Suc (Suc (Suc 0))))"
  by (simp_all add: ban_demo_def ban_inv_def table_simps if_address_test_local_def test_local_ipv4_def
      bytes_and_def ban_active_def ban_lookup_def IS_BANNED_def)
    (simp_all add: mk_inaddr_def massage_ipv6_address_def)

theorem ban_enforced_until_expiry_witness:
  "fst (check_if_banned (env_at 400) 400 (SaIn [192, 0, 2, 7]) [192, 0, 2, 7]
     (ban_run [OpAdd (env_at 200) (Some [192, 0, 2, 7]) 4 10, OpCheck (env_at 300) 300 (SaIn [192, 0, 2, 7]) [192, 0, 2, 7],
               OpAddStr (env_at 301) (Some ''2001:db8::1'') 10, OpRemove (Some [192, 0, 2, 8]) 4,
               OpCleanup 399] ban_demo))"
  by (rule ban_enforced_until_expiry [where x = 400, THEN conjunct1])
    (simp_all add: ban_demo_facts env_at_def)

theorem ban_lifted_after_expiry_witness:
  "\<not> fst (check_if_banned (env_at 401) 401 (SaIn [192, 0, 2, 7]) [192, 0, 2, 7] ban_demo)"
  by (rule ban_lifted_after_expiry [where x = 400, THEN conjunct1])
    (simp_all add: ban_demo_facts env_at_def)

end
