(* ===== verification/Ip_Lease.thy ===== *)
theory Ip_Lease
  imports Hash_Table Ip_Util
begin

text \<open>
  The pool of client addresses (\<^verbatim>\<open>src/src/ip-lease.c\<close>, \<^verbatim>\<open>ip-lease.h\<close>).  Addresses are byte
  lists of length 4 or 16.  The SHA-1 digest, the random generator (indexed by the number of
  tries that are left), the answers to the pings, allocations and \<^verbatim>\<open>htable_add\<close> come from the
  environment.  The table of leases holds the registered ones; a lease with an explicit
  address has no database and is not registered.  The field \<open>il_dtor\<close> says that
  \<^verbatim>\<open>unref_ip_lease\<close> has been set as the destructor of the lease.
\<close>

section \<open>State\<close>

record ip_lease_st =
  il_sig :: bytes
  il_rip :: bytes
  il_lip :: bytes
  il_prefix :: nat
  il_db :: bool
  il_dtor :: bool

record net_cfg =
  nc_ipv4 :: "string option"
  nc_ipv4_netmask :: "string option"
  nc_ipv6 :: "string option"
  nc_ipv6_prefix :: nat
  nc_ipv6_subnet_prefix :: nat

record lease_proc =
  lp_ipv4 :: "ip_lease_st option"
  lp_ipv6 :: "ip_lease_st option"
  lp_config :: net_cfg
  lp_explicit_ipv4 :: "string option"
  lp_explicit_ipv6 :: "string option"
  lp_network :: net_cfg
  lp_ipv4_seed :: bytes

record lease_env =
  le_sha1 :: "bytes \<Rightarrow> bytes"
  le_rnd4 :: "nat \<Rightarrow> bytes option"
  le_rnd6 :: "nat \<Rightarrow> bytes option"
  le_ping4 :: "nat \<Rightarrow> bytes \<Rightarrow> int"
  le_ping6 :: "nat \<Rightarrow> bytes \<Rightarrow> int"
  le_alloc4 :: bool
  le_alloc6 :: bool
  le_htadd4 :: bool
  le_htadd6 :: bool

type_synonym lease_db = "ip_lease_st list"

abbreviation (input) MAX_IP_TRIES :: nat where "MAX_IP_TRIES \<equiv> 16"
abbreviation (input) FIXED_IPS :: nat where "FIXED_IPS \<equiv> 5"

section \<open>Operations\<close>

definition ip_from_seed :: "lease_env \<Rightarrow> bytes \<Rightarrow> nat \<Rightarrow> bytes" where
  "ip_from_seed env seed ip_size = take ip_size (le_sha1 env seed)"

definition ip_lease_cmp :: "bytes \<Rightarrow> ip_lease_st \<Rightarrow> bool" where
  "ip_lease_cmp sig c = (length (il_sig c) = length sig \<and> \<not> ip_cmp (il_sig c) sig)"

definition ip_lease_exists :: "lease_db \<Rightarrow> bytes \<Rightarrow> bool" where
  "ip_lease_exists db ip = (htable_get (ip_lease_cmp ip) db \<noteq> None)"

definition is_ipv6_ok :: "lease_db \<Rightarrow> bytes \<Rightarrow> bytes \<Rightarrow> bool" where
  "is_ipv6_ok db tun subnet =
     (if \<not> ip_cmp subnet tun then False else if ip_lease_exists db subnet then False else True)"

definition is_ipv4_p2p_mask :: "bytes \<Rightarrow> bool" where
  "is_ipv4_p2p_mask m = (m = [0xff, 0xff, 0xff, 0xfe])"

definition ipv4_broadcast :: "bytes \<Rightarrow> bytes \<Rightarrow> bytes" where
  "ipv4_broadcast net m = bytes_or net (bytes_not m)"

definition is_ipv4_ok :: "lease_db \<Rightarrow> bytes \<Rightarrow> bytes \<Rightarrow> bytes \<Rightarrow> bool" where
  "is_ipv4_ok db ip net m =
     (if ip_lease_exists db ip then False
      else if \<not> is_ipv4_p2p_mask m \<and> (\<not> ip_cmp ip net \<or> \<not> ip_cmp ip (ipv4_broadcast net m)) then False
      else True)"

text \<open>LIP = network address + 1, except for /31 networks.\<close>

definition ipv4_lip :: "bytes \<Rightarrow> bytes \<Rightarrow> bytes" where
  "ipv4_lip net m = (if is_ipv4_p2p_mask m then net else net[3 := or (net ! 3) 1])"

text \<open>The seed of a try: the session's seed, then a chain of digests, then random numbers.\<close>

definition ipv4_candidate :: "lease_env \<Rightarrow> bytes \<Rightarrow> nat \<Rightarrow> bytes \<Rightarrow> bytes option" where
  "ipv4_candidate env seed max_loops rnd =
     (if max_loops = MAX_IP_TRIES then Some (take 4 seed)
      else if max_loops < MAX_IP_TRIES - FIXED_IPS then le_rnd4 env max_loops
      else Some (ip_from_seed env rnd 4))"

fun ipv4_loop ::
  "lease_env \<Rightarrow> lease_db \<Rightarrow> bytes \<Rightarrow> bytes \<Rightarrow> bytes \<Rightarrow> nat \<Rightarrow> bytes \<Rightarrow> int + ip_lease_st" where
  "ipv4_loop env db net m seed 0 rnd = Inl ERR_NO_IP"
| "ipv4_loop env db net m seed (Suc n) rnd =
     (case ipv4_candidate env seed (Suc n) rnd of
        None \<Rightarrow> Inl ERR_NO_IP
      | Some c \<Rightarrow>
          let rnd' = bytes_or (bytes_and c (bytes_not m)) net; lip = ipv4_lip net m in
          if \<not> is_ipv4_ok db rnd' net m then ipv4_loop env db net m seed n rnd'
          else if lip = rnd' then ipv4_loop env db net m seed n rnd'
          else if le_ping4 env n rnd' = 0
          then Inr \<lparr>il_sig = rnd', il_rip = rnd', il_lip = lip, il_prefix = 0, il_db = True, il_dtor = False\<rparr>
          else ipv4_loop env db net m seed n rnd')"

definition select_net4 :: "lease_proc \<Rightarrow> string option \<times> string option" where
  "select_net4 p =
     (if nc_ipv4 (lp_config p) \<noteq> None \<and> nc_ipv4_netmask (lp_config p) \<noteq> None
      then (nc_ipv4 (lp_config p), nc_ipv4_netmask (lp_config p))
      else (nc_ipv4 (lp_network p), nc_ipv4_netmask (lp_network p)))"

text \<open>The return value and the lease the process is left with.\<close>

definition get_ipv4_lease :: "lease_env \<Rightarrow> lease_db \<Rightarrow> lease_proc \<Rightarrow> int \<times> ip_lease_st option" where
  "get_ipv4_lease env db p =
     (case select_net4 p of
        (Some c_network, Some c_netmask) \<Rightarrow>
          (case (inet_pton4 c_network, inet_pton4 c_netmask) of
             (Some network, Some m) \<Rightarrow>
               let net = bytes_and network m in
               (case lp_explicit_ipv4 p of
                  Some ex \<Rightarrow>
                    (case inet_pton4 ex of
                       None \<Rightarrow> (-1, None)
                     | Some rip \<Rightarrow>
                         if \<not> le_alloc4 env then (ERR_MEM, None)
                         else if \<not> is_ipv4_ok db rip net m then (ERR_NO_IP, None)
                         else if \<not> ip_cmp (ipv4_lip net m) rip then (ERR_NO_IP, None)
                         else (0, Some \<lparr>il_sig = rip, il_rip = rip, il_lip = ipv4_lip net m,
                                        il_prefix = 0, il_db = False, il_dtor = False\<rparr>))
                | None \<Rightarrow>
                    if \<not> le_alloc4 env then (ERR_MEM, None)
                    else (case ipv4_loop env db net m (lp_ipv4_seed p) MAX_IP_TRIES [0, 0, 0, 0] of
                            Inl err \<Rightarrow> (err, None)
                          | Inr l \<Rightarrow> (0, Some l)))
           | _ \<Rightarrow> (-1, None))
      | _ \<Rightarrow> (0, None))"

text \<open>
  The random bytes of an IPv6 try are written through the IPv4 accessor, four bytes before
  the address: the address receives the last twelve of them and keeps four zero bytes.
\<close>

definition ipv6_candidate :: "lease_env \<Rightarrow> bytes \<Rightarrow> nat \<Rightarrow> bytes option" where
  "ipv6_candidate env seed max_loops =
     (if max_loops = MAX_IP_TRIES then Some (ip_from_seed env (take 4 seed) 16)
      else if max_loops < MAX_IP_TRIES - FIXED_IPS
      then map_option (\<lambda>r. drop 4 r @ [0, 0, 0, 0]) (le_rnd6 env max_loops)
      else Some (ip_from_seed env (replicate 16 0) 16))"

text \<open>
  The prefix of the lease is still zero when it is compared with 128, so the disjunction
  that guards the ping is true.
\<close>

fun ipv6_loop ::
  "lease_env \<Rightarrow> lease_db \<Rightarrow> bytes \<Rightarrow> bytes \<Rightarrow> bytes \<Rightarrow> bytes \<Rightarrow> nat \<Rightarrow> int + ip_lease_st" where
  "ipv6_loop env db net m smask seed 0 = Inl ERR_NO_IP"
| "ipv6_loop env db net m smask seed (Suc n) =
     (case ipv6_candidate env seed (Suc n) of
        None \<Rightarrow> Inl ERR_NO_IP
      | Some c \<Rightarrow>
          let rnd = bytes_or (bytes_and c (bytes_not m)) net; sig = bytes_and rnd smask;
              l = \<lparr>il_sig = sig, il_rip = rnd, il_lip = net, il_prefix = 0, il_db = True, il_dtor = False\<rparr>
          in
          if \<not> is_ipv6_ok db net sig then ipv6_loop env db net m smask seed n
          else if il_prefix l \<noteq> 128 \<or> le_ping6 env n rnd = 0 then Inr l
          else ipv6_loop env db net m smask seed n)"

definition select_net6 :: "lease_proc \<Rightarrow> string option \<times> nat \<times> nat" where
  "select_net6 p =
     (let c = (if nc_ipv6 (lp_config p) \<noteq> None \<and> nc_ipv6_subnet_prefix (lp_config p) \<noteq> 0
               then lp_config p else lp_network p)
      in (nc_ipv6 c, nc_ipv6_prefix c, nc_ipv6_subnet_prefix c))"

definition get_ipv6_lease :: "lease_env \<Rightarrow> lease_db \<Rightarrow> lease_proc \<Rightarrow> int \<times> ip_lease_st option" where
  "get_ipv6_lease env db p =
     (case select_net6 p of (c_network, prefix, subnet_prefix) \<Rightarrow>
        if c_network = None \<or> prefix = 0 \<or> subnet_prefix = 0 then (0, None)
        else
          (case (ipv6_prefix_to_mask prefix, ipv6_prefix_to_mask subnet_prefix, inet_pton6 (the c_network)) of
             (Some m, Some smask, Some network) \<Rightarrow>
               let net = bytes_and network m in
               if \<not> le_alloc6 env then (ERR_MEM, None)
               else
                 (case lp_explicit_ipv6 p of
                    Some ex \<Rightarrow>
                      (case inet_pton6 ex of
                         None \<Rightarrow> (ERR_NO_IP, None)
                       | Some rip \<Rightarrow>
                           let sig = bytes_and rip smask in
                           if \<not> is_ipv6_ok db net sig then (ERR_NO_IP, None)
                           else (0, Some \<lparr>il_sig = sig, il_rip = rip, il_lip = net,
                                          il_prefix = subnet_prefix, il_db = False, il_dtor = False\<rparr>))
                  | None \<Rightarrow>
                      (case ipv6_loop env db net m smask (lp_ipv4_seed p) MAX_IP_TRIES of
                         Inl err \<Rightarrow> (err, None)
                       | Inr l \<Rightarrow> (0, Some (l\<lparr>il_prefix := subnet_prefix\<rparr>))))
           | _ \<Rightarrow> (-1, None)))"

definition unref_ip_lease :: "lease_db \<Rightarrow> ip_lease_st \<Rightarrow> lease_db" where
  "unref_ip_lease db l = (if il_db l then htable_del (\<lambda>c. il_sig c = il_sig l) db else db)"

text \<open>\<^verbatim>\<open>talloc_free\<close> of a lease runs the destructor, when one is set.\<close>

definition remove_ip_lease :: "lease_db \<Rightarrow> ip_lease_st \<Rightarrow> lease_db" where
  "remove_ip_lease db l = (if il_dtor l then unref_ip_lease db l else db)"

definition remove_ip_leases :: "lease_db \<Rightarrow> lease_proc \<Rightarrow> lease_db \<times> lease_proc" where
  "remove_ip_leases db p =
     (let db4 = (case lp_ipv4 p of None \<Rightarrow> db | Some l \<Rightarrow> remove_ip_lease db l);
          db6 = (case lp_ipv6 p of None \<Rightarrow> db4 | Some l \<Rightarrow> remove_ip_lease db4 l)
      in (db6, p\<lparr>lp_ipv4 := None, lp_ipv6 := None\<rparr>))"

text \<open>A new lease is registered when it has a database; the flag says whether that failed.\<close>

definition register_lease :: "bool \<Rightarrow> lease_db \<Rightarrow> ip_lease_st option \<Rightarrow> bool \<times> lease_db \<times> ip_lease_st option" where
  "register_lease htadd db lo =
     (case lo of
        None \<Rightarrow> (False, db, None)
      | Some l \<Rightarrow>
          if \<not> il_db l then (False, db, Some l)
          else if \<not> htadd then (True, db, Some l)
          else let l' = l\<lparr>il_dtor := True\<rparr> in (False, htable_add l' db, Some l'))"

text \<open>
  The two halves of \<^verbatim>\<open>get_ip_leases\<close> have the same form: a process that holds a lease keeps it,
  the result of the search is registered otherwise.
\<close>

definition obtain_lease ::
  "bool \<Rightarrow> int \<times> ip_lease_st option \<Rightarrow> lease_db \<Rightarrow> ip_lease_st option \<Rightarrow> int \<times> lease_db \<times> ip_lease_st option" where
  "obtain_lease htadd search db cur =
     (if cur \<noteq> None then (0, db, cur)
      else if fst search < 0 then (fst search, db, snd search)
      else (case register_lease htadd db (snd search) of
              (failed, db', lo) \<Rightarrow> (if failed then -1 else 0, db', lo)))"

definition get_ip_leases :: "lease_env \<Rightarrow> lease_db \<Rightarrow> lease_proc \<Rightarrow> int \<times> lease_db \<times> lease_proc" where
  "get_ip_leases env db p =
     (case obtain_lease (le_htadd4 env) (get_ipv4_lease env db p) db (lp_ipv4 p) of
        (ret4, db4, l4) \<Rightarrow>
          let p4 = p\<lparr>lp_ipv4 := l4\<rparr> in
          if ret4 < 0 then (ret4, db4, p4)
          else
            (case obtain_lease (le_htadd6 env) (get_ipv6_lease env db4 p4) db4 (lp_ipv6 p4) of
               (ret6, db6, l6) \<Rightarrow>
                 let p6 = p4\<lparr>lp_ipv6 := l6\<rparr> in
                 if ret6 < 0 then (ret6, db6, p6)
                 else if lp_ipv4 p6 = None \<and> lp_ipv6 p6 = None then (-1, db6, p6)
                 else (0, db6, p6)))"

text \<open>
  The copies that stay with the old process are zeroed but for the addresses, so that they
  have no database and no destructor.  The two flags are the results of the allocations.
\<close>

definition lease_copy :: "ip_lease_st \<Rightarrow> nat \<Rightarrow> ip_lease_st" where
  "lease_copy l prefix =
     \<lparr>il_sig = il_sig l, il_rip = il_rip l, il_lip = il_lip l, il_prefix = prefix, il_db = False, il_dtor = False\<rparr>"

definition steal_ip_leases :: "bool \<Rightarrow> bool \<Rightarrow> lease_proc \<Rightarrow> lease_proc \<Rightarrow> lease_proc \<times> lease_proc" where
  "steal_ip_leases alloc4 alloc6 p thief =
     (p\<lparr>lp_ipv4 := (case lp_ipv4 p of None \<Rightarrow> None
                    | Some l \<Rightarrow> if alloc4 then Some (lease_copy l 0) else None),
        lp_ipv6 := (case lp_ipv6 p of None \<Rightarrow> None
                    | Some l \<Rightarrow> if alloc6 then Some (lease_copy l (il_prefix l)) else None)\<rparr>,
      thief\<lparr>lp_ipv4 := lp_ipv4 p, lp_ipv6 := lp_ipv6 p\<rparr>)"

definition ip_lease_init :: lease_db where
  "ip_lease_init = []"

section \<open>The pool and its clients\<close>

text \<open>
  The processes of the main server by their index.  A process enters without leases; leases
  are stolen by a process that has none (\<^verbatim>\<open>main-auth.c\<close> calls \<^verbatim>\<open>steal_ip_leases\<close> for a new
  process, before \<^verbatim>\<open>get_ip_leases\<close>), and are freed with their process; an IPv6 lease also
  when \<^verbatim>\<open>tun.c\<close> cannot set the address.
\<close>

record lease_world =
  lw_db :: lease_db
  lw_procs :: "nat \<Rightarrow> lease_proc option"

datatype lease_op =
    L_New nat lease_proc
  | L_Get nat lease_env
  | L_Steal nat nat bool bool
  | L_Drop6 nat
  | L_Remove nat

fun lease_step :: "lease_op \<Rightarrow> lease_world \<Rightarrow> lease_world" where
  "lease_step (L_New i p) w =
     (if lw_procs w i = None
      then w\<lparr>lw_procs := (lw_procs w)(i \<mapsto> p\<lparr>lp_ipv4 := None, lp_ipv6 := None\<rparr>)\<rparr> else w)"
| "lease_step (L_Get i env) w =
     (case lw_procs w i of
        None \<Rightarrow> w
      | Some p \<Rightarrow>
          (case get_ip_leases env (lw_db w) p of
             (ret, db, p') \<Rightarrow> w\<lparr>lw_db := db, lw_procs := (lw_procs w)(i \<mapsto> p')\<rparr>))"
| "lease_step (L_Steal i j a4 a6) w =
     (case (lw_procs w i, lw_procs w j) of
        (Some p, Some q) \<Rightarrow>
          if i \<noteq> j \<and> lp_ipv4 q = None \<and> lp_ipv6 q = None
          then (case steal_ip_leases a4 a6 p q of
                  (p', q') \<Rightarrow> w\<lparr>lw_procs := (lw_procs w)(i \<mapsto> p', j \<mapsto> q')\<rparr>)
          else w
      | _ \<Rightarrow> w)"
| "lease_step (L_Drop6 i) w =
     (case lw_procs w i of
        None \<Rightarrow> w
      | Some p \<Rightarrow>
          (case lp_ipv6 p of
             None \<Rightarrow> w
           | Some l \<Rightarrow> w\<lparr>lw_db := remove_ip_lease (lw_db w) l,
                         lw_procs := (lw_procs w)(i \<mapsto> p\<lparr>lp_ipv6 := None\<rparr>)\<rparr>))"
| "lease_step (L_Remove i) w =
     (case lw_procs w i of
        None \<Rightarrow> w
      | Some p \<Rightarrow>
          (case remove_ip_leases (lw_db w) p of
             (db, p') \<Rightarrow> w\<lparr>lw_db := db, lw_procs := (lw_procs w)(i := None)\<rparr>))"

definition lease_exec :: "lease_op list \<Rightarrow> lease_world \<Rightarrow> lease_world" where
  "lease_exec ops w = fold lease_step ops w"

definition lease_world_init :: lease_world where
  "lease_world_init = \<lparr>lw_db = ip_lease_init, lw_procs = Map.empty\<rparr>"

section \<open>The table of leases\<close>

interpretation leases: keyed_table il_sig "tbl_get il_sig" htable_add "tbl_store il_sig" "tbl_del il_sig"
  htable_purge set "tbl_ok il_sig"
  by (rule list_keyed_table)

lemma ip_lease_exists_iff: "ip_lease_exists db ip \<longleftrightarrow> tbl_get il_sig ip db \<noteq> None"
proof -
  have "ip_lease_cmp ip = (\<lambda>c. il_sig c = ip)"
    by (auto simp: ip_lease_cmp_def ip_cmp_def fun_eq_iff)
  then show ?thesis by (simp add: ip_lease_exists_def tbl_get_def)
qed

lemma is_ipv4_okD:
  "is_ipv4_ok db ip net m \<Longrightarrow> tbl_get il_sig ip db = None
    \<and> (\<not> is_ipv4_p2p_mask m \<longrightarrow> ip \<noteq> net \<and> ip \<noteq> ipv4_broadcast net m)"
  by (auto simp: is_ipv4_ok_def ip_lease_exists_iff ip_cmp_def split: if_splits)

lemma is_ipv6_okD: "is_ipv6_ok db tun sig \<Longrightarrow> tbl_get il_sig sig db = None \<and> sig \<noteq> tun"
  by (auto simp: is_ipv6_ok_def ip_lease_exists_iff ip_cmp_def split: if_splits)

text \<open>What the search of an IPv4 address returns.\<close>

lemma ipv4_loop_result:
  "ipv4_loop env db net m seed n rnd = Inr l \<Longrightarrow>
     \<exists>k c r. k < n \<and> ipv4_candidate env seed (Suc k) r = Some c \<and>
       l = \<lparr>il_sig = bytes_or (bytes_and c (bytes_not m)) net, il_rip = bytes_or (bytes_and c (bytes_not m)) net,
            il_lip = ipv4_lip net m, il_prefix = 0, il_db = True, il_dtor = False\<rparr> \<and>
       is_ipv4_ok db (il_rip l) net m \<and> il_lip l \<noteq> il_rip l \<and> le_ping4 env k (il_rip l) = 0"
proof (induction n arbitrary: rnd)
  case (Suc n)
  then obtain c where c: "ipv4_candidate env seed (Suc n) rnd = Some c" by (auto split: option.splits)
  define r where "r = bytes_or (bytes_and c (bytes_not m)) net"
  show ?case
  proof (cases "is_ipv4_ok db r net m \<and> ipv4_lip net m \<noteq> r \<and> le_ping4 env n r = 0")
    case True
    with Suc.prems c show ?thesis by (auto simp: r_def Let_def intro!: exI [of _ n])
  next
    case False
    with Suc.prems c have "ipv4_loop env db net m seed n r = Inr l"
      by (auto simp: r_def Let_def split: if_splits)
    from Suc.IH [OF this] show ?thesis using less_SucI by blast
  qed
qed simp

lemma ipv4_loop_error: "ipv4_loop env db net m seed n rnd = Inl e \<Longrightarrow> e = ERR_NO_IP"
  by (induction n arbitrary: rnd) (auto simp: Let_def split: option.splits if_splits)

lemma ipv6_loop_result:
  "ipv6_loop env db net m smask seed n = Inr l \<Longrightarrow>
     \<exists>k c. k < n \<and> ipv6_candidate env seed (Suc k) = Some c \<and>
       l = \<lparr>il_sig = bytes_and (bytes_or (bytes_and c (bytes_not m)) net) smask,
            il_rip = bytes_or (bytes_and c (bytes_not m)) net,
            il_lip = net, il_prefix = 0, il_db = True, il_dtor = False\<rparr> \<and>
       is_ipv6_ok db net (il_sig l)"
proof (induction n)
  case (Suc n)
  then obtain c where c: "ipv6_candidate env seed (Suc n) = Some c" by (auto split: option.splits)
  show ?case
  proof (cases "is_ipv6_ok db net (bytes_and (bytes_or (bytes_and c (bytes_not m)) net) smask)")
    case True
    with Suc.prems c show ?thesis by (auto simp: Let_def intro!: exI [of _ n])
  next
    case False
    with Suc.prems c have "ipv6_loop env db net m smask seed n = Inr l" by (auto simp: Let_def)
    from Suc.IH [OF this] show ?thesis using less_SucI by blast
  qed
qed simp

lemma ipv6_loop_error: "ipv6_loop env db net m smask seed n = Inl e \<Longrightarrow> e = ERR_NO_IP"
  by (induction n) (auto simp: Let_def split: option.splits if_splits)

text \<open>Either search leaves a lease exactly when it returns zero with one, and it is a new one.\<close>

definition fresh_lease :: "lease_db \<Rightarrow> ip_lease_st \<Rightarrow> bool" where
  "fresh_lease db l = (\<not> il_dtor l \<and> tbl_get il_sig (il_sig l) db = None)"

lemma get_ipv4_lease_fresh:
  assumes "get_ipv4_lease env db p = (r, Some l)"
  shows "r = 0 \<and> fresh_lease db l"
  using assms unfolding get_ipv4_lease_def
  by (auto simp: fresh_lease_def Let_def split: option.splits prod.splits if_splits sum.splits
      dest!: is_ipv4_okD ipv4_loop_result)

lemma get_ipv6_lease_fresh:
  assumes "get_ipv6_lease env db p = (r, Some l)"
  shows "r = 0 \<and> fresh_lease db l"
  using assms unfolding get_ipv6_lease_def
  by (auto simp: fresh_lease_def Let_def split: option.splits prod.splits if_splits sum.splits
      dest!: is_ipv6_okD ipv6_loop_result)

section \<open>Ownership\<close>

definition slot :: "lease_world \<Rightarrow> nat \<times> bool \<Rightarrow> ip_lease_st option" where
  "slot w k =
     (case lw_procs w (fst k) of
        None \<Rightarrow> None
      | Some p \<Rightarrow>
          (case (if snd k then lp_ipv6 p else lp_ipv4 p) of
             None \<Rightarrow> None
           | Some l \<Rightarrow> if il_dtor l then Some l else None))"

definition own :: "lease_db \<Rightarrow> ('k \<Rightarrow> ip_lease_st option) \<Rightarrow> bool" where
  "own db sl = (tbl_ok il_sig db \<and> set db = ran sl \<and> inj_on sl (dom sl) \<and> (\<forall>l \<in> set db. il_db l))"

lemma own_add:
  assumes "own db sl" "sl k = None" "tbl_get il_sig (il_sig l) db = None" "il_db l"
  shows "own (htable_add l db) (sl(k \<mapsto> l))"
proof -
  have new: "l \<notin> ran sl"
    using assms(1,3) leases.get_None_iff [of db "il_sig l"] by (auto simp: own_def)
  have "inj_on (sl(k \<mapsto> l)) (dom (sl(k \<mapsto> l)))"
    using assms(1,2) new by (auto simp: own_def inj_on_def ran_def)
  then show ?thesis
    using assms leases.add_ok [of db l] by (auto simp: own_def leases.add_elems)
qed

lemma own_del:
  assumes "own db sl" "sl k = Some l"
  shows "own (tbl_del il_sig (il_sig l) db) (sl(k := None))"
proof -
  have ok: "tbl_ok il_sig db" "set db = ran sl" "inj_on sl (dom sl)" "\<forall>l \<in> set db. il_db l"
    using assms(1) by (auto simp: own_def)
  have l: "l \<in> set db" using ok assms(2) by (auto simp: ran_def)
  have "l' = l" if "l' \<in> set db" "il_sig l' = il_sig l" for l'
    using leases.elems_unique [OF ok(1) that(1) l that(2)] .
  moreover have "ran (sl(k := None)) = ran sl - {l}"
  proof (intro equalityI subsetI)
    fix x assume "x \<in> ran (sl(k := None))"
    then show "x \<in> ran sl - {l}"
      using ok(3) assms(2) by (auto simp: ran_def inj_on_def dom_def split: if_splits)
  next
    fix x assume "x \<in> ran sl - {l}"
    then obtain a where "sl a = Some x" "x \<noteq> l" by (auto simp: ran_def)
    then have "sl a = Some x" "a \<noteq> k" using assms(2) by auto
    then show "x \<in> ran (sl(k := None))" by (intro ranI [of _ a]) simp
  qed
  ultimately have "set (tbl_del il_sig (il_sig l) db) = ran (sl(k := None))"
    using ok(1,2) by (auto simp: leases.del_elems)
  moreover have "inj_on (sl(k := None)) (dom (sl(k := None)))"
    using ok(3) by (auto simp: inj_on_def)
  ultimately show ?thesis
    using ok leases.del_ok [OF ok(1)] by (auto simp: own_def leases.del_elems)
qed

lemma own_move:
  assumes "own db sl" "sl k' = None" "k \<noteq> k'"
  shows "own db (sl(k' := sl k, k := None))"
proof -
  have "ran (sl(k' := sl k, k := None)) = ran sl"
  proof (intro equalityI subsetI)
    fix l assume "l \<in> ran (sl(k' := sl k, k := None))"
    then show "l \<in> ran sl" using assms(2,3) by (auto simp: ran_def split: if_splits)
  next
    fix l assume "l \<in> ran sl"
    then obtain a where "sl a = Some l" by (auto simp: ran_def)
    then have "(sl(k' := sl k, k := None)) (if a = k then k' else a) = Some l"
      using assms(2,3) by auto
    then show "l \<in> ran (sl(k' := sl k, k := None))" by (rule ranI)
  qed
  moreover have "inj_on (sl(k' := sl k, k := None)) (dom (sl(k' := sl k, k := None)))"
    using assms unfolding own_def inj_on_def dom_def by (auto split: if_splits)
  ultimately show ?thesis using assms(1) by (auto simp: own_def)
qed

lemma own_remove:
  assumes "own db sl" "sl k = (if il_dtor l then Some l else None)"
  shows "own (remove_ip_lease db l) (sl(k := None))"
proof (cases "il_dtor l")
  case True
  then have "il_db l" using assms by (auto simp: own_def ran_def)
  then have "remove_ip_lease db l = tbl_del il_sig (il_sig l) db"
    using True by (simp add: remove_ip_lease_def unref_ip_lease_def tbl_del_def)
  with own_del [OF assms(1), of k l] True assms(2) show ?thesis by simp
next
  case False
  then have "sl(k := None) = sl" using assms(2) by auto
  with False assms(1) show ?thesis by (simp add: remove_ip_lease_def)
qed

text \<open>Registering the result of a search, for a slot that is empty.\<close>

definition dtor_only :: "ip_lease_st option \<Rightarrow> ip_lease_st option" where
  "dtor_only lo = (case lo of None \<Rightarrow> None | Some l \<Rightarrow> if il_dtor l then Some l else None)"

lemma own_register:
  assumes "own db sl" "sl k = None" "\<forall>l. lo = Some l \<longrightarrow> fresh_lease db l"
    and "register_lease htadd db lo = (f, db', lo')"
  shows "own db' (sl(k := dtor_only lo'))"
proof -
  have same: "sl(k := None) = sl" using assms(2) by auto
  show ?thesis
  proof (cases "\<exists>l. lo = Some l \<and> il_db l \<and> htadd")
    case True
    then obtain l where l: "lo = Some l" "il_db l" "htadd" by blast
    then have "db' = htable_add (l\<lparr>il_dtor := True\<rparr>) db" "lo' = Some (l\<lparr>il_dtor := True\<rparr>)"
      using assms(4) by (auto simp: register_lease_def Let_def)
    moreover have "own (htable_add (l\<lparr>il_dtor := True\<rparr>) db) (sl(k \<mapsto> l\<lparr>il_dtor := True\<rparr>))"
      using assms l by (intro own_add) (auto simp: fresh_lease_def)
    ultimately show ?thesis by (simp add: dtor_only_def)
  next
    case False
    then have "db' = db" "dtor_only lo' = None"
      using assms(3,4) by (auto simp: register_lease_def dtor_only_def fresh_lease_def Let_def split: option.splits if_splits)
    with same assms(1) show ?thesis by simp
  qed
qed

lemma slot_upd:
  "slot (w\<lparr>lw_db := db, lw_procs := (lw_procs w)(i \<mapsto> p)\<rparr>) =
     (slot w)((i, False) := dtor_only (lp_ipv4 p), (i, True) := dtor_only (lp_ipv6 p))"
  by (rule ext) (auto simp: slot_def dtor_only_def)

lemma slot_own: "lw_procs w i = Some p \<Longrightarrow>
    slot w (i, False) = dtor_only (lp_ipv4 p) \<and> slot w (i, True) = dtor_only (lp_ipv6 p)"
  by (simp add: slot_def dtor_only_def)

text \<open>Obtaining the leases, as two registrations on the slots of the process.\<close>

lemma own_obtain:
  assumes "own db sl" "sl k = dtor_only cur" "\<And>r l. search = (r, Some l) \<Longrightarrow> fresh_lease db l"
    and "obtain_lease htadd search db cur = (ret, db', lo)"
  shows "own db' (sl(k := dtor_only lo))"
proof (cases "cur = None \<and> \<not> fst search < 0")
  case True
  then obtain f where "register_lease htadd db (snd search) = (f, db', lo)"
    using assms(4) by (auto simp: obtain_lease_def split: prod.splits)
  then show ?thesis
    using True assms(2,3) by (intro own_register [OF assms(1)]) (auto simp: dtor_only_def prod_eq_iff)
next
  case False
  then have "db' = db" "dtor_only lo = dtor_only cur"
    using assms(3,4) by (cases search; auto simp: obtain_lease_def dtor_only_def fresh_lease_def
        split: if_splits option.splits)+
  moreover have "sl(k := dtor_only cur) = sl" using assms(2) by auto
  ultimately show ?thesis using assms(1) by simp
qed

lemma own_get_ip_leases:
  assumes "own db sl" "sl k = dtor_only (lp_ipv4 p)" "sl k' = dtor_only (lp_ipv6 p)" "k \<noteq> k'"
    and "get_ip_leases env db p = (ret, db', p')"
  shows "own db' (sl(k := dtor_only (lp_ipv4 p'), k' := dtor_only (lp_ipv6 p')))"
proof -
  obtain ra dba la where A: "obtain_lease (le_htadd4 env) (get_ipv4_lease env db p) db (lp_ipv4 p) = (ra, dba, la)"
    using prod_cases3 by blast
  have ownA: "own dba (sl(k := dtor_only la))"
    by (rule own_obtain [OF assms(1,2) _ A]) (auto dest: get_ipv4_lease_fresh)
  define pa where "pa = p\<lparr>lp_ipv4 := la\<rparr>"
  obtain rb dbb lb where B: "obtain_lease (le_htadd6 env) (get_ipv6_lease env dba pa) dba (lp_ipv6 pa) = (rb, dbb, lb)"
    using prod_cases3 by blast
  have ownB: "own dbb (sl(k := dtor_only la, k' := dtor_only lb))"
    by (rule own_obtain [OF ownA _ _ B]) (use assms(3,4) in \<open>auto simp: pa_def dest: get_ipv6_lease_fresh\<close>)
  have keep: "sl(k := dtor_only la, k' := dtor_only (lp_ipv6 p)) = sl(k := dtor_only la)"
    using assms(3,4) by (auto simp: fun_eq_iff)
  show ?thesis
  proof (cases "ra < 0")
    case True
    then show ?thesis using assms(5) A ownA keep by (auto simp: get_ip_leases_def Let_def)
  next
    case False
    then have "db' = dbb" "lp_ipv4 p' = la" "lp_ipv6 p' = lb"
      using assms(5) A B by (auto simp: get_ip_leases_def pa_def Let_def split: if_splits)
    with ownB show ?thesis by simp
  qed
qed

lemma slot_remove: "slot (w\<lparr>lw_db := db, lw_procs := (lw_procs w)(i := None)\<rparr>) =
    (slot w)((i, False) := None, (i, True) := None)"
  by (rule ext) (auto simp: slot_def)

lemma own_remove_ip_leases:
  assumes "own db sl" "sl k = dtor_only (lp_ipv4 p)" "sl k' = dtor_only (lp_ipv6 p)" "k \<noteq> k'"
  shows "own (fst (remove_ip_leases db p)) (sl(k := None, k' := None))"
proof -
  define dba where "dba = (case lp_ipv4 p of None \<Rightarrow> db | Some l \<Rightarrow> remove_ip_lease db l)"
  have none: "f k = None \<Longrightarrow> f(k := None) = f" for f :: "'a \<Rightarrow> ip_lease_st option" and k by auto
  have "own dba (sl(k := None))"
    using assms(1,2) own_remove [OF assms(1), of k]
    by (auto simp: dba_def dtor_only_def none split: option.splits)
  then have "own (case lp_ipv6 p of None \<Rightarrow> dba | Some l \<Rightarrow> remove_ip_lease dba l) (sl(k := None, k' := None))"
    using assms(3,4) own_remove [of dba "sl(k := None)" k']
    by (auto simp: dtor_only_def none split: option.splits)
  moreover have "fst (remove_ip_leases db p) = (case lp_ipv6 p of None \<Rightarrow> dba | Some l \<Rightarrow> remove_ip_lease dba l)"
    by (cases "lp_ipv4 p"; cases "lp_ipv6 p") (simp_all add: remove_ip_leases_def dba_def Let_def)
  ultimately show ?thesis by simp
qed

lemma slot_procs:
  "slot (w\<lparr>lw_procs := f\<rparr>) (x, b) =
     (case f x of None \<Rightarrow> None | Some p \<Rightarrow> dtor_only (if b then lp_ipv6 p else lp_ipv4 p))"
  by (auto simp: slot_def dtor_only_def split: option.splits)

lemma steal_slots:
  assumes "steal_ip_leases a a' p q = (p', q')"
  shows "dtor_only (lp_ipv4 p') = None \<and> dtor_only (lp_ipv6 p') = None
    \<and> lp_ipv4 q' = lp_ipv4 p \<and> lp_ipv6 q' = lp_ipv6 p"
  using assms by (auto simp: steal_ip_leases_def dtor_only_def lease_copy_def split: option.splits if_splits)

lemma slot_steal:
  assumes "lw_procs w i = Some p" "lw_procs w j = Some q" "i \<noteq> j" "steal_ip_leases a a' p q = (p', q')"
  shows "slot (w\<lparr>lw_procs := (lw_procs w)(i \<mapsto> p', j \<mapsto> q')\<rparr>) =
    (let sl = (slot w)((j, False) := slot w (i, False), (i, False) := None)
     in sl((j, True) := sl (i, True), (i, True) := None))" (is "?l = ?r")
proof (rule ext)
  fix k :: "nat \<times> bool"
  obtain x b where k: "k = (x, b)" by (metis surj_pair)
  consider "x = i" | "x = j" "x \<noteq> i" | "x \<noteq> i" "x \<noteq> j" by blast
  then show "?l k = ?r k"
  proof cases
    case 1
    then show ?thesis using assms(3) steal_slots [OF assms(4)] by (cases b) (simp_all add: k slot_procs)
  next
    case 2
    then show ?thesis
      using assms(3) steal_slots [OF assms(4)] slot_own [OF assms(1)] by (cases b) (simp_all add: k slot_procs)
  next
    case 3
    then show ?thesis by (simp add: k slot_def)
  qed
qed

abbreviation (input) world_ok :: "lease_world \<Rightarrow> bool" where
  "world_ok w \<equiv> own (lw_db w) (slot w)"

lemma own_steal:
  assumes "own db sl" "sl (j, False) = None" "sl (j, True) = None" "i \<noteq> j"
  shows "own db (let s = sl((j, False) := sl (i, False), (i, False) := None)
                 in s((j, True) := s (i, True), (i, True) := None))"
proof -
  have "own db (sl((j, False) := sl (i, False), (i, False) := None))"
    using assms by (intro own_move) auto
  then show ?thesis unfolding Let_def using assms by (intro own_move) auto
qed

lemma step_new_ok: "world_ok w \<Longrightarrow> world_ok (lease_step (L_New i p) w)"
proof -
  have "slot (w\<lparr>lw_procs := (lw_procs w)(i \<mapsto> p\<lparr>lp_ipv4 := None, lp_ipv6 := None\<rparr>)\<rparr>) = slot w"
    if "lw_procs w i = None"
    using that by (auto simp: fun_eq_iff slot_def)
  then show "world_ok w \<Longrightarrow> ?thesis" by simp
qed

lemma step_get_ok:
  assumes "world_ok w"
  shows "world_ok (lease_step (L_Get i env) w)"
proof (cases "lw_procs w i")
  case (Some p)
  obtain r db p' where g: "get_ip_leases env (lw_db w) p = (r, db, p')" using prod_cases3 by blast
  show ?thesis
    using own_get_ip_leases [OF assms _ _ _ g, of "(i, False)" "(i, True)"] slot_own [OF Some] Some g
    by (simp add: slot_upd)
qed (use assms in simp)

lemma step_steal_ok:
  assumes "world_ok w"
  shows "world_ok (lease_step (L_Steal i j a a') w)"
proof (cases "\<exists>p q. lw_procs w i = Some p \<and> lw_procs w j = Some q \<and> i \<noteq> j \<and> lp_ipv4 q = None \<and> lp_ipv6 q = None")
  case True
  then obtain p q where pq: "lw_procs w i = Some p" "lw_procs w j = Some q" "i \<noteq> j"
    "lp_ipv4 q = None" "lp_ipv6 q = None" by blast
  obtain p' q' where s: "steal_ip_leases a a' p q = (p', q')" by fastforce
  have "slot w (j, False) = None" "slot w (j, True) = None"
    using slot_own [OF pq(2)] pq(4,5) by (simp_all add: dtor_only_def)
  from own_steal [OF assms this pq(3)] show ?thesis
    using pq s slot_steal [OF pq(1-3) s] by simp
next
  case False
  then have "lease_step (L_Steal i j a a') w = w" by (auto split: option.splits)
  then show ?thesis using assms by simp
qed

lemma step_drop_ok:
  assumes "world_ok w"
  shows "world_ok (lease_step (L_Drop6 i) w)"
proof (cases "\<exists>p l. lw_procs w i = Some p \<and> lp_ipv6 p = Some l")
  case True
  then obtain p l where pl: "lw_procs w i = Some p" "lp_ipv6 p = Some l" by blast
  have "(slot w)((i, False) := dtor_only (lp_ipv4 p), (i, True) := None) = (slot w)((i, True) := None)"
    using slot_own [OF pl(1)] by auto
  moreover have "own (remove_ip_lease (lw_db w) l) ((slot w)((i, True) := None))"
    using slot_own [OF pl(1)] pl(2) by (intro own_remove [OF assms]) (simp add: dtor_only_def)
  moreover have "dtor_only None = None" by (simp add: dtor_only_def)
  ultimately show ?thesis using pl by (simp add: slot_upd)
next
  case False
  then have "lease_step (L_Drop6 i) w = w" by (auto split: option.splits)
  then show ?thesis using assms by simp
qed

lemma step_remove_ok:
  assumes "world_ok w"
  shows "world_ok (lease_step (L_Remove i) w)"
proof (cases "lw_procs w i")
  case (Some p)
  obtain db p' where r: "remove_ip_leases (lw_db w) p = (db, p')" by fastforce
  then show ?thesis
    using own_remove_ip_leases [OF assms, of "(i, False)" p "(i, True)"] slot_own [OF Some] Some
    by (simp add: slot_remove)
qed (use assms in simp)

lemma lease_step_ok: "world_ok w \<Longrightarrow> world_ok (lease_step op w)"
  using step_new_ok step_get_ok step_steal_ok step_drop_ok step_remove_ok by (cases op) simp_all

lemma lease_exec_ok: "world_ok w \<Longrightarrow> world_ok (lease_exec ops w)"
  unfolding lease_exec_def by (induction ops arbitrary: w) (auto simp: lease_step_ok)

lemma lease_world_init_ok: "world_ok lease_world_init"
  by (auto simp: own_def lease_world_init_def ip_lease_init_def tbl_ok_def slot_def ran_def inj_on_def)

lemma slots_differ:
  assumes ok: "world_ok w" and slots: "slot w k = Some l" "slot w k' = Some l'" "k \<noteq> k'"
  shows "il_sig l \<noteq> il_sig l'"
proof -
  have db: "l \<in> set (lw_db w)" "l' \<in> set (lw_db w)" "tbl_ok il_sig (lw_db w)"
    using ok slots(1,2) by (simp_all add: own_def) (metis ranI)+
  have "l \<noteq> l'"
  proof
    assume "l = l'"
    then have "slot w k = slot w k'" "k \<in> dom (slot w)" "k' \<in> dom (slot w)" using slots by (simp_all add: domI)
    moreover have "inj_on (slot w) (dom (slot w))" using ok by (simp add: own_def)
    ultimately show False using slots(3) by (auto dest: inj_onD)
  qed
  then show ?thesis using leases.elems_unique [OF db(3,1,2)] by blast
qed

text \<open>
  C10 No address is leased twice: after any sequence of processes that enter, obtain leases,
  steal the leases of another process, lose an IPv6 lease or end, the table of leases holds
  exactly the registered leases that are held, and two registered leases that are held in
  different places have different signatures (addresses for IPv4, subnets for IPv6).
\<close>

theorem leases_exclusive:
  assumes "w = lease_exec ops lease_world_init"
  shows "set (lw_db w) = ran (slot w) \<and>
    (\<forall>k k' l l'. slot w k = Some l \<and> slot w k' = Some l' \<and> k \<noteq> k' \<longrightarrow> il_sig l \<noteq> il_sig l')"
proof -
  have "world_ok w" unfolding assms by (intro lease_exec_ok lease_world_init_ok)
  then show ?thesis using slots_differ [of w] by (auto simp: own_def)
qed

section \<open>Addresses of the pool\<close>

definition lease_env_ok :: "lease_env \<Rightarrow> bool" where
  "lease_env_ok env =
     ((\<forall>x. length (le_sha1 env x) = 20) \<and> (\<forall>n r. le_rnd4 env n = Some r \<longrightarrow> length r = 4) \<and>
      (\<forall>n r. le_rnd6 env n = Some r \<longrightarrow> length r = 16))"

lemma ipv4_candidate_length:
  "lease_env_ok env \<Longrightarrow> length seed = 4 \<Longrightarrow> ipv4_candidate env seed k r = Some c \<Longrightarrow> length c = 4"
  by (auto simp: ipv4_candidate_def ip_from_seed_def lease_env_ok_def split: if_splits)

lemma ipv6_candidate_length:
  "lease_env_ok env \<Longrightarrow> ipv6_candidate env seed k = Some c \<Longrightarrow> length c = 16"
  by (auto simp: ipv6_candidate_def ip_from_seed_def lease_env_ok_def split: if_splits)

text \<open>
  C18 The IPv4 address that is chosen for a client without an explicit address lies in the
  configured network, is neither the address of the server in the tunnel nor (unless the
  network is a point-to-point /31) the network or the broadcast address, is not leased to
  another client, and did not answer a ping.
\<close>

theorem ipv4_lease_in_pool:
  assumes "get_ipv4_lease env db p = (0, Some l)" "lp_explicit_ipv4 p = None"
    and "select_net4 p = (Some c_network, Some c_netmask)"
    and "inet_pton4 c_network = Some network" "inet_pton4 c_netmask = Some m"
    and "lease_env_ok env" "length (lp_ipv4_seed p) = 4"
  shows "bytes_and (il_rip l) m = bytes_and network m
    \<and> il_rip l \<noteq> il_lip l
    \<and> (\<not> is_ipv4_p2p_mask m \<longrightarrow>
        il_rip l \<noteq> bytes_and network m \<and> il_rip l \<noteq> ipv4_broadcast (bytes_and network m) m)
    \<and> il_sig l = il_rip l \<and> \<not> ip_lease_exists db (il_rip l)
    \<and> (\<exists>k < 16. le_ping4 env k (il_rip l) = 0)"
proof -
  let ?net = "bytes_and network m"
  have "ipv4_loop env db ?net m (lp_ipv4_seed p) 16 [0, 0, 0, 0] = Inr l"
    using assms(1-5) by (auto simp: get_ipv4_lease_def Let_def split: sum.splits if_splits)
  from ipv4_loop_result [OF this] obtain k c r where
    k: "k < 16" "ipv4_candidate env (lp_ipv4_seed p) (Suc k) r = Some c" and
    l: "il_rip l = bytes_or (bytes_and c (bytes_not m)) ?net" "il_sig l = il_rip l"
      "il_lip l = ipv4_lip ?net m" and
    ok: "is_ipv4_ok db (il_rip l) ?net m" "il_lip l \<noteq> il_rip l" "le_ping4 env k (il_rip l) = 0"
    by force
  have "length c = 4" using ipv4_candidate_length [OF assms(6,7) k(2)] .
  then have "bytes_and (il_rip l) m = ?net"
    using assms(4,5) unfolding l(1) by (intro bytes_host_part [where n = 4]) (auto dest: inet_pton4_length)
  then show ?thesis
    using is_ipv4_okD [OF ok(1)] ok(2,3) l(2) k(1) by (auto simp: ip_lease_exists_iff)
qed

text \<open>
  C19 The IPv6 address that is chosen for a client without an explicit address lies in the
  configured network; the subnet of the client is the address under the subnet mask, it is
  not leased to another client and it is not the network of the server's own address.
\<close>

theorem ipv6_lease_in_pool:
  assumes "get_ipv6_lease env db p = (0, Some l)" "lp_explicit_ipv6 p = None"
    and "select_net6 p = (Some c_network, prefix, subnet_prefix)" "inet_pton6 c_network = Some network"
    and "ipv6_prefix_to_mask prefix = Some m" "ipv6_prefix_to_mask subnet_prefix = Some smask"
    and "lease_env_ok env"
  shows "bytes_and (il_rip l) m = bytes_and network m \<and> il_prefix l = subnet_prefix
    \<and> il_sig l = bytes_and (il_rip l) smask \<and> \<not> ip_lease_exists db (il_sig l) \<and> il_sig l \<noteq> il_lip l"
proof -
  let ?net = "bytes_and network m"
  have "prefix \<noteq> 0" "subnet_prefix \<noteq> 0" using assms(5,6) by (auto simp: ipv6_prefix_to_mask_def split: if_splits)
  then obtain l0 where "ipv6_loop env db ?net m smask (lp_ipv4_seed p) 16 = Inr l0"
    and l0: "l = l0\<lparr>il_prefix := subnet_prefix\<rparr>"
    using assms(1-6) by (auto simp: get_ipv6_lease_def Let_def split: sum.splits if_splits)
  from ipv6_loop_result [OF this(1)] obtain k c where
    k: "ipv6_candidate env (lp_ipv4_seed p) (Suc k) = Some c" and
    l: "il_rip l0 = bytes_or (bytes_and c (bytes_not m)) ?net" "il_sig l0 = bytes_and (il_rip l0) smask"
      "il_lip l0 = ?net" and
    ok: "is_ipv6_ok db ?net (il_sig l0)"
    by force
  have "length c = 16" using ipv6_candidate_length [OF assms(7) k] .
  then have "bytes_and (il_rip l0) m = ?net"
    using assms(4) ipv6_prefix_to_mask_bits [OF assms(5)] unfolding l(1)
    by (intro bytes_host_part [where n = 16]) (auto dest: inet_pton6_length)
  then show ?thesis
    using is_ipv6_okD [OF ok] l l0 by (auto simp: ip_lease_exists_iff)
qed

section \<open>Small IPv6 pools\<close>

text \<open>The random bytes do not reach the last four bytes of the address.\<close>

lemma ipv6_random_host_part:
  assumes "ipv6_prefix_to_mask prefix = Some m" "96 \<le> prefix" "length r = 16" "length net = 16"
  shows "bytes_or (bytes_and (drop 4 r @ [0, 0, 0, 0]) (bytes_not m)) net = net"
proof (rule nth_equalityI)
  note bits = ipv6_prefix_to_mask_bits [OF assms(1)]
  show "length (bytes_or (bytes_and (drop 4 r @ [0, 0, 0, 0]) (bytes_not m)) net) = length net"
    using assms bits by simp
  fix i assume "i < length (bytes_or (bytes_and (drop 4 r @ [0, 0, 0, 0]) (bytes_not m)) net)"
  then have i: "i < 16" using assms bits by simp
  have "and ((drop 4 r @ [0, 0, 0, 0]) ! i) (not (m ! i)) = (0 :: u8)"
  proof (cases "i < 12")
    case True
    have "bit (m ! i) n" if "n < 8" for n using bits i True that assms(2) by auto
    then show ?thesis by (intro bit_eqI) (auto simp: bit_simps)
  next
    case False
    then have "(drop 4 r @ [0, 0, 0, 0]) ! i = ([0, 0, 0, 0] :: bytes) ! (i - 12)"
      using assms(3) by (simp add: nth_append)
    moreover have "i - 12 < 4" using i False by simp
    then have "([0, 0, 0, 0] :: bytes) ! (i - 12) = 0"
      by (auto simp: less_Suc_eq numeral_eq_Suc)
    ultimately show ?thesis by simp
  qed
  then show "bytes_or (bytes_and (drop 4 r @ [0, 0, 0, 0]) (bytes_not m)) net ! i = net ! i"
    using i assms bits by simp
qed

lemma ipv6_loop_skip:
  "ipv6_candidate env seed (Suc n) = Some c
    \<Longrightarrow> \<not> is_ipv6_ok db net (bytes_and (bytes_or (bytes_and c (bytes_not m)) net) smask)
    \<Longrightarrow> ipv6_loop env db net m smask seed (Suc n) = ipv6_loop env db net m smask seed n"
  by (simp add: Let_def)

lemma ipv6_random_tries:
  assumes m: "ipv6_prefix_to_mask prefix = Some m" "96 \<le> prefix"
    and s: "ipv6_prefix_to_mask sp = Some smask" "prefix \<le> sp"
    and net: "length network = 16" "net = bytes_and network m"
    and env: "lease_env_ok env" and n: "n \<le> 10"
  shows "ipv6_loop env db net m smask seed n = Inl ERR_NO_IP"
  using n
proof (induction n)
  case (Suc n)
  show ?case
  proof (cases "le_rnd6 env (Suc n)")
    case None
    then show ?thesis using Suc.prems by (simp add: ipv6_candidate_def)
  next
    case (Some r)
    then have r: "length r = 16" using env by (auto simp: lease_env_ok_def)
    have c: "ipv6_candidate env seed (Suc n) = Some (drop 4 r @ [0, 0, 0, 0])"
      using Some Suc.prems by (simp add: ipv6_candidate_def)
    have "length net = 16" using net ipv6_prefix_to_mask_bits [OF m(1)] by simp
    then have "bytes_and (bytes_or (bytes_and (drop 4 r @ [0, 0, 0, 0]) (bytes_not m)) net) smask = net"
      using ipv6_random_host_part [OF m r] ipv6_prefix_mono [OF m(1) s, of network] net(2) by simp
    then have "\<not> is_ipv6_ok db net (bytes_and (bytes_or (bytes_and (drop 4 r @ [0, 0, 0, 0]) (bytes_not m)) net) smask)"
      by (simp add: is_ipv6_ok_def ip_cmp_def)
    from ipv6_loop_skip [OF c this] Suc show ?thesis by simp
  qed
qed simp

definition ipv6_subnet_of :: "bytes \<Rightarrow> bytes \<Rightarrow> bytes \<Rightarrow> bytes \<Rightarrow> bytes" where
  "ipv6_subnet_of digest m net smask =
     bytes_and (bytes_or (bytes_and (take 16 digest) (bytes_not m)) net) smask"

lemma ipv6_fixed_tries:
  assumes "ip_lease_exists db (ipv6_subnet_of (le_sha1 env (replicate 16 0)) m net smask)" "n \<le> 5"
  shows "ipv6_loop env db net m smask seed (10 + n) = ipv6_loop env db net m smask seed 10"
  using assms(2)
proof (induction n)
  case (Suc n)
  have "ipv6_candidate env seed (Suc (10 + n)) = Some (take 16 (le_sha1 env (replicate 16 0)))"
    using Suc.prems by (simp add: ipv6_candidate_def ip_from_seed_def)
  from ipv6_loop_skip [OF this, of db net m smask] assms(1) Suc show ?case
    by (simp add: is_ipv6_ok_def ipv6_subnet_of_def del: ipv6_loop.simps)
qed simp

text \<open>
  C31 In an IPv6 network of prefix 96 or more the pool is exhausted for a client as soon as two
  subnets are leased, the one of the digest of its seed and the one of the digest of zeros:
  whatever the random generator returns, the client gets no address.
\<close>

theorem ipv6_small_pool_exhausted:
  assumes "select_net6 p = (Some c_network, prefix, sp)" "lp_explicit_ipv6 p = None" "le_alloc6 env"
    and m: "ipv6_prefix_to_mask prefix = Some m" "96 \<le> prefix"
    and s: "ipv6_prefix_to_mask sp = Some smask" "prefix \<le> sp"
    and net: "inet_pton6 c_network = Some network" "net = bytes_and network m"
    and env: "lease_env_ok env"
    and first: "ip_lease_exists db (ipv6_subnet_of (le_sha1 env (take 4 (lp_ipv4_seed p))) m net smask)"
    and rest: "ip_lease_exists db (ipv6_subnet_of (le_sha1 env (replicate 16 0)) m net smask)"
  shows "get_ipv6_lease env db p = (ERR_NO_IP, None)"
proof -
  let ?loop = "ipv6_loop env db net m smask (lp_ipv4_seed p)"
  have "ipv6_candidate env (lp_ipv4_seed p) (Suc 15) = Some (take 16 (le_sha1 env (take 4 (lp_ipv4_seed p))))"
    by (simp add: ipv6_candidate_def ip_from_seed_def)
  from ipv6_loop_skip [OF this, of db net m smask] first have "?loop 16 = ?loop 15"
    by (simp add: is_ipv6_ok_def ipv6_subnet_of_def del: ipv6_loop.simps)
  also have "\<dots> = ?loop 10" using ipv6_fixed_tries [OF rest, of 5] by simp
  also have "\<dots> = Inl ERR_NO_IP"
    using ipv6_random_tries [OF m s _ net(2) env] inet_pton6_length [OF net(1)] by blast
  finally have "?loop 16 = Inl ERR_NO_IP" .
  moreover have "prefix \<noteq> 0" "sp \<noteq> 0" using m s by auto
  ultimately show ?thesis using assms(1-3) m s net by (simp add: get_ipv6_lease_def)
qed

section \<open>Examples\<close>

text \<open>A digest that adds up its input, pings that are never answered, and three clients.\<close>

definition demo_lease_env :: lease_env where
  "demo_lease_env =
     \<lparr>le_sha1 = (\<lambda>x. replicate 20 (sum_list x + 7)), le_rnd4 = (\<lambda>n. Some [1, 2, 3, of_nat n]),
      le_rnd6 = (\<lambda>n. Some (replicate 16 (of_nat n))), le_ping4 = (\<lambda>n a. 0), le_ping6 = (\<lambda>n a. 0),
      le_alloc4 = True, le_alloc6 = True, le_htadd4 = True, le_htadd6 = True\<rparr>"

definition demo_net :: net_cfg where
  "demo_net = \<lparr>nc_ipv4 = Some ''10.1.2.9'', nc_ipv4_netmask = Some ''255.255.255.0'',
               nc_ipv6 = Some ''2::'', nc_ipv6_prefix = 112, nc_ipv6_subnet_prefix = 128\<rparr>"

definition demo_lease_proc :: lease_proc where
  "demo_lease_proc =
     \<lparr>lp_ipv4 = None, lp_ipv6 = None,
      lp_config = \<lparr>nc_ipv4 = None, nc_ipv4_netmask = None, nc_ipv6 = None, nc_ipv6_prefix = 0,
                   nc_ipv6_subnet_prefix = 0\<rparr>,
      lp_explicit_ipv4 = None, lp_explicit_ipv6 = None, lp_network = demo_net, lp_ipv4_seed = [1, 1, 1, 5]\<rparr>"

definition demo_lease_ops :: "lease_op list" where
  "demo_lease_ops =
     [L_New 0 demo_lease_proc, L_Get 0 demo_lease_env, L_New 1 demo_lease_proc, L_Get 1 demo_lease_env,
      L_New 2 demo_lease_proc, L_Steal 0 2 True True]"

lemma demo_lease_env_ok: "lease_env_ok demo_lease_env"
  by (simp add: lease_env_ok_def demo_lease_env_def)

abbreviation (input) demo_world :: lease_world where
  "demo_world \<equiv> lease_exec demo_lease_ops lease_world_init"

lemma demo_slots:
  "map_option il_rip (slot demo_world (2, False)) = Some [10, 1, 2, 5]"
  "map_option il_rip (slot demo_world (1, False)) = Some [10, 1, 2, 25]"
  by code_simp+

theorem leases_exclusive_witness:
  "\<exists>l l'. slot demo_world (2, False) = Some l \<and> slot demo_world (1, False) = Some l'
     \<and> il_sig l \<noteq> il_sig l' \<and> set (lw_db demo_world) = ran (slot demo_world)"
proof -
  obtain l l' where l: "slot demo_world (2, False) = Some l" "slot demo_world (1, False) = Some l'"
    using demo_slots by (auto simp: map_option_eq_Some)
  have db: "set (lw_db demo_world) = ran (slot demo_world)"
    and all: "\<forall>k k' l l'. slot demo_world k = Some l \<and> slot demo_world k' = Some l' \<and> k \<noteq> k' \<longrightarrow> il_sig l \<noteq> il_sig l'"
    using leases_exclusive [OF refl, of demo_lease_ops] by blast+
  have "il_sig l \<noteq> il_sig l'" by (rule all [rule_format, of "(2, False)" l "(1, False)" l']) (use l in simp)
  then show ?thesis using l db by blast
qed

definition demo_lease4 :: ip_lease_st where
  "demo_lease4 = \<lparr>il_sig = [10, 1, 2, 5], il_rip = [10, 1, 2, 5], il_lip = [10, 1, 2, 1], il_prefix = 0,
                  il_db = True, il_dtor = False\<rparr>"

definition demo_lease6 :: "u8 \<Rightarrow> ip_lease_st" where
  "demo_lease6 b =
     \<lparr>il_sig = [0, 2] @ replicate 12 0 @ [b, b], il_rip = [0, 2] @ replicate 12 0 @ [b, b],
      il_lip = [0, 2] @ replicate 14 0, il_prefix = 128, il_db = True, il_dtor = False\<rparr>"

definition demo_mask6 :: bytes where
  "demo_mask6 = replicate 14 255 @ [0, 0]"

lemma demo_lease_facts:
  "get_ipv4_lease demo_lease_env [] demo_lease_proc = (0, Some demo_lease4)"
  "get_ipv6_lease demo_lease_env [] demo_lease_proc = (0, Some (demo_lease6 15))"
  "select_net4 demo_lease_proc = (Some ''10.1.2.9'', Some ''255.255.255.0'')"
  "select_net6 demo_lease_proc = (Some ''2::'', 112, 128)"
  "inet_pton4 ''10.1.2.9'' = Some [10, 1, 2, 9]" "inet_pton4 ''255.255.255.0'' = Some [255, 255, 255, 0]"
  "inet_pton6 ''2::'' = Some ([0, 2] @ replicate 14 0)"
  "ipv6_prefix_to_mask 112 = Some demo_mask6" "ipv6_prefix_to_mask 128 = Some (replicate 16 255)"
  by code_simp+

lemma demo_lease_proc_simps:
  "lp_explicit_ipv4 demo_lease_proc = None" "lp_explicit_ipv6 demo_lease_proc = None"
  "length (lp_ipv4_seed demo_lease_proc) = 4" "le_alloc6 demo_lease_env"
  by (simp_all add: demo_lease_proc_def demo_lease_env_def)

theorem ipv4_lease_in_pool_witness:
  "bytes_and (il_rip demo_lease4) [255, 255, 255, 0] = bytes_and [10, 1, 2, 9] [255, 255, 255, 0]
    \<and> il_rip demo_lease4 \<noteq> il_lip demo_lease4 \<and> \<not> ip_lease_exists [] (il_rip demo_lease4)"
  using ipv4_lease_in_pool [OF demo_lease_facts(1) demo_lease_proc_simps(1) demo_lease_facts(3,5,6)
      demo_lease_env_ok demo_lease_proc_simps(3)] by blast

theorem ipv6_lease_in_pool_witness:
  "bytes_and (il_rip (demo_lease6 15)) demo_mask6 = bytes_and ([0, 2] @ replicate 14 0) demo_mask6
    \<and> il_prefix (demo_lease6 15) = 128 \<and> il_sig (demo_lease6 15) \<noteq> il_lip (demo_lease6 15)"
  using ipv6_lease_in_pool [OF demo_lease_facts(2) demo_lease_proc_simps(2) demo_lease_facts(4,7,8,9)
      demo_lease_env_ok] by blast

lemma demo_pool_leased:
  "ip_lease_exists [demo_lease6 15, demo_lease6 7]
     (ipv6_subnet_of (le_sha1 demo_lease_env (take 4 (lp_ipv4_seed demo_lease_proc))) demo_mask6
        (bytes_and ([0, 2] @ replicate 14 0) demo_mask6) (replicate 16 255))"
  "ip_lease_exists [demo_lease6 15, demo_lease6 7]
     (ipv6_subnet_of (le_sha1 demo_lease_env (replicate 16 0)) demo_mask6
        (bytes_and ([0, 2] @ replicate 14 0) demo_mask6) (replicate 16 255))"
  by code_simp+

theorem ipv6_small_pool_exhausted_witness:
  "get_ipv6_lease demo_lease_env [demo_lease6 15, demo_lease6 7] demo_lease_proc = (ERR_NO_IP, None)"
  by (rule ipv6_small_pool_exhausted [OF demo_lease_facts(4) demo_lease_proc_simps(2,4) demo_lease_facts(8) _
        demo_lease_facts(9) _ demo_lease_facts(7) refl demo_lease_env_ok demo_pool_leased]) simp_all

end
