(* ===== verification/Str_Buf.thy ===== *)
theory Str_Buf
  imports Ocserv_Prelude "HOL-Library.Sublist"
begin

text \<open>
  The growing text buffer of the server and the substitution of percent patterns in it
  (\<^verbatim>\<open>src/src/str.c\<close>, \<^verbatim>\<open>str.h\<close>).  The block of memory behind a buffer is a list of characters,
  \<open>st_data\<close> is the offset of the data in it.  A write outside the block and a loop that does
  not return are the value \<open>None\<close>.  Allocation is a function from the requested size to the
  new block, whose content is arbitrary; the bundled talloc library refuses every request of
  \<^verbatim>\<open>MAX_TALLOC_SIZE\<close> bytes and more.
\<close>

section \<open>State and operations\<close>

record str_st =
  st_allocd :: "string option"
  st_data :: nat
  st_max_length :: nat
  st_length :: nat

record str_env =
  se_alloc :: "nat \<Rightarrow> string option"
  se_memdup :: "string \<Rightarrow> string option"

abbreviation (input) MIN_CHUNK :: nat where "MIN_CHUNK \<equiv> 64"

text \<open>The limit of \<^verbatim>\<open>ccan/talloc/talloc.c\<close>, and the conversion of a \<^verbatim>\<open>size_t\<close> that is returned as \<^verbatim>\<open>int\<close>.\<close>

definition MAX_TALLOC_SIZE :: nat where "MAX_TALLOC_SIZE = 0x7FFFFFFF"

definition size_to_int :: "nat \<Rightarrow> int" where
  "size_to_int n = (let k = int n mod 2 ^ 32 in if k < 2 ^ 31 then k else k - 2 ^ 32)"

fun trim_trailing_rev :: "string \<Rightarrow> string" where
  "trim_trailing_rev [] = []"
| "trim_trailing_rev (c # r) = (if isspace c then trim_trailing_rev r else c # r)"

definition trim_trailing_whitespace :: "string \<Rightarrow> string" where
  "trim_trailing_whitespace s = rev (trim_trailing_rev (rev s))"

definition str_init :: str_st where
  "str_init = \<lparr>st_allocd = None, st_data = 0, st_max_length = 0, st_length = 0\<rparr>"

definition str_clear :: "str_st \<Rightarrow> str_st" where
  "str_clear s = (if st_allocd s = None then s else str_init)"

definition str_reset :: "str_st \<Rightarrow> str_st" where
  "str_reset s = s\<lparr>st_data := 0, st_length := 0\<rparr>"

text \<open>A write of \<open>d\<close> at an offset of a block.\<close>

definition mem_write :: "string \<Rightarrow> nat \<Rightarrow> string \<Rightarrow> string option" where
  "mem_write m off d =
     (if off + length d \<le> length m then Some (take off m @ d @ drop (off + length d) m) else None)"

definition mem_read :: "string \<Rightarrow> nat \<Rightarrow> nat \<Rightarrow> string" where
  "mem_read m off n = take n (drop off m)"

text \<open>\<^verbatim>\<open>talloc_realloc_size\<close> to a larger size keeps the old content.\<close>

definition talloc_realloc :: "str_env \<Rightarrow> string option \<Rightarrow> nat \<Rightarrow> string option" where
  "talloc_realloc env old n =
     (if n \<ge> MAX_TALLOC_SIZE then None
      else case se_alloc env n of
        None \<Rightarrow> None
      | Some b \<Rightarrow> (case old of None \<Rightarrow> Some b | Some m \<Rightarrow> Some (m @ drop (length m) b)))"

definition talloc_memdup :: "str_env \<Rightarrow> string \<Rightarrow> string option" where
  "talloc_memdup env d = (if length d \<ge> MAX_TALLOC_SIZE then None else se_memdup env d)"

text \<open>Moving the data to the start of the block.\<close>

definition str_memmove :: "str_st \<Rightarrow> str_st" where
  "str_memmove s =
     (case st_allocd s of
        None \<Rightarrow> s\<lparr>st_data := 0\<rparr>
      | Some m \<Rightarrow>
          (let d = mem_read m (st_data s) (st_length s) in
           s\<lparr>st_allocd := Some (d @ drop (length d) m), st_data := 0\<rparr>))"

definition str_append_size :: "str_env \<Rightarrow> str_st \<Rightarrow> nat \<Rightarrow> int \<times> str_st" where
  "str_append_size env dest data_size =
     (let tot_len = data_size + st_length dest in
      if data_size = 0 then (0, dest)
      else if st_max_length dest \<ge> tot_len + 1 then
        (if st_max_length dest - st_data dest \<le> tot_len then (size_to_int tot_len, str_memmove dest)
         else (size_to_int tot_len, dest))
      else
        let new_len = max data_size MIN_CHUNK + max (st_max_length dest) MIN_CHUNK in
        case talloc_realloc env (st_allocd dest) (new_len + 1) of
          None \<Rightarrow> (ERR_MEM, dest\<lparr>st_allocd := None\<rparr>)
        | Some m \<Rightarrow> (size_to_int tot_len, str_memmove (dest\<lparr>st_allocd := Some m, st_max_length := new_len\<rparr>)))"

definition str_append_data :: "str_env \<Rightarrow> str_st \<Rightarrow> string \<Rightarrow> (int \<times> str_st) option" where
  "str_append_data env dest data =
     (case str_append_size env dest (length data + 1) of
        (ret, s) \<Rightarrow>
          if ret < 0 then Some (ret, s)
          else
            (case st_allocd s of
               None \<Rightarrow> None
             | Some m \<Rightarrow>
                 (case mem_write m (st_data s + st_length s) data of
                    None \<Rightarrow> None
                  | Some m' \<Rightarrow>
                      (case mem_write m' (st_data s + (length data + st_length s)) [CHR 0x00] of
                         None \<Rightarrow> None
                       | Some m'' \<Rightarrow>
                           Some (0, s\<lparr>st_allocd := Some m'', st_length := length data + st_length s\<rparr>)))))"

definition str_append_data_prefix1 :: "str_env \<Rightarrow> str_st \<Rightarrow> string \<Rightarrow> (int \<times> str_st) option" where
  "str_append_data_prefix1 env dest data =
     (case str_append_data env dest [char_of (length data mod 256)] of
        None \<Rightarrow> None
      | Some (ret, s) \<Rightarrow> if ret \<ge> 0 then str_append_data env s data else Some (ret, s))"

text \<open>The argument of \<^verbatim>\<open>str_append_str\<close> is a C string or \<^verbatim>\<open>NULL\<close>; its terminator is copied too.\<close>

definition str_append_str :: "str_env \<Rightarrow> str_st \<Rightarrow> string option \<Rightarrow> (int \<times> str_st) option" where
  "str_append_str env dest src =
     (case src of
        None \<Rightarrow> Some (-1, dest)
      | Some t \<Rightarrow>
          (case str_append_data env dest (t @ [CHR 0x00]) of
             None \<Rightarrow> None
           | Some (ret, s) \<Rightarrow> Some (ret, if ret \<ge> 0 then s\<lparr>st_length := st_length s - 1\<rparr> else s)))"

text \<open>The text that \<^verbatim>\<open>vasprintf\<close> prepared, when it succeeded.\<close>

definition str_append_printf :: "str_env \<Rightarrow> str_st \<Rightarrow> string option \<Rightarrow> (int \<times> str_st) option" where
  "str_append_printf env dest formatted =
     (case formatted of None \<Rightarrow> Some (-1, dest) | Some t \<Rightarrow> str_append_str env dest (Some t))"

text \<open>
  An entry of a replacement table is a pattern with a value, or with the result of the
  replacement function (which may be \<^verbatim>\<open>NULL\<close>).  The first entry whose pattern starts the text is
  taken.
\<close>

datatype str_rep = RepVal string | RepFunc "string option"

type_synonym str_rep_tab = "(string \<times> str_rep) list"

fun rep_text :: "str_rep \<Rightarrow> string option" where
  "rep_text (RepVal v) = Some v"
| "rep_text (RepFunc r) = r"

fun find_rep :: "str_rep_tab \<Rightarrow> string \<Rightarrow> (string \<times> str_rep) option" where
  "find_rep [] txt = None"
| "find_rep ((pat, r) # tab) txt = (if prefix pat txt then Some (pat, r) else find_rep tab txt)"

definition str_content :: "str_st \<Rightarrow> string" where
  "str_content s = (case st_allocd s of None \<Rightarrow> [] | Some m \<Rightarrow> mem_read m (st_data s) (st_length s))"

text \<open>\<^verbatim>\<open>memchr\<close> for the percent sign from an offset on.\<close>

definition find_percent :: "string \<Rightarrow> nat \<Rightarrow> nat option" where
  "find_percent txt pos =
     (case strchr (drop pos txt) (CHR ''%'') of None \<Rightarrow> None | Some r \<Rightarrow> Some (length txt - length r))"

text \<open>
  One round of \<^verbatim>\<open>str_replace_str\<close>: \<open>Inr\<close> is the position and the buffer of the next round,
  \<open>Inl\<close> the returned value.  The terminator of a table is not tested before the first
  comparison: in an empty table it matches with its empty pattern, and its function pointer,
  which is \<^verbatim>\<open>NULL\<close>, is called.
\<close>

definition replace_round :: "str_env \<Rightarrow> str_rep_tab \<Rightarrow> nat \<Rightarrow> str_st \<Rightarrow> ((int \<times> str_st) + (nat \<times> str_st)) option" where
  "replace_round env tab start s =
     (case find_percent (str_content s) start of
        None \<Rightarrow> Some (Inl (0, s))
      | Some pos \<Rightarrow>
          if tab = [] then None
          else
          (case find_rep tab (drop pos (str_content s)) of
             None \<Rightarrow> Some (Inl (-1, s))
           | Some (pat, r) \<Rightarrow>
               (case talloc_memdup env (drop (pos + length pat) (str_content s)) of
                  None \<Rightarrow> Some (Inl (-1, s))
                | Some final \<Rightarrow>
                    (case str_append_str env (s\<lparr>st_length := pos\<rparr>) (rep_text r) of
                       None \<Rightarrow> None
                     | Some (ret, s') \<Rightarrow>
                         if ret < 0 then Some (Inl (ret, s'))
                         else
                           (case str_append_data env s' final of
                              None \<Rightarrow> None
                            | Some (ret', s'') \<Rightarrow>
                                if ret' < 0 then Some (Inl (ret', s''))
                                else if pos < st_length s'' then Some (Inr (pos, s''))
                                else Some (Inl (0, s'')))))))"

partial_function (option) replace_loop ::
  "str_env \<Rightarrow> str_rep_tab \<Rightarrow> nat \<Rightarrow> str_st \<Rightarrow> (int \<times> str_st) option" where
  "replace_loop env tab start s =
     (case replace_round env tab start s of
        None \<Rightarrow> None
      | Some (Inl r) \<Rightarrow> Some r
      | Some (Inr (pos, s')) \<Rightarrow> replace_loop env tab pos s')"

declare replace_loop.simps [code]

definition str_replace_str :: "str_env \<Rightarrow> str_st \<Rightarrow> str_rep_tab \<Rightarrow> (int \<times> str_st) option" where
  "str_replace_str env s tab = replace_loop env tab 0 s"

section \<open>The contract of a text buffer\<close>

locale text_buffer =
  fixes content :: "'s \<Rightarrow> string"
    and inv :: "'s \<Rightarrow> bool"
    and ok :: "'e \<Rightarrow> bool"
    and append :: "'e \<Rightarrow> 's \<Rightarrow> string \<Rightarrow> (int \<times> 's) option"
    and truncate :: "nat \<Rightarrow> 's \<Rightarrow> 's"
  assumes append_total: "ok e \<Longrightarrow> inv s \<Longrightarrow> \<exists>r. append e s d = Some r"
    and append_content: "ok e \<Longrightarrow> inv s \<Longrightarrow> append e s d = Some (ret, s') \<Longrightarrow> ret \<ge> 0
          \<Longrightarrow> inv s' \<and> content s' = content s @ d \<and> ret = 0"
    and truncate_content: "inv s \<Longrightarrow> n \<le> length (content s) \<Longrightarrow> inv (truncate n s) \<and> content (truncate n s) = take n (content s)"
begin

text \<open>A text of which a suffix is replaced.\<close>

lemma overwrite_content:
  assumes "ok e" "inv s" "n \<le> length (content s)"
    and "append e (truncate n s) d = Some (ret, s')" "ret \<ge> 0"
  shows "inv s' \<and> content s' = take n (content s) @ d"
  using append_content [OF assms(1) _ assms(4,5)] truncate_content [OF assms(2,3)] by simp

lemma append_twice:
  assumes "ok e" "inv s" "append e s d = Some (ret, s')" "ret \<ge> 0" "append e s' d' = Some (ret', s'')" "ret' \<ge> 0"
  shows "inv s'' \<and> content s'' = content s @ d @ d'"
  using append_content [OF assms(1-4)] append_content [OF assms(1) _ assms(5,6)] by simp

end

section \<open>The buffer satisfies the contract\<close>

definition str_inv :: "str_st \<Rightarrow> bool" where
  "str_inv s =
     (case st_allocd s of
        None \<Rightarrow> st_max_length s = 0 \<and> st_length s = 0 \<and> st_data s = 0
      | Some m \<Rightarrow> length m = st_max_length s + 1 \<and> length m < MAX_TALLOC_SIZE \<and>
          st_data s + st_length s \<le> st_max_length s)"

definition str_env_ok :: "str_env \<Rightarrow> bool" where
  "str_env_ok env =
     ((\<forall>n b. se_alloc env n = Some b \<longrightarrow> length b = n) \<and> (\<forall>d d'. se_memdup env d = Some d' \<longrightarrow> d' = d))"

definition str_env_reliable :: "str_env \<Rightarrow> bool" where
  "str_env_reliable env =
     ((\<forall>n < MAX_TALLOC_SIZE. se_alloc env n \<noteq> None) \<and> (\<forall>d. length d < MAX_TALLOC_SIZE \<longrightarrow> se_memdup env d \<noteq> None))"

text \<open>Texts up to this length never need a block that talloc refuses.\<close>

definition TEXT_LIMIT :: nat where "TEXT_LIMIT = 2 ^ 29"

definition str_truncate :: "nat \<Rightarrow> str_st \<Rightarrow> str_st" where
  "str_truncate n s = s\<lparr>st_length := n\<rparr>"

lemma str_init_inv [simp]: "str_inv str_init" "str_content str_init = []"
  by (simp_all add: str_inv_def str_init_def str_content_def)

lemma str_content_length: "str_inv s \<Longrightarrow> length (str_content s) = st_length s"
  by (auto simp: str_inv_def str_content_def mem_read_def split: option.splits)

lemma str_memmove_inv:
  assumes "st_allocd s = Some m" "length m = st_max_length s + 1" "length m < MAX_TALLOC_SIZE"
    "st_data s + st_length s \<le> st_max_length s"
  shows "str_inv (str_memmove s) \<and> str_content (str_memmove s) = str_content s"
  using assms by (auto simp: str_memmove_def str_inv_def str_content_def mem_read_def Let_def)

lemma str_memmove_simps [simp]:
  "st_length (str_memmove s) = st_length s" "st_max_length (str_memmove s) = st_max_length s"
  "st_data (str_memmove s) = 0" "(\<exists>m. st_allocd (str_memmove s) = Some m) \<longleftrightarrow> (\<exists>m. st_allocd s = Some m)"
  by (auto simp: str_memmove_def Let_def split: option.splits)

lemma size_to_int_id: "n < MAX_TALLOC_SIZE \<Longrightarrow> size_to_int n = int n"
  by (simp add: size_to_int_def MAX_TALLOC_SIZE_def Let_def)

text \<open>After \<^verbatim>\<open>str_append_size\<close> there is room for the data and one byte more.\<close>

lemma str_append_size_room:
  assumes "str_env_ok env" "str_inv s" "str_append_size env s n = (ret, s')" "ret \<ge> 0" "n > 0"
  shows "str_inv s' \<and> str_content s' = str_content s \<and> st_length s' = st_length s
    \<and> st_allocd s' \<noteq> None \<and> st_data s' + st_length s' + n \<le> st_max_length s'"
proof (cases "st_max_length s \<ge> n + st_length s + 1")
  case True
  then obtain m where m: "st_allocd s = Some m" "length m = st_max_length s + 1" "length m < MAX_TALLOC_SIZE"
    "st_data s + st_length s \<le> st_max_length s"
    using assms(2) by (auto simp: str_inv_def split: option.splits)
  show ?thesis
    using True assms(2-5) m str_memmove_inv [OF m]
    by (auto simp: str_append_size_def Let_def split: if_splits)
next
  case False
  let ?new = "max n MIN_CHUNK + max (st_max_length s) MIN_CHUNK"
  obtain m where m: "talloc_realloc env (st_allocd s) (?new + 1) = Some m"
    and s': "s' = str_memmove (s\<lparr>st_allocd := Some m, st_max_length := ?new\<rparr>)"
    using False assms(3-5) by (auto simp: str_append_size_def Let_def split: option.splits if_splits)
  have len: "length m = ?new + 1" "length m < MAX_TALLOC_SIZE"
    using m assms(1,2) False by (auto simp: talloc_realloc_def str_env_ok_def str_inv_def split: option.splits if_splits)
  have le: "st_data s + st_length s \<le> st_max_length s"
    using assms(2) by (auto simp: str_inv_def split: option.splits)
  have "str_content (s\<lparr>st_allocd := Some m, st_max_length := ?new\<rparr>) = str_content s"
  proof (cases "st_allocd s")
    case None
    then show ?thesis using assms(2) by (simp add: str_content_def mem_read_def str_inv_def)
  next
    case (Some old)
    then obtain b where "m = old @ b" using m by (auto simp: talloc_realloc_def split: option.splits if_splits)
    then show ?thesis using Some le assms(2) by (simp add: str_content_def mem_read_def str_inv_def)
  qed
  then show ?thesis
    using str_memmove_inv [of "s\<lparr>st_allocd := Some m, st_max_length := ?new\<rparr>" m] len le s' by auto
qed

lemma str_append_size_result:
  assumes "str_env_ok env" "str_inv s" "str_append_size env s n = (ret, s')"
  shows "ret \<ge> 0 \<or> ret = ERR_MEM"
proof (cases "st_max_length s \<ge> n + st_length s + 1")
  case True
  then have "n + st_length s < MAX_TALLOC_SIZE" using assms(2) by (auto simp: str_inv_def split: option.splits)
  then show ?thesis using assms(3) True by (auto simp: str_append_size_def Let_def size_to_int_id split: if_splits)
next
  case False
  let ?k = "max n MIN_CHUNK + max (st_max_length s) MIN_CHUNK + 1"
  have "st_length s \<le> st_max_length s" using assms(2) by (auto simp: str_inv_def split: option.splits)
  then have "talloc_realloc env (st_allocd s) ?k \<noteq> None \<Longrightarrow> n + st_length s < MAX_TALLOC_SIZE"
    by (auto simp: talloc_realloc_def split: if_splits)
  then show ?thesis
    using assms(3) False by (auto simp: str_append_size_def Let_def size_to_int_id split: if_splits option.splits)
qed

lemma mem_write_read:
  assumes "mem_write m (k + n) d = Some m'"
  shows "length m' = length m" "mem_read m' k (n + length d) = mem_read m k n @ d"
  using assms by (auto simp: mem_write_def mem_read_def drop_take split: if_splits)

lemma str_append_data_spec:
  assumes "str_env_ok env" "str_inv s"
  shows "\<exists>ret s'. str_append_data env s d = Some (ret, s') \<and>
    (ret \<ge> 0 \<longrightarrow> ret = 0 \<and> str_inv s' \<and> str_content s' = str_content s @ d)"
proof -
  obtain r t where app: "str_append_size env s (length d + 1) = (r, t)" by fastforce
  show ?thesis
  proof (cases "r < 0")
    case True
    then show ?thesis using app by (simp add: str_append_data_def)
  next
    case False
    have t: "str_inv t" "str_content t = str_content s" "st_length t = st_length s"
      "st_data t + st_length t + (length d + 1) \<le> st_max_length t" "st_allocd t \<noteq> None"
      using str_append_size_room [OF assms app] False by auto
    then obtain m where m: "st_allocd t = Some m" "length m = st_max_length t + 1"
      by (auto simp: str_inv_def)
    let ?off = "st_data t + st_length t"
    obtain m' where m': "mem_write m ?off d = Some m'" using t m by (auto simp: mem_write_def)
    have len': "length m' = length m"
      and r': "mem_read m' (st_data t) (st_length t + length d) = mem_read m (st_data t) (st_length t) @ d"
      using mem_write_read [OF m'] by auto
    let ?stop = "st_data t + (length d + st_length t)"
    obtain m'' where m'': "mem_write m' ?stop [CHR 0x00] = Some m''"
      using t m len' by (auto simp: mem_write_def)
    have "length m'' = length m" "mem_read m'' (st_data t) (length d + st_length t) = mem_read m' (st_data t) (length d + st_length t)"
      using m'' len' t m by (auto simp: mem_write_def mem_read_def drop_take)
    then have "str_inv (t\<lparr>st_allocd := Some m'', st_length := length d + st_length t\<rparr>)"
      "str_content (t\<lparr>st_allocd := Some m'', st_length := length d + st_length t\<rparr>) = str_content s @ d"
      using t m r' by (auto simp: str_inv_def str_content_def add.commute)
    then show ?thesis using app False m m' m'' by (simp add: str_append_data_def)
  qed
qed

interpretation strbuf: text_buffer str_content str_inv str_env_ok str_append_data str_truncate
proof
  fix e s d assume "str_env_ok e" "str_inv s"
  from str_append_data_spec [OF this, of d] show "\<exists>r. str_append_data e s d = Some r" by blast
next
  fix e s d ret s' assume "str_env_ok e" "str_inv s" "str_append_data e s d = Some (ret, s')" "ret \<ge> 0"
  with str_append_data_spec [of e s d] show "str_inv s' \<and> str_content s' = str_content s @ d \<and> ret = 0" by auto
next
  fix s n assume "str_inv s" "n \<le> length (str_content s)"
  then show "str_inv (str_truncate n s) \<and> str_content (str_truncate n s) = take n (str_content s)"
    using str_content_length [of s]
    by (auto simp: str_inv_def str_content_def str_truncate_def mem_read_def min_def split: option.splits)
qed

lemma str_append_str_spec:
  assumes "str_env_ok env" "str_inv s"
  shows "\<exists>ret s'. str_append_str env s (Some t) = Some (ret, s') \<and>
    (ret \<ge> 0 \<longrightarrow> ret = 0 \<and> str_inv s' \<and> str_content s' = str_content s @ t)"
proof -
  obtain ret s' where app: "str_append_data env s (t @ [CHR 0x00]) = Some (ret, s')"
    using strbuf.append_total [OF assms] by fastforce
  have "ret = 0 \<and> str_inv (str_truncate (st_length s' - 1) s') \<and>
      str_content (str_truncate (st_length s' - 1) s') = str_content s @ t" if "ret \<ge> 0"
  proof -
    have s': "str_inv s'" "str_content s' = str_content s @ t @ [CHR 0x00]" "ret = 0"
      using strbuf.append_content [OF assms app that] by auto
    then have "st_length s' = length (str_content s @ t) + 1" using str_content_length [of s'] by simp
    then show ?thesis using strbuf.truncate_content [OF s'(1), of "st_length s' - 1"] s' by simp
  qed
  then show ?thesis using app by (auto simp: str_append_str_def str_truncate_def)
qed

text \<open>An append of \<open>n\<close> bytes that stays below the limit never fails when allocation works.\<close>

lemma str_append_size_never_fails:
  assumes "str_env_reliable env" "str_inv s" "2 * (n + st_length s) + 130 \<le> MAX_TALLOC_SIZE"
  shows "fst (str_append_size env s n) \<ge> 0"
proof (cases "st_max_length s \<ge> n + st_length s + 1")
  case True
  then have "n + st_length s < MAX_TALLOC_SIZE" using assms(3) by simp
  then show ?thesis using True by (simp add: str_append_size_def Let_def size_to_int_id)
next
  case False
  let ?k = "max n MIN_CHUNK + max (st_max_length s) MIN_CHUNK + 1"
  have k: "?k < MAX_TALLOC_SIZE" "n + st_length s < MAX_TALLOC_SIZE" using False assms(3) by simp_all
  then obtain m where "talloc_realloc env (st_allocd s) ?k = Some m"
    using assms(1) unfolding str_env_reliable_def talloc_realloc_def
    by (cases "se_alloc env ?k"; cases "st_allocd s") auto
  then show ?thesis using k(2) by (simp add: str_append_size_def Let_def size_to_int_id)
qed

lemma str_append_data_never_fails:
  assumes "str_env_ok env" "str_inv s" "str_env_reliable env" "str_append_data env s d = Some (ret, s')"
    and "length (str_content s) + length d \<le> TEXT_LIMIT + 1"
  shows "ret = 0"
proof -
  have "2 * (length d + 1 + st_length s) + 130 \<le> MAX_TALLOC_SIZE"
    using assms(5) str_content_length [OF assms(2)] by (simp add: TEXT_LIMIT_def MAX_TALLOC_SIZE_def)
  then have "\<not> fst (str_append_size env s (length d + 1)) < 0"
    using str_append_size_never_fails [OF assms(3,2)] by fastforce
  then have "ret \<ge> 0"
    using assms(4) by (auto simp: str_append_data_def split: prod.splits option.splits if_splits)
  then show ?thesis using strbuf.append_content [OF assms(1,2,4)] by simp
qed

lemma str_append_str_never_fails:
  "str_env_ok env \<Longrightarrow> str_inv s \<Longrightarrow> str_env_reliable env \<Longrightarrow> length (str_content s) + length t \<le> TEXT_LIMIT
    \<Longrightarrow> str_append_str env s (Some t) = Some (ret, s') \<Longrightarrow> ret = 0"
  using str_append_data_never_fails [of env s "t @ [CHR 0x00]"]
  by (auto simp: str_append_str_def split: option.splits)

section \<open>Substitution\<close>

text \<open>The meaning of the replacement of patterns: one pass from left to right.\<close>

function subst_ref :: "str_rep_tab \<Rightarrow> string \<Rightarrow> string option" where
  "subst_ref tab [] = Some []"
| "subst_ref tab (c # cs) =
     (if c = CHR ''%'' then
        (case find_rep tab (c # cs) of
           None \<Rightarrow> None
         | Some (pat, r) \<Rightarrow>
             (case rep_text r of
                None \<Rightarrow> None
              | Some v \<Rightarrow> map_option ((@) v) (subst_ref tab (drop (length pat - 1) cs))))
      else map_option ((#) c) (subst_ref tab cs))"
  by pat_completeness auto
termination by (relation "measure (\<lambda>(tab, s). length s)") auto

lemma subst_ref_skip:
  "CHR ''%'' \<notin> set u \<Longrightarrow> subst_ref tab (u @ b) = map_option ((@) u) (subst_ref tab b)"
  by (induction u) (cases "subst_ref tab b"; auto)+

lemma find_percent_split:
  "find_percent (a @ b) (length a) =
     (if CHR ''%'' \<in> set b then Some (length a + length (takeWhile (\<lambda>c. c \<noteq> CHR ''%'') b)) else None)"
proof -
  have "strchr b c = (if c \<in> set b then Some (dropWhile (\<lambda>x. x \<noteq> c) b) else None)" for c
    by (induction b) auto
  moreover have "length b - length (dropWhile (\<lambda>c. c \<noteq> CHR ''%'') b) = length (takeWhile (\<lambda>c. c \<noteq> CHR ''%'') b)"
    using takeWhile_dropWhile_id [of "\<lambda>c. c \<noteq> CHR ''%''" b] by (metis add_diff_cancel_right' length_append)
  moreover have "length (dropWhile (\<lambda>c. c \<noteq> CHR ''%'') b) \<le> length b" by (simp add: length_dropWhile_le)
  ultimately show ?thesis by (auto simp: find_percent_def)
qed

lemma find_rep_SomeD:
  "find_rep tab txt = Some (pat, r) \<Longrightarrow> (pat, r) \<in> set tab \<and> prefix pat txt"
  by (induction tab) (auto split: if_splits)

text \<open>The outcome of a round in which a pattern is found at the percent sign.\<close>

lemma replace_round_step:
  assumes env: "str_env_ok env" and s: "str_inv s" "str_content s = a @ u @ CHR ''%'' # v"
    and u: "CHR ''%'' \<notin> set u"
    and rep: "find_rep tab (CHR ''%'' # v) = Some (pat, r)" "rep_text r = Some val" "pat \<noteq> []"
  obtains ret s' where "replace_round env tab (length a) s = Some (Inl (ret, s'))" "ret < 0"
      "\<not> str_env_reliable env \<or> length (a @ u @ val @ drop (length pat - 1) v) > TEXT_LIMIT"
  | s' where "replace_round env tab (length a) s =
        Some (if length (a @ u) < st_length s' then Inr (length (a @ u), s') else Inl (0, s'))"
      "str_inv s'" "str_content s' = a @ u @ val @ drop (length pat - 1) v"
proof -
  let ?pos = "length (a @ u)" and ?rest = "drop (length pat - 1) v"
  have pos: "find_percent (str_content s) (length a) = Some ?pos"
    using u unfolding s(2) find_percent_split by (simp add: takeWhile_append)
  have dr: "drop ?pos (str_content s) = CHR ''%'' # v" "drop (?pos + length pat) (str_content s) = ?rest"
    using rep(3) by (simp_all add: s(2)) (cases pat; simp)
  let ?t = "str_truncate ?pos s"
  have t: "str_inv ?t" "str_content ?t = a @ u" using strbuf.truncate_content [OF s(1), of ?pos] s(2) by auto
  obtain ra sa where A: "str_append_str env ?t (Some val) = Some (ra, sa)"
    "ra \<ge> 0 \<Longrightarrow> ra = 0 \<and> str_inv sa \<and> str_content sa = a @ u @ val"
    using str_append_str_spec [OF env t(1), of val] t(2) by auto
  have tab: "tab \<noteq> []" using rep(1) by auto
  show ?thesis
  proof (cases "talloc_memdup env ?rest = None \<or> ra < 0")
    case True
    have R: "replace_round env tab (length a) s = Some (Inl (if talloc_memdup env ?rest = None then (-1, s) else (ra, sa)))"
      using True pos dr rep A(1) tab by (auto simp: replace_round_def str_truncate_def)
    have "\<not> str_env_reliable env \<or> length (a @ u @ val @ ?rest) > TEXT_LIMIT"
    proof (rule ccontr)
      assume "\<not> ?thesis"
      then have rel: "str_env_reliable env" "length (a @ u @ val @ ?rest) \<le> TEXT_LIMIT" by auto
      then have "length ?rest < MAX_TALLOC_SIZE" by (simp add: TEXT_LIMIT_def MAX_TALLOC_SIZE_def)
      then have "talloc_memdup env ?rest \<noteq> None" using rel(1) by (simp add: talloc_memdup_def str_env_reliable_def)
      moreover have "ra = 0" using rel(2) t(2) by (intro str_append_str_never_fails [OF env t(1) rel(1) _ A(1)]) simp
      ultimately show False using True by simp
    qed
    then show ?thesis using True that(1) R by (cases "talloc_memdup env ?rest = None") auto
  next
    case False
    then have dup: "talloc_memdup env ?rest = Some ?rest"
      using env by (auto simp: str_env_ok_def talloc_memdup_def split: if_splits)
    have sa: "str_inv sa" "str_content sa = a @ u @ val" using A(2) False by auto
    obtain rb sb where B: "str_append_data env sa ?rest = Some (rb, sb)"
      "rb \<ge> 0 \<Longrightarrow> rb = 0 \<and> str_inv sb \<and> str_content sb = a @ u @ val @ ?rest"
      using str_append_data_spec [OF env sa(1), of ?rest] sa(2) by auto
    have round: "replace_round env tab (length a) s =
        Some (if rb < 0 then Inl (rb, sb) else if ?pos < st_length sb then Inr (?pos, sb) else Inl (0, sb))"
      using False pos dr rep A(1) B(1) dup tab by (simp add: replace_round_def str_truncate_def)
    have "rb = 0" if "str_env_reliable env" "length (a @ u @ val @ ?rest) \<le> TEXT_LIMIT"
      using that(2) sa(2) by (intro str_append_data_never_fails [OF env sa(1) that(1) B(1)]) simp
    then show ?thesis using that round B(2) by (cases "rb < 0") fastforce+
  qed
qed

text \<open>A replacement function that returns \<^verbatim>\<open>NULL\<close> ends the substitution with an error.\<close>

lemma replace_loop_null:
  assumes "str_content s = a @ u @ CHR ''%'' # v" "CHR ''%'' \<notin> set u"
    and "find_rep tab (CHR ''%'' # v) = Some (pat, r)" "rep_text r = None"
  shows "\<exists>s'. replace_loop env tab (length a) s = Some (-1, s')"
proof -
  have "find_percent (str_content s) (length a) = Some (length (a @ u))"
    using assms(1,2) find_percent_split [of a "u @ CHR ''%'' # v"] by (simp add: takeWhile_append)
  moreover have "tab \<noteq> []" using assms(3) by auto
  ultimately show ?thesis
    using assms by (auto simp: replace_loop.simps replace_round_def str_append_str_def split: option.split)
qed

text \<open>Values without percent signs are not scanned again, so the rounds amount to one pass.\<close>

lemma replace_loop_plain:
  assumes "str_content s = a @ b" "CHR ''%'' \<notin> set b"
  shows "replace_loop env tab (length a) s = Some (0, s)" "subst_ref tab b = Some b"
proof -
  show "replace_loop env tab (length a) s = Some (0, s)"
    using assms by (simp add: replace_loop.simps replace_round_def find_percent_split)
  show "subst_ref tab b = Some b" using subst_ref_skip [of b tab "[]"] assms(2) by simp
qed

lemma replace_loop_missing:
  assumes "str_content s = a @ u @ CHR ''%'' # v" "CHR ''%'' \<notin> set u" "find_rep tab (CHR ''%'' # v) = None" "tab \<noteq> []"
  shows "replace_loop env tab (length a) s = Some (-1, s)"
proof -
  have "find_percent (str_content s) (length a) = Some (length (a @ u))"
    using assms(1,2) find_percent_split [of a "u @ CHR ''%'' # v"] by (simp add: takeWhile_append)
  then show ?thesis using assms by (simp add: replace_loop.simps replace_round_def)
qed

text \<open>A bound on the length of all texts of a substitution: every percent sign may be replaced by the longest value.\<close>

fun rep_limit :: "str_rep_tab \<Rightarrow> nat" where
  "rep_limit [] = 0"
| "rep_limit ((pat, r) # tab) = max (case rep_text r of None \<Rightarrow> 0 | Some v \<Rightarrow> length v) (rep_limit tab)"

definition text_bound :: "str_rep_tab \<Rightarrow> string \<Rightarrow> nat" where
  "text_bound tab txt = length txt + count_list txt (CHR ''%'') * rep_limit tab"

lemma rep_limit_upper: "(pat, r) \<in> set tab \<Longrightarrow> rep_text r = Some v \<Longrightarrow> length v \<le> rep_limit tab"
  by (induction tab) (auto simp: le_max_iff_disj)

lemma count_list_drop: "count_list (drop n v) c \<le> count_list v c"
  using count_list_append [of "take n v" "drop n v" c] by simp

lemma text_bound_hit:
  assumes "(pat, r) \<in> set tab" "rep_text r = Some val" "CHR ''%'' \<notin> set val" "CHR ''%'' \<notin> set u"
  shows "length u + text_bound tab (val @ drop n v) \<le> text_bound tab (u @ CHR ''%'' # v)"
proof -
  define x y where "x = count_list (drop n v) (CHR ''%'') * rep_limit tab" and "y = count_list v (CHR ''%'') * rep_limit tab"
  have "x \<le> y" unfolding x_def y_def by (rule mult_right_mono [OF count_list_drop]) simp
  moreover have "text_bound tab (val @ drop n v) = length val + (length v - n) + x"
    "text_bound tab (u @ CHR ''%'' # v) = length u + Suc (length v) + (rep_limit tab + y)"
    using assms(3,4) by (simp_all add: text_bound_def count_notin x_def y_def)
  ultimately show ?thesis using rep_limit_upper [OF assms(1,2)] by linarith
qed

definition replace_result :: "str_env \<Rightarrow> str_rep_tab \<Rightarrow> string \<Rightarrow> string \<Rightarrow> (int \<times> str_st) option \<Rightarrow> bool" where
  "replace_result env tab a b res =
     (\<exists>ret s'. res = Some (ret, s') \<and> ret \<le> 0 \<and>
        (ret = 0 \<longrightarrow> map_option ((@) a) (subst_ref tab b) = Some (str_content s')) \<and>
        (str_env_reliable env \<longrightarrow> length a + text_bound tab b \<le> TEXT_LIMIT \<longrightarrow> ret \<noteq> 0 \<longrightarrow> subst_ref tab b = None))"

text \<open>One replacement leaves a smaller number of percent signs to scan.\<close>

lemma replace_loop_hit:
  assumes env: "str_env_ok env" and s: "str_inv s" "str_content s = a @ u @ CHR ''%'' # v"
    and u: "CHR ''%'' \<notin> set u"
    and rep: "find_rep tab (CHR ''%'' # v) = Some (pat, r)" "rep_text r = Some val" "pat \<noteq> []" "CHR ''%'' \<notin> set val"
    and IH: "\<And>a' s'. str_inv s' \<Longrightarrow> str_content s' = a' @ val @ drop (length pat - 1) v \<Longrightarrow>
      replace_result env tab a' (val @ drop (length pat - 1) v) (replace_loop env tab (length a') s')"
  shows "replace_result env tab a (u @ CHR ''%'' # v) (replace_loop env tab (length a) s)"
proof -
  let ?rest = "drop (length pat - 1) v" and ?loop = "replace_loop env tab"
  have sub: "subst_ref tab (u @ CHR ''%'' # v) = map_option ((@) (u @ val)) (subst_ref tab ?rest)"
    "subst_ref tab (val @ ?rest) = map_option ((@) val) (subst_ref tab ?rest)"
    using rep u by (cases "subst_ref tab ?rest"; simp add: subst_ref_skip)+
  have bound: "length u + text_bound tab (val @ ?rest) \<le> text_bound tab (u @ CHR ''%'' # v)"
    using find_rep_SomeD [OF rep(1)] rep(2,4) u by (intro text_bound_hit) auto
  have len: "length (val @ ?rest) \<le> text_bound tab (val @ ?rest)" by (simp add: text_bound_def)
  show ?thesis
  proof (rule replace_round_step [OF env s u rep(1-3)])
    fix ret s' assume *: "replace_round env tab (length a) s = Some (Inl (ret, s'))" "ret < 0"
      "\<not> str_env_reliable env \<or> length (a @ u @ val @ ?rest) > TEXT_LIMIT"
    have "\<not> (str_env_reliable env \<and> length a + text_bound tab (u @ CHR ''%'' # v) \<le> TEXT_LIMIT)"
      using *(3) bound len by auto
    then show ?thesis using * by (auto simp: replace_result_def replace_loop.simps)
  next
    fix s' assume *: "replace_round env tab (length a) s =
        Some (if length (a @ u) < st_length s' then Inr (length (a @ u), s') else Inl (0, s'))"
      "str_inv s'" "str_content s' = a @ u @ val @ ?rest"
    show ?thesis
    proof (cases "length (a @ u) < st_length s'")
      case True
      then have "?loop (length a) s = ?loop (length (a @ u)) s'" using * by (simp add: replace_loop.simps)
      moreover have "replace_result env tab (a @ u) (val @ ?rest) (?loop (length (a @ u)) s')"
        using * by (intro IH) auto
      ultimately show ?thesis using sub bound unfolding replace_result_def by (cases "subst_ref tab ?rest") auto
    next
      case False
      moreover have "st_length s' = length (a @ u) + length (val @ ?rest)"
        using str_content_length [OF *(2)] by (simp add: *(3))
      ultimately have "length (val @ ?rest) = 0" by linarith
      then have "val @ ?rest = []" by (rule length_0_conv [THEN iffD1])
      then show ?thesis using * False sub by (simp add: replace_result_def replace_loop.simps)
    qed
  qed
qed

lemma replace_loop_spec:
  assumes env: "str_env_ok env"
    and tab: "tab \<noteq> []" "\<forall>(pat, r) \<in> set tab. pat \<noteq> [] \<and> (\<forall>v. rep_text r = Some v \<longrightarrow> CHR ''%'' \<notin> set v)"
  shows "str_inv s \<Longrightarrow> str_content s = a @ b \<Longrightarrow> replace_result env tab a b (replace_loop env tab (length a) s)"
proof (induction "count_list b (CHR ''%'')" arbitrary: a b s rule: less_induct)
  case less
  show ?case
  proof (cases "CHR ''%'' \<in> set b")
    case False
    with replace_loop_plain [OF less.prems(2) this] less.prems(2) show ?thesis by (simp add: replace_result_def)
  next
    case True
    then obtain u v where b: "b = u @ CHR ''%'' # v" and u: "CHR ''%'' \<notin> set u" by (meson split_list_first)
    have s: "str_content s = a @ u @ CHR ''%'' # v" using less.prems(2) b by simp
    show ?thesis
    proof (cases "find_rep tab (CHR ''%'' # v)")
      case None
      with replace_loop_missing [OF s u None tab(1)] show ?thesis by (simp add: replace_result_def b u subst_ref_skip)
    next
      case (Some pr)
      then obtain pat r where f: "find_rep tab (CHR ''%'' # v) = Some (pat, r)" by (cases pr) auto
      then have t: "pat \<noteq> []" "\<And>val. rep_text r = Some val \<Longrightarrow> CHR ''%'' \<notin> set val"
        using find_rep_SomeD [OF f] tab by auto
      show ?thesis
      proof (cases "rep_text r")
        case None
        with replace_loop_null [OF s u f None, of env] show ?thesis by (auto simp: replace_result_def b u f subst_ref_skip)
      next
        case (Some val)
        then have pr: "find_rep tab (CHR ''%'' # v) = Some (pat, r)" "rep_text r = Some val"
          "pat \<noteq> []" "CHR ''%'' \<notin> set val"
          using f t by auto
        have dec: "count_list (val @ drop (length pat - 1) v) (CHR ''%'') < count_list b (CHR ''%'')"
          using pr(4) u count_list_drop [of "length pat - 1" v "CHR ''%''"] by (simp add: b count_notin)
        show ?thesis unfolding b
          by (rule replace_loop_hit [OF env less.prems(1) s u pr]) (rule less.hyps [OF dec])
      qed
    qed
  qed
qed

section \<open>Properties\<close>

definition nul_terminated :: "str_st \<Rightarrow> bool" where
  "nul_terminated s = (case st_allocd s of None \<Rightarrow> False | Some m \<Rightarrow> m ! (st_data s + st_length s) = CHR 0x00)"

text \<open>
  C13 The buffer refines a list of characters: on a well-formed buffer an append never writes
  outside the block; it either fails for lack of memory or leaves a well-formed buffer whose
  content is the old content followed by the data and which is terminated by a null byte.
\<close>

theorem str_append_data_refines:
  assumes "str_env_ok env" "str_inv s"
  shows "\<exists>ret s'. str_append_data env s d = Some (ret, s') \<and>
    (ret = ERR_MEM \<or> ret = 0 \<and> str_inv s' \<and> str_content s' = str_content s @ d \<and> nul_terminated s')"
proof -
  obtain ret s' where app: "str_append_data env s d = Some (ret, s')"
    using strbuf.append_total [OF assms, of d] by fastforce
  show ?thesis
  proof (cases "ret \<ge> 0")
    case True
    obtain r t where t: "str_append_size env s (length d + 1) = (r, t)" by fastforce
    have "nul_terminated s'"
      using app t True
      by (auto simp: str_append_data_def nul_terminated_def mem_write_def nth_append add.assoc min_def
          split: option.splits if_splits)
    then show ?thesis using app strbuf.append_content [OF assms app True] by auto
  next
    case False
    obtain r t where t: "str_append_size env s (length d + 1) = (r, t)" by fastforce
    have "r = ret" "ret < 0" using app t False by (auto simp: str_append_data_def split: option.splits if_splits)
    then show ?thesis using app str_append_size_result [OF assms t] by auto
  qed
qed

lemma str_replace_str_spec:
  assumes "str_env_ok env" "str_inv s" "tab \<noteq> []"
    and "\<forall>(pat, r) \<in> set tab. pat \<noteq> [] \<and> (\<forall>v. rep_text r = Some v \<longrightarrow> CHR ''%'' \<notin> set v)"
  shows "\<exists>ret s'. str_replace_str env s tab = Some (ret, s') \<and> ret \<le> 0 \<and>
    (ret = 0 \<longrightarrow> subst_ref tab (str_content s) = Some (str_content s')) \<and>
    (str_env_reliable env \<longrightarrow> text_bound tab (str_content s) \<le> TEXT_LIMIT \<longrightarrow> ret \<noteq> 0 \<longrightarrow>
       subst_ref tab (str_content s) = None)"
proof -
  have "map_option ((@) []) x = x" for x :: "string option" by (cases x) auto
  then show ?thesis
    using replace_loop_spec [OF assms(1,3,4,2), of "[]" "str_content s"]
    by (auto simp: replace_result_def str_replace_str_def)
qed

text \<open>
  C14 When the table has an entry and no replacement value contains a percent sign, the
  substitution returns, and it computes the one-pass substitution of the text: the result is zero
  with that text, or it is negative and, when every allocation below the limit of talloc succeeds
  and the texts cannot grow beyond \<open>TEXT_LIMIT\<close> characters, the text contains an unknown pattern
  or one whose replacement function fails.
\<close>

theorem str_replace_str_equiv:
  assumes "str_env_ok env" "str_inv s" "tab \<noteq> []"
    and "\<forall>(pat, r) \<in> set tab. pat \<noteq> [] \<and> (\<forall>v. rep_text r = Some v \<longrightarrow> CHR ''%'' \<notin> set v)"
  shows "\<exists>ret s'. str_replace_str env s tab = Some (ret, s') \<and> ret \<le> 0 \<and>
    (ret = 0 \<longrightarrow> subst_ref tab (str_content s) = Some (str_content s')) \<and>
    (str_env_reliable env \<longrightarrow> text_bound tab (str_content s) \<le> TEXT_LIMIT \<longrightarrow> ret \<noteq> 0 \<longrightarrow>
       subst_ref tab (str_content s) = None)"
  using assms by (rule str_replace_str_spec)





section \<open>Examples\<close>

definition demo_str_env :: str_env where
  "demo_str_env = \<lparr>se_alloc = (\<lambda>n. Some (replicate n (CHR ''?''))), se_memdup = Some\<rparr>"

lemma demo_str_env_ok: "str_env_ok demo_str_env" "str_env_reliable demo_str_env"
  by (simp_all add: str_env_ok_def str_env_reliable_def demo_str_env_def)

definition demo_buf :: str_st where
  "demo_buf = \<lparr>st_allocd = Some (''ab'' @ ''user %{U}'' @ [CHR 0x00]), st_data = 2, st_max_length = 11, st_length = 9\<rparr>"

lemma demo_buf_facts: "str_inv demo_buf" "str_content demo_buf = ''user %{U}''"
  by (simp_all add: demo_buf_def str_inv_def str_content_def mem_read_def MAX_TALLOC_SIZE_def)

lemma demo_buf_bound: "text_bound [(''%{U}'', RepVal ''alice'')] (str_content demo_buf) \<le> TEXT_LIMIT"
  by (simp add: demo_buf_facts text_bound_def TEXT_LIMIT_def)

theorem str_append_data_refines_witness:
  "\<exists>ret s'. str_append_data demo_str_env demo_buf ''!'' = Some (ret, s') \<and>
    (ret = ERR_MEM \<or> ret = 0 \<and> str_inv s' \<and> str_content s' = str_content demo_buf @ ''!'' \<and> nul_terminated s')"
  by (rule str_append_data_refines [OF demo_str_env_ok(1) demo_buf_facts(1)])

theorem str_replace_str_equiv_witness:
  "\<exists>s'. str_replace_str demo_str_env demo_buf [(''%{U}'', RepVal ''alice'')] = Some (0, s')
     \<and> str_content s' = ''user alice''"
proof -
  have "subst_ref [(''%{U}'', RepVal ''alice'')] (str_content demo_buf) = Some ''user alice''" by code_simp
  then show ?thesis
    using str_replace_str_equiv [OF demo_str_env_ok(1) demo_buf_facts(1), of "[(''%{U}'', RepVal ''alice'')]"]
      demo_str_env_ok(2) demo_buf_bound by fastforce
qed


end
