(* ===== verification/Route_Add.thy ===== *)
theory Route_Add
  imports Str_Buf Ip_Util
begin

text \<open>
  Local routes of a client (\<^verbatim>\<open>src/src/route-add.c\<close>): the commands of the configuration with
  their patterns replaced, and the loops that apply and remove the routes of a session.  The
  outcome of the \<open>n\<close>-th command that is run is an argument; a replacement that does not
  return makes the whole operation \<open>None\<close>.
\<close>

section \<open>Running a command\<close>

datatype script_outcome = ForkFailed | WaitFailed | Signalled | Exited nat

definition call_script :: "script_outcome \<Rightarrow> string option \<Rightarrow> int" where
  "call_script outcome cmd =
     (if cmd = None then 0
      else case outcome of
        ForkFailed \<Rightarrow> ERR_EXEC
      | WaitFailed \<Rightarrow> ERR_EXEC
      | Signalled \<Rightarrow> ERR_EXEC
      | Exited status \<Rightarrow> if status \<noteq> 0 then ERR_EXEC else 0)"

definition route_tab :: "string \<Rightarrow> string \<Rightarrow> str_rep_tab" where
  "route_tab route dev =
     [(''%{R}'', RepVal route), (''%R'', RepVal route), (''%{D}'', RepVal dev), (''%D'', RepVal dev),
      (''%{RI}'', RepFunc (ipv4_route_to_cidr route))]"

definition replace_cmd :: "str_env \<Rightarrow> string \<Rightarrow> string \<Rightarrow> string \<Rightarrow> (int \<times> string option) option" where
  "replace_cmd env pattern route dev =
     (case str_append_str env str_init (Some pattern) of
        None \<Rightarrow> None
      | Some (ret, s) \<Rightarrow>
          if ret < 0 then Some (ERR_MEM, None)
          else
            (case str_replace_str env s (route_tab route dev) of
               None \<Rightarrow> None
             | Some (ret', s') \<Rightarrow>
                 if ret' < 0 then Some (ERR_MEM, None) else Some (0, Some (str_content s'))))"

record route_env =
  ro_str :: str_env
  ro_outcome :: "nat \<Rightarrow> script_outcome"
  ro_add_cmd :: "string option"
  ro_del_cmd :: "string option"

type_synonym cmd_log = "string list"

definition route_adddel :: "route_env \<Rightarrow> string option \<Rightarrow> string \<Rightarrow> string \<Rightarrow> cmd_log \<Rightarrow> (int \<times> cmd_log) option" where
  "route_adddel env pattern route dev log =
     (case pattern of
        None \<Rightarrow> Some (0, log)
      | Some pat \<Rightarrow>
          (case replace_cmd (ro_str env) pat route dev of
             None \<Rightarrow> None
           | Some (ret, cmd) \<Rightarrow>
               if ret < 0 then Some (ret, log)
               else
                 let r = call_script (ro_outcome env (length log)) cmd; log' = log @ [the cmd] in
                 if r < 0 then Some (ERR_EXEC, log') else Some (0, log')))"

definition route_add :: "route_env \<Rightarrow> string \<Rightarrow> string \<Rightarrow> cmd_log \<Rightarrow> (int \<times> cmd_log) option" where
  "route_add env route dev log = route_adddel env (ro_add_cmd env) route dev log"

definition route_del :: "route_env \<Rightarrow> string \<Rightarrow> string \<Rightarrow> cmd_log \<Rightarrow> (int \<times> cmd_log) option" where
  "route_del env route dev log = route_adddel env (ro_del_cmd env) route dev log"

section \<open>The routes of a session\<close>

record iroute_proc =
  ir_iroutes :: "string list option"
  ir_dev :: string
  ir_applied :: bool

fun del_routes :: "route_env \<Rightarrow> string list \<Rightarrow> string \<Rightarrow> cmd_log \<Rightarrow> cmd_log option" where
  "del_routes env [] dev log = Some log"
| "del_routes env (r # rs) dev log =
     (case route_del env r dev log of None \<Rightarrow> None | Some (ret, log') \<Rightarrow> del_routes env rs dev log')"

text \<open>The result says whether all routes were added, and which were.\<close>

fun add_routes :: "route_env \<Rightarrow> string list \<Rightarrow> string \<Rightarrow> string list \<Rightarrow> cmd_log \<Rightarrow> (bool \<times> string list \<times> cmd_log) option" where
  "add_routes env [] dev acc log = Some (True, acc, log)"
| "add_routes env (r # rs) dev acc log =
     (case route_add env r dev log of
        None \<Rightarrow> None
      | Some (ret, log') \<Rightarrow>
          if ret < 0 then Some (False, acc, log') else add_routes env rs dev (acc @ [r]) log')"

definition apply_iroutes :: "route_env \<Rightarrow> iroute_proc \<Rightarrow> cmd_log \<Rightarrow> (int \<times> iroute_proc \<times> cmd_log) option" where
  "apply_iroutes env p log =
     (case ir_iroutes p of
        None \<Rightarrow> None
      | Some rs \<Rightarrow>
          if rs = [] then Some (0, p, log)
          else
            (case add_routes env rs (ir_dev p) [] log of
               None \<Rightarrow> None
             | Some (ok, added, log') \<Rightarrow>
                 if ok then Some (0, p\<lparr>ir_applied := True\<rparr>, log')
                 else (case del_routes env added (ir_dev p) log' of
                         None \<Rightarrow> None
                       | Some log'' \<Rightarrow> Some (-1, p, log''))))"

definition remove_iroutes :: "route_env \<Rightarrow> iroute_proc \<Rightarrow> cmd_log \<Rightarrow> (iroute_proc \<times> cmd_log) option" where
  "remove_iroutes env p log =
     (case ir_iroutes p of
        None \<Rightarrow> Some (p, log)
      | Some rs \<Rightarrow>
          if rs = [] \<or> \<not> ir_applied p then Some (p, log)
          else (case del_routes env rs (ir_dev p) log of
                  None \<Rightarrow> None
                | Some log' \<Rightarrow> Some (p\<lparr>ir_applied := False\<rparr>, log')))"

section \<open>The commands that are run\<close>

text \<open>The command of a pattern, when the replacement values have no percent sign.\<close>

definition route_cmd :: "string \<Rightarrow> string \<Rightarrow> string \<Rightarrow> string option" where
  "route_cmd pattern dev route = subst_ref (route_tab route dev) pattern"

definition route_plain :: "string \<Rightarrow> string \<Rightarrow> bool" where
  "route_plain dev route =
     (CHR ''%'' \<notin> set route \<and> CHR ''%'' \<notin> set dev)"

lemma dec_string_no_percent: "CHR ''%'' \<notin> set (dec_string n)"
  using dec_string_digits [of "CHR ''%''" n] by (auto simp: isdigit_def ccode_def)

lemma cidr_no_percent:
  assumes "ipv4_route_to_cidr route = Some c" "CHR ''%'' \<notin> set route"
  shows "CHR ''%'' \<notin> set c"
  using assms dec_string_no_percent
  by (auto simp: ipv4_route_to_cidr_def Let_def split: option.splits if_splits dest: in_set_takeD)

lemma route_tab_plain:
  "route_plain dev route \<Longrightarrow>
     \<forall>(pat, r) \<in> set (route_tab route dev). pat \<noteq> [] \<and> (\<forall>v. rep_text r = Some v \<longrightarrow> CHR ''%'' \<notin> set v)"
  using cidr_no_percent [of route] by (auto simp: route_tab_def route_plain_def)

text \<open>What the route check accepts has no percent sign.\<close>

lemma checked_route_plain:
  assumes "ip_route_sanity_check mem r = Some r'"
  shows "CHR ''%'' \<notin> set r'"
proof (cases "r = ''default''")
  case True
  then have "r' = ''default''" using assms by (simp add: ip_route_sanity_check_def)
  then show ?thesis by simp
next
  case False
  from route_check_parts [OF assms this] obtain a q where r': "r' = a @ ''/'' @ q"
    "if CHR '':'' \<in> set r
     then inet_pton6 a \<noteq> None \<and> list_all (\<lambda>c. isspace c \<or> c = CHR ''+'' \<or> c = CHR ''-'' \<or> isdigit c) q
     else list_all (\<lambda>c. isdigit c \<or> c = CHR ''.'' \<or> c = CHR ''/'') r'" by (smt (verit))
  have "CHR ''%'' \<notin> set a" if "inet_pton6 a = Some b" for b
    using inet_pton6_chars [OF that, of "CHR ''%''"] by (auto simp: xdigit_val_def isdigit_def ccode_def)
  moreover have "\<not> isdigit (CHR ''%'')" "\<not> isspace (CHR ''%'')" by (simp_all add: isdigit_def isspace_def ccode_def)
  ultimately show ?thesis using r' by (auto simp: list_all_iff split: if_splits)
qed

lemma replace_cmd_spec:
  assumes "str_env_ok env" "str_env_reliable env" "route_plain dev route"
    and "text_bound (route_tab route dev) pattern \<le> TEXT_LIMIT"
  shows "replace_cmd env pattern route dev =
    Some (case route_cmd pattern dev route of None \<Rightarrow> (ERR_MEM, None) | Some c \<Rightarrow> (0, Some c))"
proof -
  obtain s where s: "str_append_str env str_init (Some pattern) = Some (0, s)" "str_inv s" "str_content s = pattern"
    using str_append_str_spec [OF assms(1), of str_init pattern]
      str_append_str_never_fails [OF assms(1) _ assms(2), of str_init pattern] assms(4) by (auto simp: text_bound_def)
  from str_replace_str_spec [OF assms(1) s(2) _ route_tab_plain [OF assms(3)]] show ?thesis
    using assms(2,4) s by (auto simp: replace_cmd_def route_cmd_def route_tab_def split: option.splits)
qed

definition route_env_ok :: "route_env \<Rightarrow> bool" where
  "route_env_ok env = (str_env_ok (ro_str env) \<and> str_env_reliable (ro_str env))"

text \<open>A route for which a pattern can be expanded to a command of bounded length.\<close>

definition expands :: "string \<Rightarrow> string \<Rightarrow> string \<Rightarrow> bool" where
  "expands pattern dev route =
     (route_plain dev route \<and> route_cmd pattern dev route \<noteq> None \<and>
      text_bound (route_tab route dev) pattern \<le> TEXT_LIMIT)"

abbreviation (input) cmd_of :: "string \<Rightarrow> string \<Rightarrow> string \<Rightarrow> string" where
  "cmd_of pattern dev route \<equiv> the (route_cmd pattern dev route)"

lemma route_adddel_spec:
  assumes "route_env_ok env" "expands pattern dev route"
  shows "route_adddel env (Some pattern) route dev log =
    Some (if ro_outcome env (length log) = Exited 0 then 0 else ERR_EXEC, log @ [cmd_of pattern dev route])"
proof -
  obtain c where c: "route_cmd pattern dev route = Some c" "route_plain dev route"
    "text_bound (route_tab route dev) pattern \<le> TEXT_LIMIT"
    using assms(2) by (auto simp: expands_def)
  then have "replace_cmd (ro_str env) pattern route dev = Some (0, Some c)"
    using assms(1) by (simp add: replace_cmd_spec route_env_ok_def)
  then show ?thesis
    using c by (cases "ro_outcome env (length log)") (simp_all add: route_adddel_def call_script_def Let_def)
qed

lemma del_routes_spec:
  assumes "route_env_ok env" "ro_del_cmd env = Some pd"
  shows "list_all (expands pd dev) rs \<Longrightarrow> del_routes env rs dev log = Some (log @ map (cmd_of pd dev) rs)"
  by (induction rs arbitrary: log) (simp_all add: route_del_def assms(2) route_adddel_spec [OF assms(1)])

lemma add_routes_spec:
  assumes "route_env_ok env" "ro_add_cmd env = Some pa"
  shows "list_all (expands pa dev) rs \<Longrightarrow>
    \<exists>k \<le> length rs. (\<forall>i < k. ro_outcome env (length log + i) = Exited 0) \<and>
      (if k = length rs then add_routes env rs dev acc log = Some (True, acc @ rs, log @ map (cmd_of pa dev) rs)
       else ro_outcome env (length log + k) \<noteq> Exited 0 \<and>
         add_routes env rs dev acc log = Some (False, acc @ take k rs, log @ map (cmd_of pa dev) (take (Suc k) rs)))"
proof (induction rs arbitrary: acc log)
  case (Cons r rs)
  let ?log = "log @ [cmd_of pa dev r]"
  have add: "route_add env r dev log = Some (if ro_outcome env (length log) = Exited 0 then 0 else ERR_EXEC, ?log)"
    using Cons.prems by (simp add: route_add_def assms(2) route_adddel_spec [OF assms(1)])
  show ?case
  proof (cases "ro_outcome env (length log) = Exited 0")
    case False
    then show ?thesis using add by (intro exI [of _ 0]) simp
  next
    case True
    obtain k where k: "k \<le> length rs" "\<forall>i < k. ro_outcome env (length ?log + i) = Exited 0"
      "if k = length rs
       then add_routes env rs dev (acc @ [r]) ?log = Some (True, (acc @ [r]) @ rs, ?log @ map (cmd_of pa dev) rs)
       else ro_outcome env (length ?log + k) \<noteq> Exited 0 \<and> add_routes env rs dev (acc @ [r]) ?log =
         Some (False, (acc @ [r]) @ take k rs, ?log @ map (cmd_of pa dev) (take (Suc k) rs))"
      using Cons.IH [of ?log "acc @ [r]"] Cons.prems by auto
    have "\<forall>i < Suc k. ro_outcome env (length log + i) = Exited 0"
      using True k(2) by (auto simp: less_Suc_eq_0_disj)
    then show ?thesis using True k(1,3) add by (intro exI [of _ "Suc k"]) (simp split: if_splits)
  qed
qed simp

text \<open>
  C12 Routes are applied as a transaction.  Either every add command exits with status zero, all
  routes are marked as applied and a later removal runs the delete command of exactly these
  routes; or there is a first add command that does not, the loop stops there, the delete
  command is run for exactly the routes before it, and the session is left as it was.  The
  commands are expanded from patterns whose values contain no percent sign, within the memory
  that talloc grants.
\<close>

theorem iroutes_transaction:
  assumes "route_env_ok env" "ro_add_cmd env = Some pa" "ro_del_cmd env = Some pd"
    and "ir_iroutes p = Some rs" "rs \<noteq> []" "list_all (\<lambda>r. expands pa (ir_dev p) r \<and> expands pd (ir_dev p) r) rs"
  shows "(\<exists>k < length rs. (\<forall>i < k. ro_outcome env (length log + i) = Exited 0) \<and>
            ro_outcome env (length log + k) \<noteq> Exited 0 \<and>
            apply_iroutes env p log = Some (-1, p, log @ map (cmd_of pa (ir_dev p)) (take (Suc k) rs)
                                                       @ map (cmd_of pd (ir_dev p)) (take k rs))) \<or>
         (\<forall>i < length rs. ro_outcome env (length log + i) = Exited 0) \<and>
         apply_iroutes env p log = Some (0, p\<lparr>ir_applied := True\<rparr>, log @ map (cmd_of pa (ir_dev p)) rs) \<and>
         (\<forall>log'. remove_iroutes env (p\<lparr>ir_applied := True\<rparr>) log' =
            Some (p\<lparr>ir_applied := False\<rparr>, log' @ map (cmd_of pd (ir_dev p)) rs))"
proof -
  let ?d = "ir_dev p"
  have ex: "list_all (expands pa ?d) rs" "list_all (expands pd ?d) rs"
    using assms(6) by (simp_all add: list_all_iff)
  then have exk: "list_all (expands pd ?d) (take k rs)" for k by (auto simp: list_all_iff dest: in_set_takeD)
  obtain k where k: "k \<le> length rs" "\<forall>i < k. ro_outcome env (length log + i) = Exited 0" and res: "if k = length rs
      then add_routes env rs ?d [] log = Some (True, rs, log @ map (cmd_of pa ?d) rs)
      else ro_outcome env (length log + k) \<noteq> Exited 0 \<and> add_routes env rs ?d [] log =
        Some (False, take k rs, log @ map (cmd_of pa ?d) (take (Suc k) rs))"
    using add_routes_spec [OF assms(1,2) ex(1), of log "[]"] by auto
  show ?thesis
  proof (cases "k = length rs")
    case True
    then have "apply_iroutes env p log = Some (0, p\<lparr>ir_applied := True\<rparr>, log @ map (cmd_of pa ?d) rs)"
      using res assms(4,5) by (simp add: apply_iroutes_def)
    moreover have "remove_iroutes env (p\<lparr>ir_applied := True\<rparr>) log' =
        Some (p\<lparr>ir_applied := False\<rparr>, log' @ map (cmd_of pd ?d) rs)" for log'
      using assms(4,5) del_routes_spec [OF assms(1,3) ex(2)] by (simp add: remove_iroutes_def)
    ultimately show ?thesis using k(2) True by auto
  next
    case False
    then have "apply_iroutes env p log = Some (-1, p, log @ map (cmd_of pa ?d) (take (Suc k) rs)
        @ map (cmd_of pd ?d) (take k rs))"
      using res assms(4,5) del_routes_spec [OF assms(1,3) exk] by (simp add: apply_iroutes_def)
    then show ?thesis using k False res by (intro disjI1 exI [of _ k]) auto
  qed
qed

section \<open>Example\<close>

definition demo_route_env :: route_env where
  "demo_route_env =
     \<lparr>ro_str = demo_str_env, ro_outcome = (\<lambda>n. Exited 0),
      ro_add_cmd = Some ''ip route add %R dev %D'', ro_del_cmd = Some ''ip route del %{RI} dev %{D}''\<rparr>"

definition demo_iroute_proc :: iroute_proc where
  "demo_iroute_proc = \<lparr>ir_iroutes = Some [''10.1.0.0/255.255.0.0'', ''10.2.0.0/255.255.0.0''], ir_dev = ''vpn0'', ir_applied = False\<rparr>"

lemma demo_routes_expand:
  "list_all (\<lambda>r. expands ''ip route add %R dev %D'' ''vpn0'' r \<and> expands ''ip route del %{RI} dev %{D}'' ''vpn0'' r)
     [''10.1.0.0/255.255.0.0'', ''10.2.0.0/255.255.0.0'']"
proof -
  have "list_all (\<lambda>(pat, r). route_plain ''vpn0'' r \<and> route_cmd pat ''vpn0'' r \<noteq> None \<and> text_bound (route_tab r ''vpn0'') pat \<le> 100)
     (List.product [''ip route add %R dev %D'', ''ip route del %{RI} dev %{D}''] [''10.1.0.0/255.255.0.0'', ''10.2.0.0/255.255.0.0''])"
    by code_simp
  moreover have "(100 :: nat) \<le> TEXT_LIMIT" by (simp add: TEXT_LIMIT_def)
  ultimately show ?thesis by (auto simp: expands_def dest: order_trans)
qed

theorem iroutes_transaction_witness:
  "apply_iroutes demo_route_env demo_iroute_proc [] = Some (0, demo_iroute_proc\<lparr>ir_applied := True\<rparr>,
     map (cmd_of ''ip route add %R dev %D'' ''vpn0'') [''10.1.0.0/255.255.0.0'', ''10.2.0.0/255.255.0.0''])"
  using iroutes_transaction [of demo_route_env "''ip route add %R dev %D''" "''ip route del %{RI} dev %{D}''"
      demo_iroute_proc "[''10.1.0.0/255.255.0.0'', ''10.2.0.0/255.255.0.0'']" "[]"] demo_routes_expand
  by (auto simp: demo_route_env_def demo_iroute_proc_def route_env_ok_def demo_str_env_ok)

end
