(* ===== verification/Sec_Types.thy ===== *)
theory Sec_Types
  imports Hash_Table
begin

text \<open>
  The state of the security module (\<^verbatim>\<open>src/src/sec-mod.h\<close>, \<^verbatim>\<open>sec-mod-auth.h\<close>, \<^verbatim>\<open>vhost.h\<close>,
  \<^verbatim>\<open>defs.h\<close>): the client entry behind every cookie, the virtual hosts with their
  authentication slots, the environment that answers the calls into libraries and
  authentication modules, and the messages and accounting calls the module emits.

  A virtual host is referred to by its name, which is how \<^verbatim>\<open>find_vhost\<close> resolves it; the
  optional callbacks of a module appear as the flags that say whether the module
  provides them, and the values they return come from the environment, so every
  theorem quantifies over all modules.
\<close>

unbundle bit_operations_syntax

section \<open>Authentication status\<close>

datatype ps_status =
  PS_AUTH_INACTIVE | PS_AUTH_FAILED | PS_AUTH_INIT | PS_AUTH_CONT | PS_AUTH_COMPLETED

fun ps_rank :: "ps_status \<Rightarrow> nat" where
  "ps_rank PS_AUTH_INACTIVE = 0"
| "ps_rank PS_AUTH_FAILED = 1"
| "ps_rank PS_AUTH_INIT = 2"
| "ps_rank PS_AUTH_CONT = 3"
| "ps_rank PS_AUTH_COMPLETED = 4"

text \<open>The enumeration is compared by its numeric value.\<close>

instantiation ps_status :: linorder
begin

definition less_eq_ps_status :: "ps_status \<Rightarrow> ps_status \<Rightarrow> bool" where
  "a \<le> b \<longleftrightarrow> ps_rank a \<le> ps_rank b"

definition less_ps_status :: "ps_status \<Rightarrow> ps_status \<Rightarrow> bool" where
  "a < b \<longleftrightarrow> ps_rank a < ps_rank b"

instance
proof
  fix a b :: ps_status
  show "a \<le> b \<Longrightarrow> b \<le> a \<Longrightarrow> a = b"
    by (cases a; cases b) (simp_all add: less_eq_ps_status_def)
qed (auto simp: less_eq_ps_status_def less_ps_status_def)

end

section \<open>Constants\<close>

abbreviation (input) SID_SIZE :: nat where "SID_SIZE \<equiv> 32"
abbreviation (input) SAFE_ID_SIZE :: nat where "SAFE_ID_SIZE \<equiv> 29"
abbreviation (input) HMAC_DIGEST_SIZE :: nat where "HMAC_DIGEST_SIZE \<equiv> 32"
abbreviation (input) AUTH_SLACK_TIME :: int where "AUTH_SLACK_TIME \<equiv> 15"
abbreviation (input) MAX_GROUPS :: nat where "MAX_GROUPS \<equiv> 512"
abbreviation (input) AUTH_TYPE_CERTIFICATE :: u32 where "AUTH_TYPE_CERTIFICATE \<equiv> 8"
abbreviation (input) CONFIDENTIAL_USER_NAME_AUTH_TYPES :: u32
  where "CONFIDENTIAL_USER_NAME_AUTH_TYPES \<equiv> 192"
abbreviation (input) REASON_USER_DISCONNECT :: nat where "REASON_USER_DISCONNECT \<equiv> 2"
abbreviation (input) REASON_SERVER_DISCONNECT :: nat where "REASON_SERVER_DISCONNECT \<equiv> 3"
abbreviation (input) REASON_SESSION_TIMEOUT :: nat where "REASON_SESSION_TIMEOUT \<equiv> 7"

text \<open>\<^verbatim>\<open>strlcpy\<close> into an array of \<open>n\<close> bytes.\<close>

definition strlcpy :: "nat \<Rightarrow> string \<Rightarrow> string" where
  "strlcpy n s = take (n - 1) s"

definition strlcpy_opt :: "nat \<Rightarrow> string option \<Rightarrow> string \<Rightarrow> string" where
  "strlcpy_opt n src old = (case src of None \<Rightarrow> old | Some s \<Rightarrow> strlcpy n s)"

section \<open>Records\<close>

record stats_st =
  bytes_in :: u64
  bytes_out :: u64

definition stats_zero :: stats_st where
  "stats_zero = \<lparr>bytes_in = 0, bytes_out = 0\<rparr>"

record common_acct_info_st =
  ai_username :: string
  ai_groupname :: string
  ai_safe_id :: string
  ai_remote_ip :: string
  ai_user_agent :: string
  ai_device_type :: string
  ai_device_platform :: string
  ai_our_ip :: string
  ai_ipv4 :: string
  ai_ipv6 :: string
  ai_id :: nat
  ai_uptime :: time_t

record auth_mod_st =
  am_allows_retries :: bool
  am_auth_group :: bool
  am_sso :: bool

record acct_mod_st =
  cm_open_session :: bool
  cm_session_stats :: bool
  cm_close_session :: bool

record auth_slot =
  as_enabled :: bool
  as_type :: u32
  as_amod :: "auth_mod_st option"

record vhost_cfg_st =
  vh_name :: "string option"
  vh_auth :: "auth_slot list"
  vh_acct :: "acct_mod_st option"
  vh_sup_config :: bool
  vh_cookie_timeout :: int
  vh_auth_timeout :: int
  vh_persistent_cookies :: bool
  vh_predictable_ips :: bool
  vh_max_ban_score :: u32
  vh_ban_points_wrong_password :: u32
  vh_cert_user_oid :: "string option"
  vh_cert_group_oid :: "string option"

record client_entry_st =
  ce_sid :: bytes
  ce_auth_ctx :: bool
  ce_session_is_open :: bool
  ce_in_use :: nat
  ce_tls_auth_ok :: bool
  ce_msg_str :: "string option"
  ce_passwd_counter :: nat
  ce_saved_stats :: stats_st
  ce_stats :: stats_st
  ce_status :: ps_status
  ce_created :: time_t
  ce_exptime :: time_t
  ce_auth_type :: u32
  ce_discon_reason :: nat
  ce_acct :: common_acct_info_st
  ce_req_group_name :: string
  ce_cert_group_names :: "string list"
  ce_cert_user_name :: string
  ce_module :: "auth_mod_st option"
  ce_vhost :: "string option"

record sec_mod_st =
  sec_db :: "client_entry_st list"
  sec_vconfig :: "vhost_cfg_st list"
  sec_auth_failures :: u64
  sec_max_auth_time :: u32
  sec_avg_auth_time :: u32
  sec_total_auth :: u32
  sec_index :: nat

section \<open>Virtual hosts\<close>

definition default_vhost :: "vhost_cfg_st list \<Rightarrow> vhost_cfg_st" where
  "default_vhost vs = last vs"

definition find_vhost :: "vhost_cfg_st list \<Rightarrow> string option \<Rightarrow> vhost_cfg_st" where
  "find_vhost vs name =
     (case name of
        None \<Rightarrow> default_vhost vs
      | Some n \<Rightarrow>
          (case find (\<lambda>v. case vh_name v of None \<Rightarrow> False | Some m \<Rightarrow> strcaseeq m n) vs of
             None \<Rightarrow> default_vhost vs | Some v \<Rightarrow> v))"

abbreviation vhost_of :: "sec_mod_st \<Rightarrow> client_entry_st \<Rightarrow> vhost_cfg_st" where
  "vhost_of sec e \<equiv> find_vhost (sec_vconfig sec) (ce_vhost e)"

section \<open>Environment and output\<close>

text \<open>
  What the calls of one request return: clock readings, allocations, \<^verbatim>\<open>gnutls_rnd\<close>
  (successive session ids, \<^term>\<open>None\<close> for a failure), \<^verbatim>\<open>send_msg\<close> to the peer of the
  request and of the ban message, the digests, and the callbacks of the
  authentication, accounting and configuration modules.
\<close>

record sec_env =
  sv_now :: time_t
  sv_now2 :: time_t
  sv_alloc :: bool
  sv_htadd :: bool
  sv_sids :: "bytes option list"
  sv_send :: int
  sv_ban_send :: int
  sv_safe_id :: "bytes \<Rightarrow> string"
  sv_hmac :: "string \<Rightarrow> string option \<Rightarrow> time_t \<Rightarrow> bytes"
  sv_seed :: "u32 option"
  sv_hash :: "string \<Rightarrow> u32"
  sv_dup_groups :: bool
  cb_auth_init :: "int \<times> bool"
  cb_auth_msg :: "int \<times> string option \<times> nat"
  cb_auth_pass :: int
  cb_auth_group :: "int \<times> string"
  cb_auth_user :: "string option"
  cb_open_session :: int
  cb_sup_config :: int

record session_rep =
  sr_sid :: bytes
  sr_username :: string
  sr_groupname :: string
  sr_user_agent :: string
  sr_device_platform :: string
  sr_device_type :: string
  sr_ip :: string
  sr_tls_auth_ok :: bool
  sr_vhost :: "string option"
  sr_ipv4_seed :: u32
  sr_session_start_time :: time_t

datatype sec_out =
    OutBanIp bytes string u32
  | OutAuthOk bytes string "string option"
  | OutAuthFailed
  | OutAuthMsg bytes "string option" nat
  | OutSessionOk session_rep
  | OutSessionFailed
  | OutCliStats u64 u64 "nat option"
  | OutAcctOpen bytes
  | OutAcctStats bytes u64 u64
  | OutAcctClose bytes stats_st nat bool
  | OutAuthDeinit bytes

text \<open>The return value, the new state and the messages of a request.\<close>

type_synonym sec_res = "int \<times> sec_mod_st \<times> sec_out list"

end
