(* ===== verification/Sec_Db.thy ===== *)
theory Sec_Db
  imports Sec_Types
begin

text \<open>
  The session database of the security module (\<^verbatim>\<open>src/src/sec-mod-db.c\<close>,
  \<^verbatim>\<open>sec-mod-cookies.c\<close>, and \<^verbatim>\<open>sec_auth_user_deinit\<close> of \<^verbatim>\<open>sec-mod-auth.c\<close>).  An entry is
  mutated through the pointer a lookup returned; here the changed entry is stored
  back under its session id, which never changes.
\<close>

section \<open>Session identifiers\<close>

definition sec_mod_instance_index_put :: "bytes \<Rightarrow> nat \<Rightarrow> bytes" where
  "sec_mod_instance_index_put out idx =
     out[0 := of_nat (drop_bit 8 idx) AND 0xff, 1 := of_nat idx AND 0xff]"

definition sec_mod_instance_index_get :: "bytes \<Rightarrow> nat" where
  "sec_mod_instance_index_get b = or (push_bit 8 (unat (b ! 0))) (unat (b ! 1))"

section \<open>Operations\<close>

definition IS_CLIENT_ENTRY_EXPIRED :: "client_entry_st \<Rightarrow> time_t \<Rightarrow> bool" where
  "IS_CLIENT_ENTRY_EXPIRED e now =
     (ce_exptime e \<noteq> -1 \<and> now \<ge> ce_exptime e \<and> ce_in_use e = 0)"

definition sec_auth_user_deinit :: "sec_mod_st \<Rightarrow> client_entry_st \<Rightarrow> bool \<Rightarrow> sec_out list" where
  "sec_auth_user_deinit sec e server_shutdown =
     (case vh_acct (vhost_of sec e) of
        None \<Rightarrow> []
      | Some m \<Rightarrow>
          if cm_close_session m \<and> ce_session_is_open e
          then [OutAcctClose (ce_sid e) (ce_saved_stats e) (ce_discon_reason e) server_shutdown]
          else []) @
     (if ce_auth_ctx e \<and> ce_module e \<noteq> None then [OutAuthDeinit (ce_sid e)] else [])"

definition sec_mod_client_db_init :: "sec_mod_st \<Rightarrow> sec_mod_st" where
  "sec_mod_client_db_init sec = sec\<lparr>sec_db := []\<rparr>"

definition deinit_entry :: "time_t \<Rightarrow> client_entry_st \<Rightarrow> client_entry_st" where
  "deinit_entry now t =
     (if ce_session_is_open t then
        let t1 = (if ce_in_use t \<noteq> 0
                  then t\<lparr>ce_acct := (ce_acct t)\<lparr>ai_uptime := now - ce_created t\<rparr>\<rparr> else t)
        in t1\<lparr>ce_saved_stats := \<lparr>bytes_in = bytes_in (ce_saved_stats t1) + bytes_in (ce_stats t1),
                                  bytes_out = bytes_out (ce_saved_stats t1) + bytes_out (ce_stats t1)\<rparr>,
              ce_stats := stats_zero\<rparr>
      else t)"

definition sec_mod_client_db_deinit :: "time_t \<Rightarrow> sec_mod_st \<Rightarrow> sec_mod_st \<times> sec_out list" where
  "sec_mod_client_db_deinit now sec =
     (sec\<lparr>sec_db := []\<rparr>,
      concat (map (\<lambda>t. sec_auth_user_deinit sec (deinit_entry now t) True) (sec_db sec)))"

definition sec_mod_client_db_elems :: "sec_mod_st \<Rightarrow> nat" where
  "sec_mod_client_db_elems sec = length (sec_db sec)"

definition client_entry_cmp :: "bytes \<Rightarrow> client_entry_st \<Rightarrow> bool" where
  "client_entry_cmp sid c = (ce_sid c = sid)"

definition find_client_entry :: "sec_mod_st \<Rightarrow> bytes \<Rightarrow> client_entry_st option" where
  "find_client_entry sec sid = htable_get (client_entry_cmp sid) (sec_db sec)"

definition find_client_entry_by_pid :: "sec_mod_st \<Rightarrow> nat \<Rightarrow> client_entry_st option" where
  "find_client_entry_by_pid sec pid =
     (if pid = 0 then None else find (\<lambda>t. ai_id (ce_acct t) = pid) (sec_db sec))"

text \<open>The changed entry, written back.\<close>

definition store_entry :: "client_entry_st \<Rightarrow> sec_mod_st \<Rightarrow> sec_mod_st" where
  "store_entry e sec = sec\<lparr>sec_db := htable_store (client_entry_cmp (ce_sid e)) e (sec_db sec)\<rparr>"

text \<open>
  The loop that draws a session id: it repeats while the id is taken and the counter
  \<^verbatim>\<open>retries\<close>, decremented after each test, is not negative.
\<close>

fun draw_sid :: "sec_mod_st \<Rightarrow> int \<Rightarrow> bytes option list \<Rightarrow> bytes option" where
  "draw_sid sec retries [] = None"
| "draw_sid sec retries (None # rs) = None"
| "draw_sid sec retries (Some r # rs) =
     (let sid = sec_mod_instance_index_put r (sec_index sec) in
      if find_client_entry sec sid = None then Some sid
      else if retries \<ge> 0 then draw_sid sec (retries - 1) rs
      else None)"

definition zero_acct :: common_acct_info_st where
  "zero_acct = \<lparr>ai_username = [], ai_groupname = [], ai_safe_id = [], ai_remote_ip = [],
     ai_user_agent = [], ai_device_type = [], ai_device_platform = [], ai_our_ip = [],
     ai_ipv4 = [], ai_ipv6 = [], ai_id = 0, ai_uptime = 0\<rparr>"

definition zero_entry :: client_entry_st where
  "zero_entry = \<lparr>ce_sid = replicate 32 0, ce_auth_ctx = False, ce_session_is_open = False,
     ce_in_use = 0, ce_tls_auth_ok = False, ce_msg_str = None, ce_passwd_counter = 0,
     ce_saved_stats = stats_zero, ce_stats = stats_zero, ce_status = PS_AUTH_INACTIVE,
     ce_created = 0, ce_exptime = 0, ce_auth_type = 0, ce_discon_reason = 0,
     ce_acct = zero_acct, ce_req_group_name = [], ce_cert_group_names = [],
     ce_cert_user_name = [], ce_module = None, ce_vhost = None\<rparr>"

definition new_client_entry ::
  "sec_env \<Rightarrow> string option \<Rightarrow> string option \<Rightarrow> nat \<Rightarrow> sec_mod_st \<Rightarrow> (client_entry_st \<times> sec_mod_st) option" where
  "new_client_entry env vhost ip pid sec =
     (if \<not> sv_alloc env then None
      else case draw_sid sec 3 (sv_sids env) of
             None \<Rightarrow> None
           | Some sid \<Rightarrow>
               let now = sv_now env;
                   e = zero_entry\<lparr>ce_sid := sid,
                         ce_acct := zero_acct\<lparr>ai_remote_ip := strlcpy_opt 46 ip [], ai_id := pid,
                                              ai_safe_id := sv_safe_id env sid\<rparr>,
                         ce_vhost := vhost,
                         ce_exptime := now + vh_cookie_timeout (find_vhost (sec_vconfig sec) vhost)
                                       + AUTH_SLACK_TIME,
                         ce_created := now\<rparr>
               in if \<not> sv_htadd env then None
                  else Some (e, sec\<lparr>sec_db := htable_add e (sec_db sec)\<rparr>))"

definition cleanup_client_entries :: "time_t \<Rightarrow> sec_mod_st \<Rightarrow> sec_mod_st \<times> sec_out list" where
  "cleanup_client_entries now sec =
     (sec\<lparr>sec_db := htable_purge (\<lambda>t. IS_CLIENT_ENTRY_EXPIRED t now) (sec_db sec)\<rparr>,
      concat (map (\<lambda>t. sec_auth_user_deinit sec t False)
                  (filter (\<lambda>t. IS_CLIENT_ENTRY_EXPIRED t now) (sec_db sec))))"

definition del_client_entry :: "client_entry_st \<Rightarrow> sec_mod_st \<Rightarrow> sec_mod_st \<times> sec_out list" where
  "del_client_entry e sec =
     (sec\<lparr>sec_db := htable_del (client_entry_cmp (ce_sid e)) (sec_db sec)\<rparr>,
      sec_auth_user_deinit sec e False)"

text \<open>\<open>e\<close> is the entry as the caller left it, already stored in the database.\<close>

definition expire_client_entry ::
  "time_t \<Rightarrow> client_entry_st \<Rightarrow> sec_mod_st \<Rightarrow> sec_mod_st \<times> sec_out list" where
  "expire_client_entry now e sec =
     (let e1 = (if ce_in_use e > 0 then e\<lparr>ce_in_use := ce_in_use e - 1\<rparr> else e);
          vh = vhost_of sec e; r = ce_discon_reason e
      in
      if ce_in_use e1 = 0 then
        (if \<not> vh_persistent_cookies vh \<and>
            (r = REASON_SERVER_DISCONNECT \<or> r = REASON_SESSION_TIMEOUT \<or>
             (ce_session_is_open e \<and> r = REASON_USER_DISCONNECT))
         then del_client_entry e1 sec
         else
           let exptime = (if r = REASON_USER_DISCONNECT then
                            (if \<not> vh_persistent_cookies vh \<or> now + AUTH_SLACK_TIME \<ge> ce_exptime e
                             then now + AUTH_SLACK_TIME else ce_exptime e)
                          else now + vh_cookie_timeout vh + AUTH_SLACK_TIME)
           in (store_entry (e1\<lparr>ce_exptime := exptime, ce_acct := (ce_acct e1)\<lparr>ai_id := 0\<rparr>\<rparr>) sec, []))
      else (store_entry e1 sec, []))"

definition terminate_user_sessions ::
  "string option \<Rightarrow> sec_mod_st \<Rightarrow> int \<times> sec_mod_st \<times> sec_out list" where
  "terminate_user_sessions username sec =
     (case username of
        None \<Rightarrow> (0, sec, [])
      | Some u \<Rightarrow>
          if u = [] then (0, sec, [])
          else
            let hit = (\<lambda>t. ai_username (ce_acct t) = u) in
            (if list_ex hit (sec_db sec) then 1 else 0,
             sec\<lparr>sec_db := htable_purge hit (sec_db sec)\<rparr>,
             concat (map (\<lambda>t. sec_auth_user_deinit sec t False) (filter hit (sec_db sec)))))"

definition terminate_session_by_sid ::
  "string option \<Rightarrow> sec_mod_st \<Rightarrow> int \<times> sec_mod_st \<times> sec_out list" where
  "terminate_session_by_sid safe_id sec =
     (case safe_id of
        None \<Rightarrow> (0, sec, [])
      | Some i \<Rightarrow>
          if length i \<noteq> SAFE_ID_SIZE - 1 then (0, sec, [])
          else
            let hit = (\<lambda>t. take (length i) (ai_safe_id (ce_acct t)) = i) in
            (case find hit (sec_db sec) of
               None \<Rightarrow> (0, sec, [])
             | Some t \<Rightarrow>
                 (1, sec\<lparr>sec_db := htable_del hit (sec_db sec)\<rparr>, sec_auth_user_deinit sec t False)))"

text \<open>The cookie list sent to the main process: the entries that have not expired.\<close>

record cookie_msg =
  ck_safe_id :: string
  ck_session_is_open :: bool
  ck_created :: time_t
  ck_expires :: time_t
  ck_username :: string
  ck_status :: ps_status
  ck_in_use :: nat

definition cookie_of :: "client_entry_st \<Rightarrow> cookie_msg" where
  "cookie_of t =
     \<lparr>ck_safe_id = ai_safe_id (ce_acct t), ck_session_is_open = ce_session_is_open t,
      ck_created = (if ce_created t > 0 then ce_created t else 0),
      ck_expires = (if ce_exptime t > 0 \<and> ce_in_use t = 0 then ce_exptime t else 0),
      ck_username = ai_username (ce_acct t), ck_status = ce_status t, ck_in_use = ce_in_use t\<rparr>"

definition handle_secm_list_cookies_reply :: "bool \<Rightarrow> time_t \<Rightarrow> sec_mod_st \<Rightarrow> cookie_msg list" where
  "handle_secm_list_cookies_reply alloc now sec =
     (if \<not> alloc then []
      else map cookie_of (filter (\<lambda>t. \<not> IS_CLIENT_ENTRY_EXPIRED t now) (sec_db sec)))"

end
