(* ===== verification/Sec_Auth.thy ===== *)
theory Sec_Auth
  imports Sec_Db
begin

text \<open>
  The request handlers of the security module (\<^verbatim>\<open>src/src/sec-mod-auth.c\<close>): the
  authentication of a client in one or several rounds, the opening and closing of
  its session on behalf of the main process, statistics, and the reaction to a ban.
  A reply counts as sent when \<^verbatim>\<open>send_msg\<close> returns a non-negative value.
\<close>

section \<open>Helpers\<close>

definition sec_mod_add_score_to_ip ::
  "sec_env \<Rightarrow> sec_mod_st \<Rightarrow> client_entry_st \<Rightarrow> string \<Rightarrow> u32 \<Rightarrow> sec_out list" where
  "sec_mod_add_score_to_ip env sec e ip points =
     (if vh_max_ban_score (vhost_of sec e) = 0 then []
      else if \<not> sv_alloc env then []
      else if sv_ban_send env < 0 then []
      else [OutBanIp (ce_sid e) ip points])"

definition update_auth_time_stats :: "time_t \<Rightarrow> sec_mod_st \<Rightarrow> sec_mod_st" where
  "update_auth_time_stats secs sec =
     (if secs < 0 then sec
      else
        let n = sec_total_auth sec + 1 in
        if n = 0 then sec\<lparr>sec_total_auth := 0, sec_avg_auth_time := 0, sec_max_auth_time := 0\<rparr>
        else sec\<lparr>sec_total_auth := n,
                  sec_max_auth_time := (if secs > uint (sec_max_auth_time sec) then of_int secs
                                        else sec_max_auth_time sec),
                  sec_avg_auth_time :=
                    ucast ((ucast (sec_avg_auth_time sec) * ucast (n - 1) + of_int secs)
                           div (ucast n :: u64))\<rparr>)"

definition send_sec_auth_reply ::
  "sec_env \<Rightarrow> client_entry_st \<Rightarrow> bool \<Rightarrow> sec_mod_st \<Rightarrow> int \<times> client_entry_st \<times> sec_mod_st \<times> sec_out list" where
  "send_sec_auth_reply env entry ok sec =
     (let sec1 = (if ok then update_auth_time_stats (sv_now2 env - ce_created entry) sec
                  else sec\<lparr>sec_auth_failures := sec_auth_failures sec + 1\<rparr>);
          msg = (if ok then OutAuthOk (ce_sid entry) (ai_username (ce_acct entry)) (ce_msg_str entry)
                 else OutAuthFailed)
      in if sv_send env < 0 then (sv_send env, entry, sec1, [])
         else (0, entry\<lparr>ce_msg_str := None\<rparr>, sec1, [msg]))"

definition send_sec_auth_reply_msg ::
  "sec_env \<Rightarrow> client_entry_st \<Rightarrow> int \<times> client_entry_st \<times> sec_out list" where
  "send_sec_auth_reply_msg env e =
     (sv_send env, e\<lparr>ce_msg_str := None\<rparr>,
      if sv_send env < 0 then []
      else [OutAuthMsg (ce_sid e) (ce_msg_str e) (ce_passwd_counter e)])"

text \<open>\<^term>\<open>None\<close> is the return value -1.\<close>

definition check_cert_user_group_status ::
  "sec_mod_st \<Rightarrow> client_entry_st \<Rightarrow> client_entry_st option" where
  "check_cert_user_group_status sec e =
     (let vh = vhost_of sec e; uoid = vh_cert_user_oid vh; goid = vh_cert_group_oid vh;
          user = ai_username (ce_acct e); group = ai_groupname (ce_acct e)
      in
      if ce_auth_type e AND AUTH_TYPE_CERTIFICATE = 0 then Some e
      else if uoid \<noteq> None \<and> ce_cert_user_name e = [] then None
      else if \<not> ce_tls_auth_ok e then None
      else if user = [] \<and> uoid \<noteq> None then
        (if ce_cert_user_name e = [] then None
         else Some (e\<lparr>ce_acct := (ce_acct e)
                \<lparr>ai_username := strlcpy 128 (ce_cert_user_name e),
                 ai_groupname :=
                   (case ce_cert_group_names e of
                      g # _ \<Rightarrow> if goid \<noteq> None \<and> group = [] then strlcpy 64 g else group
                    | [] \<Rightarrow> group)\<rparr>\<rparr>))
      else if uoid \<noteq> None \<and> ce_cert_user_name e \<noteq> [] \<and> user \<noteq> ce_cert_user_name e then None
      else if goid \<noteq> None \<and> group \<notin> set (ce_cert_group_names e) then None
      else Some e)"

text \<open>
  \<^verbatim>\<open>check_group\<close>: the group the module reports, at most 63 bytes of it, then the group
  requested by the user if the certificate carries it, then the certificate checks.  The group
  name is written into the entry before the later tests, so it stays there when one of them
  fails.
\<close>

definition asks_group_module :: "client_entry_st \<Rightarrow> bool" where
  "asks_group_module e = (case ce_module e of None \<Rightarrow> False | Some m \<Rightarrow> am_auth_group m)"

definition module_group :: "sec_env \<Rightarrow> client_entry_st \<Rightarrow> client_entry_st" where
  "module_group env e =
     (if asks_group_module e
      then e\<lparr>ce_acct := (ce_acct e)\<lparr>ai_groupname := strlcpy 64 (snd (cb_auth_group env))\<rparr>\<rparr>
      else e)"

definition wants_cert_group :: "sec_mod_st \<Rightarrow> client_entry_st \<Rightarrow> bool" where
  "wants_cert_group sec e \<longleftrightarrow>
     ce_auth_type e AND AUTH_TYPE_CERTIFICATE \<noteq> 0 \<and> ai_groupname (ce_acct e) = [] \<and>
     ce_req_group_name e \<noteq> [] \<and> vh_cert_group_oid (vhost_of sec e) \<noteq> None"

definition cert_group :: "sec_mod_st \<Rightarrow> client_entry_st \<Rightarrow> client_entry_st" where
  "cert_group sec e =
     (if wants_cert_group sec e \<and> ce_req_group_name e \<in> set (ce_cert_group_names e)
      then e\<lparr>ce_acct := (ce_acct e)\<lparr>ai_groupname := strlcpy 64 (ce_req_group_name e)\<rparr>\<rparr>
      else e)"

definition check_group :: "sec_env \<Rightarrow> sec_mod_st \<Rightarrow> client_entry_st \<Rightarrow> client_entry_st option" where
  "check_group env sec e =
     (if asks_group_module e \<and> fst (cb_auth_group env) \<noteq> 0 then None
      else
        let e1 = module_group env e in
        if wants_cert_group sec e1 \<and> ce_req_group_name e1 \<notin> set (ce_cert_group_names e1) then None
        else check_cert_user_group_status sec (cert_group sec e1))"

text \<open>The entry as a failing \<^verbatim>\<open>check_group\<close> leaves it.\<close>

definition check_group_left :: "sec_env \<Rightarrow> sec_mod_st \<Rightarrow> client_entry_st \<Rightarrow> client_entry_st" where
  "check_group_left env sec e =
     (let e1 = module_group env e in
      if asks_group_module e \<and> fst (cb_auth_group env) \<noteq> 0 then e1 else cert_group sec e1)"

section \<open>The result of an authentication round\<close>

text \<open>
  The call of \<^verbatim>\<open>auth_msg\<close>: \<^term>\<open>Inl\<close> with its negative return, or the entry with the message
  and whether the same password stage is asked again.
\<close>

definition auth_res_msg ::
  "sec_env \<Rightarrow> client_entry_st \<Rightarrow> int \<Rightarrow> int + (client_entry_st \<times> bool)" where
  "auth_res_msg env e result =
     (if (result = ERR_AUTH_CONTINUE \<or> result = 0) \<and> ce_module e \<noteq> None then
        (case cb_auth_msg env of (ret, str, counter) \<Rightarrow>
           if ret < 0 then Inl ret
           else Inr (e\<lparr>ce_msg_str := str, ce_passwd_counter := counter\<rparr>,
                     \<not> ce_passwd_counter e < counter))
      else Inr (e, True))"

definition auth_res_continue ::
  "sec_env \<Rightarrow> client_entry_st \<Rightarrow> bool \<Rightarrow> sec_mod_st \<Rightarrow> sec_res" where
  "auth_res_continue env e passwd_retries sec =
     (let ban = (if ce_status e \<noteq> PS_AUTH_INIT \<and>
                    (case ce_module e of None \<Rightarrow> False | Some m \<Rightarrow> am_allows_retries m) \<and> passwd_retries
                 then sec_mod_add_score_to_ip env sec e (ai_remote_ip (ce_acct e))
                        (vh_ban_points_wrong_password (vhost_of sec e))
                 else [])
      in case send_sec_auth_reply_msg env e of (ret, e1, out) \<Rightarrow>
           if ret < 0 then (ret, store_entry (e1\<lparr>ce_status := PS_AUTH_FAILED\<rparr>) sec, ban @ out)
           else (0, store_entry e1 sec, ban @ out))"

definition auth_res_success :: "sec_env \<Rightarrow> client_entry_st \<Rightarrow> sec_mod_st \<Rightarrow> sec_res" where
  "auth_res_success env e sec =
     (case check_group env sec e of
        None \<Rightarrow> (-1, store_entry ((check_group_left env sec e)\<lparr>ce_status := PS_AUTH_FAILED\<rparr>) sec, [])
      | Some e1 \<Rightarrow>
          let e2 = e1\<lparr>ce_status := PS_AUTH_COMPLETED\<rparr>;
              e3 = (case (ce_module e2, cb_auth_user env) of
                      (Some _, Some u) \<Rightarrow> e2\<lparr>ce_acct := (ce_acct e2)\<lparr>ai_username := strlcpy 128 u\<rparr>\<rparr>
                    | _ \<Rightarrow> e2)
          in (case send_sec_auth_reply env e3 True sec of (ret, e4, sec1, out) \<Rightarrow>
                if ret < 0 then (ret, store_entry (e4\<lparr>ce_status := PS_AUTH_FAILED\<rparr>) sec1, out)
                else (0, store_entry e4 sec1, out)))"

definition auth_res_failure :: "sec_env \<Rightarrow> client_entry_st \<Rightarrow> int \<Rightarrow> sec_mod_st \<Rightarrow> sec_res" where
  "auth_res_failure env e result sec =
     (let e1 = e\<lparr>ce_status := PS_AUTH_FAILED\<rparr>;
          ban = sec_mod_add_score_to_ip env sec e1 (ai_remote_ip (ce_acct e1))
                  (vh_ban_points_wrong_password (vhost_of sec e1))
      in (case send_sec_auth_reply env e1 False sec of (ret, e2, sec1, out) \<Rightarrow>
            (if ret < 0 then ret else if result < 0 then result else ERR_BAD_COMMAND,
             store_entry e2 sec1, ban @ out)))"

definition handle_sec_auth_res ::
  "sec_env \<Rightarrow> client_entry_st \<Rightarrow> int \<Rightarrow> sec_mod_st \<Rightarrow> sec_res" where
  "handle_sec_auth_res env e result sec =
     (case auth_res_msg env e result of
        Inl ret \<Rightarrow> (ret, store_entry (e\<lparr>ce_status := PS_AUTH_FAILED\<rparr>) sec, [])
      | Inr (e1, passwd_retries) \<Rightarrow>
          if result = ERR_AUTH_CONTINUE then auth_res_continue env e1 passwd_retries sec
          else if result = 0 \<and> ce_status e1 \<noteq> PS_AUTH_FAILED then auth_res_success env e1 sec
          else auth_res_failure env e1 result sec)"

section \<open>Sessions\<close>

definition stats_add_to :: "stats_st \<Rightarrow> stats_st \<Rightarrow> stats_st" where
  "stats_add_to a b = \<lparr>bytes_in = bytes_in a + bytes_in b, bytes_out = bytes_out a + bytes_out b\<rparr>"

definition send_failed_session_open_reply :: "sec_env \<Rightarrow> int \<times> sec_out list" where
  "send_failed_session_open_reply env =
     (if \<not> sv_alloc env then (ERR_BAD_COMMAND, [])
      else if sv_send env < 0 then (ERR_BAD_COMMAND, [])
      else (sv_send env, [OutSessionFailed]))"

definition session_open_reply :: "sec_env \<Rightarrow> client_entry_st \<Rightarrow> u32 \<Rightarrow> session_rep" where
  "session_open_reply env e seed =
     \<lparr>sr_sid = ce_sid e, sr_username = ai_username (ce_acct e), sr_groupname = ai_groupname (ce_acct e),
      sr_user_agent = ai_user_agent (ce_acct e), sr_device_platform = ai_device_platform (ce_acct e),
      sr_device_type = ai_device_type (ce_acct e), sr_ip = ai_remote_ip (ce_acct e),
      sr_tls_auth_ok = ce_tls_auth_ok e, sr_vhost = ce_vhost e, sr_ipv4_seed = seed,
      sr_session_start_time = ce_created e\<rparr>"

text \<open>
  The part of \<^verbatim>\<open>handle_secm_session_open_cmd\<close> after the entry has been marked open: the
  address seed, the additional configuration, the reply, and the refreshed cookie.
\<close>

definition session_open_finish ::
  "sec_env \<Rightarrow> client_entry_st \<Rightarrow> sec_mod_st \<Rightarrow> sec_out list \<Rightarrow> sec_res" where
  "session_open_finish env e sec out0 =
     (let vh = vhost_of sec e;
          seed = (if vh_predictable_ips vh then Some (sv_hash env (ai_username (ce_acct e)))
                  else sv_seed env)
      in case seed of
           None \<Rightarrow> (-1, store_entry e sec, out0)
         | Some sd \<Rightarrow>
             if \<not> sv_alloc env then (ERR_BAD_COMMAND, store_entry e sec, out0)
             else if vh_sup_config vh \<and> cb_sup_config env < 0 then
               (case send_failed_session_open_reply env of (ret, out) \<Rightarrow>
                  (ret, store_entry e sec, out0 @ out))
             else if sv_send env < 0 then (ERR_BAD_COMMAND, store_entry e sec, out0)
             else
               (0,
                store_entry (e\<lparr>ce_discon_reason := 0,
                               ce_exptime := sv_now2 env + vh_cookie_timeout vh + AUTH_SLACK_TIME,
                               ce_in_use := ce_in_use e + 1\<rparr>) sec,
                out0 @ [OutSessionOk (session_open_reply env e sd)]))"

definition handle_secm_session_open_cmd ::
  "sec_env \<Rightarrow> bytes \<Rightarrow> string option \<Rightarrow> string option \<Rightarrow> sec_mod_st \<Rightarrow> sec_res" where
  "handle_secm_session_open_cmd env sid ipv4 ipv6 sec =
     (case send_failed_session_open_reply env of (fret, fout) \<Rightarrow>
        if length sid \<noteq> SID_SIZE then (fret, sec, fout)
        else if sec_mod_instance_index_get sid \<noteq> sec_index sec then (fret, sec, fout)
        else (case find_client_entry sec sid of
               None \<Rightarrow> (fret, sec, fout)
             | Some e \<Rightarrow>
                 if ce_status e \<noteq> PS_AUTH_COMPLETED then (fret, sec, fout)
                 else if IS_CLIENT_ENTRY_EXPIRED e (sv_now env) then
                   (fret, store_entry (e\<lparr>ce_status := PS_AUTH_FAILED\<rparr>) sec, fout)
                 else
                   let e1 = e\<lparr>ce_acct := (ce_acct e)
                              \<lparr>ai_ipv4 := strlcpy_opt 46 ipv4 (ai_ipv4 (ce_acct e)),
                               ai_ipv6 := strlcpy_opt 46 ipv6 (ai_ipv6 (ce_acct e))\<rparr>\<rparr>;
                       acct = (case vh_acct (vhost_of sec e) of None \<Rightarrow> False | Some m \<Rightarrow> cm_open_session m)
                   in
                   if acct \<and> \<not> ce_session_is_open e then
                     (if cb_open_session env < 0 then
                        (fret, store_entry (e1\<lparr>ce_status := PS_AUTH_FAILED\<rparr>) sec, fout)
                      else session_open_finish env (e1\<lparr>ce_session_is_open := True\<rparr>) sec [OutAcctOpen sid])
                   else session_open_finish env (e1\<lparr>ce_session_is_open := True\<rparr>) sec []))"

record session_close_req =
  cr_sid :: bytes
  cr_bytes_in :: "u64 option"
  cr_bytes_out :: "u64 option"
  cr_server_disconnected :: bool

definition raise_to :: "u64 option \<Rightarrow> u64 \<Rightarrow> u64" where
  "raise_to new old = (case new of None \<Rightarrow> old | Some n \<Rightarrow> if n > old then n else old)"

definition handle_secm_session_close_cmd ::
  "sec_env \<Rightarrow> session_close_req \<Rightarrow> sec_mod_st \<Rightarrow> sec_res" where
  "handle_secm_session_close_cmd env req sec =
     (let nostats = (sv_send env, sec, if sv_send env < 0 then [] else [OutCliStats 0 0 None]) in
      if length (cr_sid req) \<noteq> SID_SIZE then (ERR_BAD_COMMAND, sec, [])
      else case find_client_entry sec (cr_sid req) of
             None \<Rightarrow> nostats
           | Some e \<Rightarrow>
               if ce_status e < PS_AUTH_COMPLETED then nostats
               else
                 let e1 = e\<lparr>ce_acct := (ce_acct e)\<lparr>ai_uptime := sv_now env - ce_created e\<rparr>,
                           ce_stats := \<lparr>bytes_in = raise_to (cr_bytes_in req) (bytes_in (ce_stats e)),
                                        bytes_out = raise_to (cr_bytes_out req) (bytes_out (ce_stats e))\<rparr>,
                           ce_discon_reason := (if cr_server_disconnected req
                                                then REASON_SERVER_DISCONNECT else ce_discon_reason e)\<rparr>
                 in
                 if sv_send env < 0 then (ERR_BAD_COMMAND, store_entry e1 sec, [])
                 else
                   let e2 = e1\<lparr>ce_saved_stats := stats_add_to (ce_saved_stats e1) (ce_stats e1),
                              ce_stats := stats_zero\<rparr>
                   in (case expire_client_entry (sv_now2 env) e2 (store_entry e2 sec) of (sec', out) \<Rightarrow>
                         (0, sec',
                          OutCliStats (bytes_in (ce_stats e1)) (bytes_out (ce_stats e1))
                            (Some (ce_discon_reason e1)) # out)))"

definition handle_sec_auth_ban_ip_reply :: "bytes \<Rightarrow> bool \<Rightarrow> sec_mod_st \<Rightarrow> sec_mod_st" where
  "handle_sec_auth_ban_ip_reply sid reply_ok sec =
     (if length sid \<noteq> SID_SIZE then sec
      else case find_client_entry sec sid of
             None \<Rightarrow> sec
           | Some e \<Rightarrow>
               if \<not> reply_ok then store_entry (e\<lparr>ce_status := PS_AUTH_FAILED\<rparr>) sec else sec)"

record cli_stats_req =
  st_sid :: bytes
  st_bytes_in :: u64
  st_bytes_out :: u64
  st_discon_reason :: "nat option"
  st_remote_ip :: "string option"
  st_ipv4 :: "string option"
  st_ipv6 :: "string option"

definition handle_sec_auth_stats_cmd ::
  "sec_env \<Rightarrow> cli_stats_req \<Rightarrow> nat \<Rightarrow> sec_mod_st \<Rightarrow> sec_res" where
  "handle_sec_auth_stats_cmd env req pid sec =
     (if length (st_sid req) \<noteq> SID_SIZE then (-1, sec, [])
      else case find_client_entry sec (st_sid req) of
             None \<Rightarrow> (-1, sec, [])
           | Some e \<Rightarrow>
               if ce_status e \<noteq> PS_AUTH_COMPLETED then (-1, sec, [])
               else
                 let e1 = e\<lparr>ce_stats := \<lparr>bytes_in = raise_to (Some (st_bytes_in req)) (bytes_in (ce_stats e)),
                                        bytes_out = raise_to (Some (st_bytes_out req)) (bytes_out (ce_stats e))\<rparr>,
                           ce_discon_reason :=
                             (case st_discon_reason req of None \<Rightarrow> ce_discon_reason e
                              | Some r \<Rightarrow> if r \<noteq> 0 then r else ce_discon_reason e),
                           ce_acct := (ce_acct e)\<lparr>ai_id := pid\<rparr>\<rparr>
                 in
                 if (case vh_acct (vhost_of sec e) of None \<Rightarrow> True | Some m \<Rightarrow> \<not> cm_session_stats m)
                 then (0, store_entry e1 sec, [])
                 else
                   let totals = stats_add_to (ce_stats e1) (ce_saved_stats e1);
                       e2 = e1\<lparr>ce_acct := (ce_acct e1)
                              \<lparr>ai_remote_ip := strlcpy_opt 46 (st_remote_ip req) (ai_remote_ip (ce_acct e1)),
                               ai_ipv4 := strlcpy_opt 46 (st_ipv4 req) (ai_ipv4 (ce_acct e1)),
                               ai_ipv6 := strlcpy_opt 46 (st_ipv6 req) (ai_ipv6 (ce_acct e1)),
                               ai_uptime := sv_now env - ce_created e1\<rparr>\<rparr>
                   in (0, store_entry e2 sec,
                       [OutAcctStats (ce_sid e2) (bytes_in totals) (bytes_out totals)]))"

section \<open>Authentication requests\<close>

definition handle_sec_auth_cont ::
  "sec_env \<Rightarrow> bytes \<Rightarrow> string option \<Rightarrow> sec_mod_st \<Rightarrow> sec_res" where
  "handle_sec_auth_cont env sid password sec =
     (if length sid \<noteq> SID_SIZE then (-1, sec, [])
      else (case find_client_entry sec sid of
              None \<Rightarrow> (-1, sec, [])
            | Some e \<Rightarrow>
                if ce_status e \<noteq> PS_AUTH_INIT \<and> ce_status e \<noteq> PS_AUTH_CONT then
                  handle_sec_auth_res env e (-1) sec
                else if password = None then handle_sec_auth_res env e (-1) sec
                else if ce_module e = None then handle_sec_auth_res env e (-1) sec
                else handle_sec_auth_res env (e\<lparr>ce_status := PS_AUTH_CONT\<rparr>) (cb_auth_pass env) sec))"

definition set_module :: "sec_mod_st \<Rightarrow> client_entry_st \<Rightarrow> u32 \<Rightarrow> client_entry_st option" where
  "set_module sec e auth_type =
     (if auth_type = 0 then None
      else map_option (\<lambda>a. e\<lparr>ce_module := as_amod a, ce_auth_type := as_type a\<rparr>)
             (find (\<lambda>a. as_enabled a \<and> as_type a AND auth_type = auth_type)
                   (vh_auth (vhost_of sec e))))"

definition find_sso_module :: "vhost_cfg_st \<Rightarrow> auth_mod_st option" where
  "find_sso_module vh =
     Option.bind
       (find (\<lambda>a. as_enabled a \<and> (case as_amod a of None \<Rightarrow> False | Some m \<Rightarrow> am_sso m)) (vh_auth vh))
       as_amod"

record auth_init_req =
  rq_hmac :: "bytes option"
  rq_session_start_time :: time_t
  rq_orig_remote_ip :: "string option"
  rq_our_ip :: "string option"
  rq_vhost :: "string option"
  rq_remote_ip :: "string option"
  rq_auth_type :: u32
  rq_user_name :: "string option"
  rq_tls_auth_ok :: bool
  rq_device_platform :: "string option"
  rq_device_type :: "string option"
  rq_user_agent :: "string option"
  rq_group_name :: "string option"
  rq_cert_user_name :: "string option"
  rq_cert_group_names :: "string list"

text \<open>The fields copied from the request once the module has accepted to start.\<close>

definition auth_init_fill :: "sec_env \<Rightarrow> auth_init_req \<Rightarrow> client_entry_st \<Rightarrow> client_entry_st" where
  "auth_init_fill env req e =
     e\<lparr>ce_tls_auth_ok := rq_tls_auth_ok req,
       ce_acct := (ce_acct e)
         \<lparr>ai_device_platform := strlcpy_opt 64 (rq_device_platform req) (ai_device_platform (ce_acct e)),
          ai_device_type := strlcpy_opt 64 (rq_device_type req) (ai_device_type (ce_acct e)),
          ai_user_agent := strlcpy_opt 64 (rq_user_agent req) (ai_user_agent (ce_acct e)),
          ai_username :=
            (if rq_auth_type req AND CONFIDENTIAL_USER_NAME_AUTH_TYPES = 0
             then strlcpy_opt 128 (rq_user_name req) (ai_username (ce_acct e))
             else ai_username (ce_acct e)),
          ai_our_ip := strlcpy_opt 46 (rq_our_ip req) (ai_our_ip (ce_acct e))\<rparr>,
       ce_req_group_name := strlcpy_opt 64 (rq_group_name req) (ce_req_group_name e),
       ce_cert_user_name := strlcpy_opt 64 (rq_cert_user_name req) (ce_cert_user_name e),
       ce_cert_group_names := (if sv_dup_groups env then take MAX_GROUPS (rq_cert_group_names req) else []),
       ce_status := PS_AUTH_INIT\<rparr>"

text \<open>What follows the creation of the entry.\<close>

definition auth_init_start ::
  "sec_env \<Rightarrow> auth_init_req \<Rightarrow> client_entry_st \<Rightarrow> sec_mod_st \<Rightarrow> sec_res" where
  "auth_init_start env req e sec =
     (case set_module sec e (rq_auth_type req) of
        None \<Rightarrow> handle_sec_auth_res env e (-1) sec
      | Some e1 \<Rightarrow>
          (case ce_module e1 of
             None \<Rightarrow> handle_sec_auth_res env (auth_init_fill env req e1) 0 sec
           | Some _ \<Rightarrow>
               (case cb_auth_init env of (ret, ctx) \<Rightarrow>
                  let e2 = e1\<lparr>ce_auth_ctx := ctx\<rparr> in
                  if ret = ERR_AUTH_CONTINUE
                  then handle_sec_auth_res env (auth_init_fill env req e2) ERR_AUTH_CONTINUE sec
                  else if ret < 0 then handle_sec_auth_res env e2 ret sec
                  else handle_sec_auth_res env (auth_init_fill env req e2) 0 sec)))"

text \<open>The authenticity and freshness of the parameters the main process signed.\<close>

definition auth_init_params_ok :: "sec_env \<Rightarrow> auth_init_req \<Rightarrow> sec_mod_st \<Rightarrow> bool" where
  "auth_init_params_ok env req sec =
     (case (rq_hmac req, rq_orig_remote_ip req) of
        (Some h, Some ip) \<Rightarrow>
          length h = HMAC_DIGEST_SIZE \<and>
          sv_hmac env ip (rq_our_ip req) (rq_session_start_time req) = h \<and>
          \<not> sv_now env - rq_session_start_time req >
              vh_auth_timeout (find_vhost (sec_vconfig sec) (rq_vhost req))
      | _ \<Rightarrow> False)"

definition handle_sec_auth_init ::
  "sec_env \<Rightarrow> auth_init_req \<Rightarrow> nat \<Rightarrow> sec_mod_st \<Rightarrow> sec_res" where
  "handle_sec_auth_init env req pid sec =
     (if \<not> auth_init_params_ok env req sec then (-1, sec, [])
      else
        let vhost = vh_name (find_vhost (sec_vconfig sec) (rq_vhost req));
            create = (\<lambda>sec1 out1.
              case new_client_entry env vhost (rq_remote_ip req) pid sec1 of
                None \<Rightarrow> (-1, sec1, out1)
              | Some (e, sec2) \<Rightarrow>
                  (case auth_init_start env req e sec2 of (ret, sec3, out3) \<Rightarrow> (ret, sec3, out1 @ out3)))
        in
        (case find_client_entry_by_pid sec pid of
           None \<Rightarrow> create sec []
         | Some old \<Rightarrow>
             if ce_status old = PS_AUTH_FAILED \<and> ce_in_use old = 0
             then (case del_client_entry old sec of (sec1, out1) \<Rightarrow> create sec1 out1)
             else (-1, sec,
                   sec_mod_add_score_to_ip env sec old (ai_remote_ip (ce_acct old))
                     (vh_ban_points_wrong_password (vhost_of sec old)))))"

end
