(* ===== verification/Main_Types.thy ===== *)
theory Main_Types
  imports Sock_Addr Main_Ban Ip_Lease Route_Add Sec_Auth
begin

text \<open>
  The state of the main process (\<^verbatim>\<open>src/src/main.h\<close>, \<^verbatim>\<open>ipc.proto\<close>, \<^verbatim>\<open>cfg.proto\<close>, \<^verbatim>\<open>defs.h\<close>).
  Every worker is described by a \<^verbatim>\<open>proc_st\<close>; it is referred to by pointers from the process
  list, the list of running connect scripts and the four hash tables of \<^verbatim>\<open>proc-search.c\<close>, so it
  lives in a heap, a map from addresses to records.  A freed process has no record any more,
  and an allocation takes a new address.

  The security module is reached over a socket on which main waits for the reply.  Its state
  is a type parameter of the server state, and its answers to the two synchronous requests
  are functions of the environment, so the composition with the model of the security module
  is an instance.  \<^verbatim>\<open>CAPTURE_LATENCY_SUPPORT\<close> and \<^verbatim>\<open>ANYCONNECT_CLIENT_COMPAT\<close> are defined, the
  platform is Linux.
\<close>

section \<open>Configuration\<close>

record fw_port_st =
  fp_port :: u32
  fp_proto :: u32
  fp_negate :: u32

text \<open>
  The \<^verbatim>\<open>group_cfg_st\<close> message.  An optional scalar is an option (the \<^verbatim>\<open>has_\<close> flag); a repeated
  field is \<^term>\<open>None\<close> when its pointer is NULL.
\<close>

record group_cfg_st =
  gc_interim_update_secs :: "u32 option"
  gc_session_timeout_secs :: "u32 option"
  gc_no_udp :: "bool option"
  gc_deny_roaming :: "bool option"
  gc_routes :: "string list option"
  gc_iroutes :: "string list option"
  gc_dns :: "string list option"
  gc_nbns :: "string list option"
  gc_ipv4_net :: "string option"
  gc_ipv4_netmask :: "string option"
  gc_ipv6_net :: "string option"
  gc_ipv6_prefix :: "u32 option"
  gc_xml_config_file :: "string option"
  gc_rx_per_sec :: "u32 option"
  gc_tx_per_sec :: "u32 option"
  gc_net_priority :: "u32 option"
  gc_explicit_ipv4 :: "string option"
  gc_explicit_ipv6 :: "string option"
  gc_no_routes :: "string list option"
  gc_ipv6_subnet_prefix :: "u32 option"
  gc_dpd :: "u32 option"
  gc_mobile_dpd :: "u32 option"
  gc_keepalive :: "u32 option"
  gc_max_same_clients :: "u32 option"
  gc_tunnel_all_dns :: "u32 option"
  gc_restrict_user_to_routes :: "bool option"
  gc_mtu :: "u32 option"
  gc_idle_timeout :: "u32 option"
  gc_mobile_idle_timeout :: "u32 option"
  gc_fw_ports :: "fw_port_st list"
  gc_split_dns :: "string list option"
  gc_client_bypass_protocol :: "u32 option"

text \<open>The part of the configuration of a virtual host that main reads; the signed session timeout is the word of its bits.\<close>

record network_cfg =
  nw_name :: string
  nw_routes :: "string list"
  nw_no_routes :: "string list"
  nw_dns :: "string list"
  nw_nbns :: "string list"
  nw_ipv4_network :: "string option"
  nw_ipv4_netmask :: "string option"
  nw_ipv6_network :: "string option"
  nw_ipv6_prefix :: u32
  nw_ipv6_subnet_prefix :: u32
  nw_mtu :: u32

record reloadable_cfg =
  rc_network :: network_cfg
  rc_no_udp :: bool
  rc_split_dns :: "string list"
  rc_stats_report_time :: u32
  rc_session_timeout :: u64
  rc_deny_roaming :: bool
  rc_xml_config_file :: "string option"
  rc_client_bypass_protocol :: u32
  rc_rx_per_sec :: u64
  rc_tx_per_sec :: u64
  rc_net_priority :: u32
  rc_keepalive :: u32
  rc_dpd :: u32
  rc_mobile_dpd :: u32
  rc_max_same_clients :: u32
  rc_tunnel_all_dns :: u32
  rc_restrict_user_to_routes :: bool
  rc_idle_timeout :: u32
  rc_mobile_idle_timeout :: u32
  rc_fw_ports :: "fw_port_st list"
  rc_known_iroutes :: "string list"
  rc_append_routes :: bool
  rc_default_mtu :: u32
  rc_connect_script :: "string option"
  rc_host_update_script :: "string option"
  rc_disconnect_script :: "string option"
  rc_listen_proxy_proto :: bool
  rc_max_clients :: u32
  rc_auth_timeout :: int
  rc_dtls_psk :: bool

record static_cfg_st =
  sc_stats_reset_time :: int
  sc_uid :: int
  sc_gid :: int
  sc_udp_port :: nat

text \<open>A virtual host; \<^verbatim>\<open>usage_count\<close> is the address of a counter of its configuration.\<close>

record main_vhost =
  mv_name :: "string option"
  mv_config :: reloadable_cfg
  mv_static :: static_cfg_st
  mv_usage :: nat

section \<open>Processes\<close>

record proc_st =
  p_fd :: int
  p_pid :: int
  p_pid_killed :: bool
  p_udp_fd_receive_time :: time_t
  p_conn_time :: time_t
  p_tun_name :: string
  p_tun_fd :: int
  p_ipv4 :: "ip_lease_st option"
  p_ipv6 :: "ip_lease_st option"
  p_remote :: saddr
  p_dtls_remote :: saddr
  p_our :: saddr
  p_sid :: bytes
  p_active_sid :: bool
  p_session_start_time :: time_t
  p_invalidated :: bool
  p_host_updated :: bool
  p_dtls_session_id :: bytes
  p_dtls_session_id_size :: nat
  p_username :: string
  p_groupname :: string
  p_hostname :: string
  p_user_agent :: string
  p_device_type :: string
  p_device_platform :: string
  p_tls_ciphersuite :: string
  p_dtls_ciphersuite :: string
  p_cstp_compr :: string
  p_dtls_compr :: string
  p_mtu :: u32
  p_sec_mod_index :: nat
  p_ipv4_seed :: bytes
  p_status :: ps_status
  p_bytes_in :: u64
  p_bytes_out :: u64
  p_discon_reason :: nat
  p_applied_iroutes :: bool
  p_config :: "group_cfg_st option"
  p_usage :: "nat option"
  p_vhost :: "nat option"

text \<open>The zeroed structure of \<^verbatim>\<open>talloc_zero\<close>.\<close>

definition proc_zero :: proc_st where
  "proc_zero =
     \<lparr>p_fd = 0, p_pid = 0, p_pid_killed = False, p_udp_fd_receive_time = 0, p_conn_time = 0,
      p_tun_name = [], p_tun_fd = 0, p_ipv4 = None, p_ipv6 = None,
      p_remote = saddr_zero, p_dtls_remote = saddr_zero, p_our = saddr_zero,
      p_sid = replicate SID_SIZE 0, p_active_sid = False, p_session_start_time = 0,
      p_invalidated = False, p_host_updated = False,
      p_dtls_session_id = replicate 32 0, p_dtls_session_id_size = 0,
      p_username = [], p_groupname = [], p_hostname = [], p_user_agent = [], p_device_type = [],
      p_device_platform = [], p_tls_ciphersuite = [], p_dtls_ciphersuite = [],
      p_cstp_compr = [], p_dtls_compr = [], p_mtu = 0, p_sec_mod_index = 0,
      p_ipv4_seed = replicate 4 0, p_status = PS_AUTH_INACTIVE, p_bytes_in = 0, p_bytes_out = 0,
      p_discon_reason = 0, p_applied_iroutes = False, p_config = None, p_usage = None,
      p_vhost = None\<rparr>"

text \<open>A bucket of a process table: the hash at which the entry was added, and the process.\<close>

type_synonym proc_tbl = "(nat \<times> nat) list"

record proc_hash_db_st =
  db_ip :: proc_tbl
  db_dtls_ip :: proc_tbl
  db_dtls_id :: proc_tbl
  db_sid :: proc_tbl
  pt_total :: nat

section \<open>Statistics\<close>

record latency_stats_st =
  ls_median_total :: u64
  ls_rms_total :: u64
  ls_sample_count :: u64

record main_stats_st =
  st_session_timeouts :: u64
  st_session_idle_timeouts :: u64
  st_session_errors :: u64
  st_sessions_closed :: u64
  st_kbytes_in :: u64
  st_kbytes_out :: u64
  st_min_mtu :: u32
  st_max_mtu :: u32
  st_active_clients :: u32
  st_last_reset :: time_t
  st_avg_session_mins :: u32
  st_max_session_mins :: u32
  st_auth_failures :: u64
  st_total_auth_failures :: u64
  st_total_sessions_closed :: u64
  st_current_latency :: latency_stats_st
  st_delta_latency :: latency_stats_st

record sec_mod_instance_st =
  si_client_entries :: u32
  si_tlsdb_entries :: u32
  si_avg_auth_time :: u32
  si_max_auth_time :: u32

section \<open>Server state and trace\<close>

datatype script_type = SCRIPT_CONNECT | SCRIPT_HOST_UPDATE | SCRIPT_DISCONNECT

text \<open>What the process does to the outside, in order.\<close>

datatype main_out =
    OutSecOpen nat bytes "string option" "string option"
  | OutSecClose nat session_close_req
  | OutCookieOk nat int bytes string
  | OutCookieFailed nat
  | OutBanReply nat bool
  | OutSecBanReply nat bytes
  | OutKill int
  | OutScript script_type nat string "string option"
  | OutUserUp nat
  | OutUserDown nat
  | OutIf4 string bytes bytes
  | OutIf6 string bytes bytes nat
  | OutMtu string u32
  | OutUdpFd nat bool bytes
  | OutFailedSend nat

record 's main_server_st =
  ms_vconfig :: "main_vhost list"
  ms_usage :: "nat \<Rightarrow> nat"
  ms_leases :: lease_db
  ms_ban :: ban_server
  ms_heap :: "nat \<Rightarrow> proc_st option"
  ms_next :: nat
  ms_procs :: "nat list"
  ms_scripts :: "(int \<times> nat) list"
  ms_table :: proc_hash_db_st
  ms_stats :: main_stats_st
  ms_instances :: "sec_mod_instance_st list"
  ms_route_log :: cmd_log
  ms_sec :: 's
  ms_exited :: bool
  ms_abnormal :: bool
  ms_trace :: "main_out list"

definition default_mvhost :: "'s main_server_st \<Rightarrow> main_vhost" where
  "default_mvhost s = last (ms_vconfig s)"

abbreviation GETRCONFIG :: "'s main_server_st \<Rightarrow> reloadable_cfg" where
  "GETRCONFIG s \<equiv> mv_config (default_mvhost s)"

abbreviation GETSCONFIG :: "'s main_server_st \<Rightarrow> static_cfg_st" where
  "GETSCONFIG s \<equiv> mv_static (default_mvhost s)"

text \<open>\<^verbatim>\<open>find_vhost\<close> of \<^verbatim>\<open>vhost.h\<close>, as an index into the list.\<close>

fun vhost_named :: "string \<Rightarrow> main_vhost list \<Rightarrow> nat option" where
  "vhost_named n [] = None"
| "vhost_named n (v # vs) =
     (if (case mv_name v of None \<Rightarrow> False | Some m \<Rightarrow> strcaseeq m n) then Some 0
      else map_option Suc (vhost_named n vs))"

definition find_mvhost :: "main_vhost list \<Rightarrow> string option \<Rightarrow> nat" where
  "find_mvhost vs name =
     (case name of
        None \<Rightarrow> length vs - 1
      | Some n \<Rightarrow> (case vhost_named n vs of None \<Rightarrow> length vs - 1 | Some i \<Rightarrow> i))"

definition emit :: "main_out \<Rightarrow> 's main_server_st \<Rightarrow> 's main_server_st" where
  "emit ev s = s\<lparr>ms_trace := ms_trace s @ [ev]\<rparr>"

definition put_proc :: "nat \<Rightarrow> proc_st \<Rightarrow> 's main_server_st \<Rightarrow> 's main_server_st" where
  "put_proc i p s = s\<lparr>ms_heap := (ms_heap s)(i \<mapsto> p)\<rparr>"

definition upd_proc :: "nat \<Rightarrow> (proc_st \<Rightarrow> proc_st) \<Rightarrow> 's main_server_st \<Rightarrow> 's main_server_st" where
  "upd_proc i f s = (case ms_heap s i of None \<Rightarrow> s | Some p \<Rightarrow> put_proc i (f p) s)"

definition upd_stats :: "(main_stats_st \<Rightarrow> main_stats_st) \<Rightarrow> 's main_server_st \<Rightarrow> 's main_server_st" where
  "upd_stats f s = s\<lparr>ms_stats := f (ms_stats s)\<rparr>"

end
