(* ===== verification/Main_Config.thy ===== *)
theory Main_Config
  imports Main_Types
begin

text \<open>
  The defaults of a session (\<^verbatim>\<open>append_routes\<close> and \<^verbatim>\<open>apply_default_config\<close> of
  \<^verbatim>\<open>src/src/main-sec-mod-cmd.c\<close>): the per-user configuration that the security module sends is
  completed from the virtual host.  The arrays of routes are allocated with a computed
  capacity and filled with one \<^verbatim>\<open>talloc_strdup\<close> per element; a write behind the capacity is
  \<^term>\<open>None\<close>, and a failing copy ends the loop it occurs in.
\<close>

section \<open>Operations\<close>

record cfg_env =
  cf_alloc_routes :: bool
  cf_alloc_no_routes :: bool
  cf_dup :: "nat \<Rightarrow> bool"

text \<open>One of the copy loops: \<^term>\<open>k\<close> counts the copies, \<^term>\<open>cap\<close> is the size of the array.\<close>

fun dup_loop :: "(nat \<Rightarrow> bool) \<Rightarrow> nat \<Rightarrow> nat \<Rightarrow> string list \<Rightarrow> string list \<Rightarrow> (string list \<times> nat) option" where
  "dup_loop dup cap k acc [] = Some (acc, k)"
| "dup_loop dup cap k acc (r # rs) =
     (if cap \<le> length acc then None
      else if \<not> dup k then Some (acc, k + 1)
      else dup_loop dup cap (k + 1) (acc @ [r]) rs)"

definition items :: "string list option \<Rightarrow> string list" where
  "items ro = (case ro of None \<Rightarrow> [] | Some rs \<Rightarrow> rs)"

text \<open>The known routes of other users.\<close>

definition foreign_iroutes :: "reloadable_cfg \<Rightarrow> group_cfg_st \<Rightarrow> string list" where
  "foreign_iroutes cfg gc = filter (\<lambda>r. r \<notin> set (items (gc_iroutes gc))) (rc_known_iroutes cfg)"

definition append_no_routes :: "cfg_env \<Rightarrow> network_cfg \<Rightarrow> nat \<Rightarrow> group_cfg_st \<Rightarrow> group_cfg_st option" where
  "append_no_routes env nw k gc =
     (if nw_no_routes nw = [] then Some gc
      else if \<not> cf_alloc_no_routes env then Some gc
      else
        let old = items (gc_no_routes gc); cap = length old + length (nw_no_routes nw) in
        (case dup_loop (cf_dup env) cap k [] old of
           None \<Rightarrow> None
         | Some (rs, k1) \<Rightarrow>
             (case dup_loop (cf_dup env) cap k1 rs (nw_no_routes nw) of
                None \<Rightarrow> None
              | Some (rs', k2) \<Rightarrow> Some (gc\<lparr>gc_no_routes := Some rs'\<rparr>))))"

definition append_routes :: "cfg_env \<Rightarrow> reloadable_cfg \<Rightarrow> group_cfg_st \<Rightarrow> group_cfg_st option" where
  "append_routes env cfg gc =
     (if rc_known_iroutes cfg = [] \<and> \<not> rc_append_routes cfg then Some gc
      else if \<not> cf_alloc_routes env then Some gc
      else
        let old = items (gc_routes gc);
            cap = length old + length (rc_known_iroutes cfg) +
                  (if rc_append_routes cfg then length (nw_routes (rc_network cfg)) else 0)
        in
        (case dup_loop (cf_dup env) cap 0 [] old of
           None \<Rightarrow> None
         | Some (r1, k1) \<Rightarrow>
             (case dup_loop (cf_dup env) cap k1 r1 (foreign_iroutes cfg gc) of
                None \<Rightarrow> None
              | Some (r2, k2) \<Rightarrow>
                  if \<not> rc_append_routes cfg then Some (gc\<lparr>gc_routes := Some r2\<rparr>)
                  else
                    (case dup_loop (cf_dup env) cap k2 r2 (nw_routes (rc_network cfg)) of
                       None \<Rightarrow> None
                     | Some (r3, k3) \<Rightarrow>
                         append_no_routes env (rc_network cfg) k3 (gc\<lparr>gc_routes := Some r3\<rparr>)))))"

text \<open>The pointer of a repeated field of the configuration; an empty field is NULL.\<close>

definition ptr_of :: "'a list \<Rightarrow> 'a list option" where
  "ptr_of xs = (if xs = [] then None else Some xs)"

definition dflt :: "'a option \<Rightarrow> 'a \<Rightarrow> 'a option" where
  "dflt v d = (case v of None \<Rightarrow> Some d | Some x \<Rightarrow> Some x)"

definition dflt_ptr :: "'a option \<Rightarrow> 'a option \<Rightarrow> 'a option" where
  "dflt_ptr v d = (case v of None \<Rightarrow> d | Some x \<Rightarrow> Some x)"

text \<open>The defaults that are set before and after \<^verbatim>\<open>append_routes\<close>.\<close>

definition defaults_before :: "reloadable_cfg \<Rightarrow> group_cfg_st \<Rightarrow> group_cfg_st" where
  "defaults_before cfg gc =
     gc\<lparr>gc_no_udp := dflt (gc_no_udp gc) (rc_no_udp cfg),
        gc_routes := dflt_ptr (gc_routes gc) (ptr_of (nw_routes (rc_network cfg)))\<rparr>"

definition defaults_after :: "reloadable_cfg \<Rightarrow> group_cfg_st \<Rightarrow> group_cfg_st" where
  "defaults_after cfg gc =
     gc\<lparr>gc_no_routes := dflt_ptr (gc_no_routes gc) (ptr_of (nw_no_routes (rc_network cfg))),
        gc_dns := dflt_ptr (gc_dns gc) (ptr_of (nw_dns (rc_network cfg))),
        gc_nbns := dflt_ptr (gc_nbns gc) (ptr_of (nw_nbns (rc_network cfg))),
        gc_split_dns := dflt_ptr (gc_split_dns gc) (ptr_of (rc_split_dns cfg)),
        gc_interim_update_secs := dflt (gc_interim_update_secs gc) (rc_stats_report_time cfg),
        gc_session_timeout_secs := dflt (gc_session_timeout_secs gc) (ucast (rc_session_timeout cfg)),
        gc_deny_roaming := dflt (gc_deny_roaming gc) (rc_deny_roaming cfg),
        gc_ipv4_net := dflt_ptr (gc_ipv4_net gc) (nw_ipv4_network (rc_network cfg)),
        gc_ipv4_netmask := dflt_ptr (gc_ipv4_netmask gc) (nw_ipv4_netmask (rc_network cfg)),
        gc_ipv6_net := dflt_ptr (gc_ipv6_net gc) (nw_ipv6_network (rc_network cfg)),
        gc_ipv6_prefix := dflt (gc_ipv6_prefix gc) (nw_ipv6_prefix (rc_network cfg)),
        gc_ipv6_subnet_prefix := dflt (gc_ipv6_subnet_prefix gc) (nw_ipv6_subnet_prefix (rc_network cfg)),
        gc_xml_config_file := dflt_ptr (gc_xml_config_file gc) (rc_xml_config_file cfg),
        gc_client_bypass_protocol := dflt (gc_client_bypass_protocol gc) (rc_client_bypass_protocol cfg),
        gc_rx_per_sec := dflt (gc_rx_per_sec gc) (ucast (rc_rx_per_sec cfg)),
        gc_tx_per_sec := dflt (gc_tx_per_sec gc) (ucast (rc_tx_per_sec cfg)),
        gc_net_priority := dflt (gc_net_priority gc) (rc_net_priority cfg),
        gc_keepalive := dflt (gc_keepalive gc) (rc_keepalive cfg),
        gc_dpd := dflt (gc_dpd gc) (rc_dpd cfg),
        gc_mobile_dpd := dflt (gc_mobile_dpd gc) (rc_mobile_dpd cfg),
        gc_max_same_clients := dflt (gc_max_same_clients gc) (rc_max_same_clients cfg),
        gc_tunnel_all_dns := dflt (gc_tunnel_all_dns gc) (rc_tunnel_all_dns cfg),
        gc_restrict_user_to_routes := dflt (gc_restrict_user_to_routes gc) (rc_restrict_user_to_routes cfg),
        gc_mtu := dflt (gc_mtu gc) (nw_mtu (rc_network cfg)),
        gc_idle_timeout := dflt (gc_idle_timeout gc) (rc_idle_timeout cfg),
        gc_mobile_idle_timeout := dflt (gc_mobile_idle_timeout gc) (rc_mobile_idle_timeout cfg),
        gc_fw_ports := (if gc_fw_ports gc = [] \<and> rc_fw_ports cfg \<noteq> [] then rc_fw_ports cfg else gc_fw_ports gc)\<rparr>"

text \<open>The counter of the configuration's users is incremented by the caller, \<^verbatim>\<open>session_open\<close>.\<close>

definition apply_default_config :: "cfg_env \<Rightarrow> reloadable_cfg \<Rightarrow> group_cfg_st \<Rightarrow> group_cfg_st option" where
  "apply_default_config env cfg gc =
     map_option (defaults_after cfg) (append_routes env cfg (defaults_before cfg gc))"

section \<open>Bounds of the route arrays\<close>

lemma items_simps [simp]: "items None = []" "items (Some rs) = rs" "items (ptr_of rs) = rs"
  by (simp_all add: items_def ptr_of_def)

lemma foreign_iroutes_none [simp]: "rc_known_iroutes cfg = [] \<Longrightarrow> foreign_iroutes cfg gc = []"
  by (simp add: foreign_iroutes_def)

lemma dup_loop_room:
  assumes "length acc + length rs \<le> cap"
  shows "\<exists>r k'. dup_loop dup cap k acc rs = Some (r, k') \<and> length r \<le> length acc + length rs \<and> prefix acc r"
  using assms
proof (induction rs arbitrary: k acc)
  case (Cons x rs)
  then show ?case using Cons.IH [of "acc @ [x]" "k + 1"]
    by (auto dest: append_prefixD)
qed simp

lemma dup_loop_all:
  assumes "length acc + length rs \<le> cap" "\<And>i. dup i"
  shows "\<exists>k'. dup_loop dup cap k acc rs = Some (acc @ rs, k')"
  using assms(1)
proof (induction rs arbitrary: k acc)
  case (Cons x rs)
  then show ?case using Cons.IH [of "acc @ [x]" "k + 1"] assms(2) by auto
qed simp

lemma append_no_routes_total: "\<exists>gc'. append_no_routes env nw k gc = Some gc'"
proof -
  let ?old = "items (gc_no_routes gc)"
  let ?cap = "length ?old + length (nw_no_routes nw)"
  obtain r1 k1 where 1: "dup_loop (cf_dup env) ?cap k [] ?old = Some (r1, k1)" "length r1 \<le> length ?old"
    using dup_loop_room [of "[]" ?old ?cap "cf_dup env" k] by auto
  obtain r2 k2 where "dup_loop (cf_dup env) ?cap k1 r1 (nw_no_routes nw) = Some (r2, k2)"
    using dup_loop_room [of r1 "nw_no_routes nw" ?cap "cf_dup env" k1] 1(2) by auto
  with 1 show ?thesis by (simp add: append_no_routes_def Let_def)
qed

text \<open>The three loops of \<^verbatim>\<open>append_routes\<close> stay within the capacity of the array.\<close>

lemma append_routes_loops:
  fixes cfg gc
  defines "old \<equiv> items (gc_routes gc)"
    and "new \<equiv> foreign_iroutes cfg gc"
    and "cap \<equiv> length (items (gc_routes gc)) + length (rc_known_iroutes cfg) +
               (if rc_append_routes cfg then length (nw_routes (rc_network cfg)) else 0)"
  obtains r1 k1 r2 k2 where
    "dup_loop dup cap 0 [] old = Some (r1, k1)" "dup_loop dup cap k1 r1 new = Some (r2, k2)"
    "rc_append_routes cfg \<longrightarrow> (\<exists>r3 k3. dup_loop dup cap k2 r2 (nw_routes (rc_network cfg)) = Some (r3, k3))"
proof -
  have new: "length new \<le> length (rc_known_iroutes cfg)" by (simp add: new_def foreign_iroutes_def)
  obtain r1 k1 where 1: "dup_loop dup cap 0 [] old = Some (r1, k1)" "length r1 \<le> length old"
    using dup_loop_room [of "[]" old cap dup 0] by (auto simp: cap_def old_def)
  moreover obtain r2 k2 where 2: "dup_loop dup cap k1 r1 new = Some (r2, k2)" "length r2 \<le> length r1 + length new"
    using dup_loop_room [of r1 new cap dup k1] 1(2) new by (auto simp: cap_def old_def)
  moreover have "rc_append_routes cfg \<longrightarrow> (\<exists>r3 k3. dup_loop dup cap k2 r2 (nw_routes (rc_network cfg)) = Some (r3, k3))"
    using dup_loop_room [of r2 "nw_routes (rc_network cfg)" cap dup k2] 1(2) 2(2) new
    by (auto simp: cap_def old_def)
  ultimately show thesis using that by blast
qed

lemma append_routes_total: "\<exists>gc'. append_routes env cfg gc = Some gc'"
  by (rule append_routes_loops [of "cf_dup env" gc cfg])
    (use append_no_routes_total in \<open>auto simp: append_routes_def Let_def split: option.splits prod.splits\<close>)

lemma apply_default_config_total: "\<exists>gc'. apply_default_config env cfg gc = Some gc'"
  using append_routes_total [of env cfg "defaults_before cfg gc"] by (auto simp: apply_default_config_def)

section \<open>Completeness and priority\<close>

text \<open>Every scalar that main or a worker reads without looking at its flag has a value.\<close>

definition cfg_complete :: "group_cfg_st \<Rightarrow> bool" where
  "cfg_complete gc =
     (gc_no_udp gc \<noteq> None \<and> gc_interim_update_secs gc \<noteq> None \<and> gc_session_timeout_secs gc \<noteq> None \<and>
      gc_deny_roaming gc \<noteq> None \<and> gc_ipv6_prefix gc \<noteq> None \<and> gc_ipv6_subnet_prefix gc \<noteq> None \<and>
      gc_client_bypass_protocol gc \<noteq> None \<and> gc_rx_per_sec gc \<noteq> None \<and> gc_tx_per_sec gc \<noteq> None \<and>
      gc_net_priority gc \<noteq> None \<and> gc_keepalive gc \<noteq> None \<and> gc_dpd gc \<noteq> None \<and>
      gc_mobile_dpd gc \<noteq> None \<and> gc_max_same_clients gc \<noteq> None \<and> gc_tunnel_all_dns gc \<noteq> None \<and>
      gc_restrict_user_to_routes gc \<noteq> None \<and> gc_mtu gc \<noteq> None \<and> gc_idle_timeout gc \<noteq> None \<and>
      gc_mobile_idle_timeout gc \<noteq> None)"

text \<open>The scalars of a configuration, the ones main and the workers act on, in one order.\<close>

definition cfg_scalars :: "group_cfg_st \<Rightarrow> u32 option list" where
  "cfg_scalars gc =
     [gc_interim_update_secs gc, gc_session_timeout_secs gc, gc_ipv6_prefix gc, gc_ipv6_subnet_prefix gc,
      gc_client_bypass_protocol gc, gc_rx_per_sec gc, gc_tx_per_sec gc, gc_net_priority gc, gc_keepalive gc,
      gc_dpd gc, gc_mobile_dpd gc, gc_max_same_clients gc, gc_tunnel_all_dns gc, gc_mtu gc,
      gc_idle_timeout gc, gc_mobile_idle_timeout gc]"

definition cfg_flags :: "group_cfg_st \<Rightarrow> bool option list" where
  "cfg_flags gc = [gc_no_udp gc, gc_deny_roaming gc, gc_restrict_user_to_routes gc]"

definition cfg_strings :: "group_cfg_st \<Rightarrow> string option list" where
  "cfg_strings gc = [gc_ipv4_net gc, gc_ipv4_netmask gc, gc_ipv6_net gc, gc_xml_config_file gc,
                     gc_explicit_ipv4 gc, gc_explicit_ipv6 gc]"

definition refines_opt :: "'a option \<Rightarrow> 'a option \<Rightarrow> bool" where
  "refines_opt a b = (a = None \<or> a = b)"

definition cfg_keeps :: "group_cfg_st \<Rightarrow> group_cfg_st \<Rightarrow> bool" where
  "cfg_keeps gc gc' =
     (list_all2 refines_opt (cfg_scalars gc) (cfg_scalars gc') \<and>
      list_all2 refines_opt (cfg_flags gc) (cfg_flags gc') \<and>
      list_all2 refines_opt (cfg_strings gc) (cfg_strings gc') \<and>
      refines_opt (gc_dns gc) (gc_dns gc') \<and> refines_opt (gc_nbns gc) (gc_nbns gc') \<and>
      refines_opt (gc_split_dns gc) (gc_split_dns gc') \<and> gc_iroutes gc' = gc_iroutes gc \<and>
      (gc_fw_ports gc = [] \<or> gc_fw_ports gc' = gc_fw_ports gc))"

text \<open>Only the two route fields differ between the arguments and the result of \<^verbatim>\<open>append_routes\<close>.\<close>

lemma append_routes_frame:
  assumes "append_routes env cfg gc = Some gc'"
  shows "\<exists>r n. gc' = gc\<lparr>gc_routes := r, gc_no_routes := n\<rparr>"
proof -
  have "gc'\<lparr>gc_routes := r, gc_no_routes := n\<rparr> = gc\<lparr>gc_routes := r, gc_no_routes := n\<rparr>" for r n
    using assms
    by (auto simp: append_routes_def append_no_routes_def Let_def split: if_splits option.splits prod.splits)
  from this [where r = "gc_routes gc'" and n = "gc_no_routes gc'"]
  have "gc' = gc\<lparr>gc_routes := gc_routes gc', gc_no_routes := gc_no_routes gc'\<rparr>" by simp
  then show ?thesis by blast
qed

lemma refines_dflt [simp]:
  "refines_opt v (dflt v d)" "refines_opt v (dflt_ptr v e)" "refines_opt v v" "dflt v d \<noteq> None"
  by (auto simp: refines_opt_def dflt_def dflt_ptr_def split: option.split)

lemma apply_default_config_keeps:
  assumes "apply_default_config env cfg gc = Some gc'"
  shows "cfg_complete gc' \<and> cfg_keeps gc gc'"
proof -
  obtain g where g: "append_routes env cfg (defaults_before cfg gc) = Some g" "gc' = defaults_after cfg g"
    using assms by (auto simp: apply_default_config_def)
  obtain r n where gc': "gc' = defaults_after cfg ((defaults_before cfg gc)\<lparr>gc_routes := r, gc_no_routes := n\<rparr>)"
    using append_routes_frame [OF g(1)] g(2) by blast
  have "cfg_complete gc'"
    by (simp add: gc' cfg_complete_def defaults_after_def defaults_before_def)
  moreover have "cfg_keeps gc gc'"
    by (simp add: gc' cfg_keeps_def cfg_scalars_def cfg_flags_def cfg_strings_def
        defaults_after_def defaults_before_def)
  ultimately show ?thesis ..
qed

definition cfg_env_ok :: "cfg_env \<Rightarrow> bool" where
  "cfg_env_ok env = (cf_alloc_routes env \<and> cf_alloc_no_routes env \<and> (\<forall>k. cf_dup env k))"

lemma append_routes_spec:
  assumes "cfg_env_ok env"
  shows "\<exists>gc'. append_routes env cfg gc = Some gc' \<and>
     items (gc_routes gc') = items (gc_routes gc) @
       foreign_iroutes cfg gc @
       (if rc_append_routes cfg then nw_routes (rc_network cfg) else []) \<and>
     items (gc_no_routes gc') = items (gc_no_routes gc) @
       (if rc_append_routes cfg then nw_no_routes (rc_network cfg) else [])"
proof -
  have dup: "\<And>k. cf_dup env k" and al: "cf_alloc_routes env" "cf_alloc_no_routes env"
    using assms by (auto simp: cfg_env_ok_def)
  let ?old = "items (gc_routes gc)" and ?glob = "nw_routes (rc_network cfg)"
  let ?new = "foreign_iroutes cfg gc"
  let ?cap = "length ?old + length (rc_known_iroutes cfg) + (if rc_append_routes cfg then length ?glob else 0)"
  have len: "length ?new \<le> length (rc_known_iroutes cfg)" by (simp add: foreign_iroutes_def)
  obtain k1 where 1: "dup_loop (cf_dup env) ?cap 0 [] ?old = Some (?old, k1)"
    using dup_loop_all [of "[]" ?old ?cap "cf_dup env" 0] dup by auto
  obtain k2 where 2: "dup_loop (cf_dup env) ?cap k1 ?old ?new = Some (?old @ ?new, k2)"
    using dup_loop_all [of ?old ?new ?cap "cf_dup env" k1] dup len by auto
  show ?thesis
  proof (cases "rc_append_routes cfg")
    case False
    then show ?thesis using 1 2 al by (auto simp: append_routes_def Let_def)
  next
    case True
    let ?gc = "gc\<lparr>gc_routes := Some (?old @ ?new @ ?glob)\<rparr>"
    obtain k3 where 3: "dup_loop (cf_dup env) ?cap k2 (?old @ ?new) ?glob = Some (?old @ ?new @ ?glob, k3)"
      using dup_loop_all [of "?old @ ?new" ?glob ?cap "cf_dup env" k2] dup len True by auto
    have eq: "append_routes env cfg gc = append_no_routes env (rc_network cfg) k3 ?gc"
      using 1 2 3 al True by (simp add: append_routes_def Let_def)
    let ?on = "items (gc_no_routes gc)" and ?nn = "nw_no_routes (rc_network cfg)"
    let ?capn = "length ?on + length ?nn"
    obtain k4 where 4: "dup_loop (cf_dup env) ?capn k3 [] ?on = Some (?on, k4)"
      using dup_loop_all [of "[]" ?on ?capn "cf_dup env" k3] dup by auto
    obtain k5 where 5: "dup_loop (cf_dup env) ?capn k4 ?on ?nn = Some (?on @ ?nn, k5)"
      using dup_loop_all [of ?on ?nn ?capn "cf_dup env" k4] dup by auto
    show ?thesis unfolding eq using True al 4 5 by (simp add: append_no_routes_def Let_def)
  qed
qed

lemma apply_default_config_routes:
  assumes "apply_default_config env cfg gc = Some gc'" "cfg_env_ok env"
  shows "prefix (items (gc_routes gc)) (items (gc_routes gc')) \<and> prefix (items (gc_no_routes gc)) (items (gc_no_routes gc'))"
proof -
  let ?b = "defaults_before cfg gc"
  obtain g where g: "append_routes env cfg ?b = Some g" "gc' = defaults_after cfg g"
    using assms(1) by (auto simp: apply_default_config_def)
  have r: "prefix (items (gc_routes ?b)) (items (gc_routes g))" "prefix (items (gc_no_routes ?b)) (items (gc_no_routes g))"
    using append_routes_spec [OF assms(2), of cfg ?b] g(1) by auto
  have "prefix (items (gc_routes gc)) (items (gc_routes ?b))" "items (gc_no_routes ?b) = items (gc_no_routes gc)"
    by (auto simp: defaults_before_def dflt_ptr_def split: option.splits)
  moreover have "gc_routes gc' = gc_routes g" "prefix (items (gc_no_routes g)) (items (gc_no_routes gc'))"
    by (auto simp: g(2) defaults_after_def dflt_ptr_def split: option.splits)
  ultimately show ?thesis using r by (auto intro: prefix_order.trans)
qed

text \<open>
  C21 The configuration of a session is complete and the one of the user has priority.  The
  defaults are applied without writing behind the route arrays even when copies fail; every
  optional scalar has a value afterwards; and every scalar, flag, address, server list and local
  route that the security module has sent is kept.  The routes and excluded routes it has sent
  are kept, ahead of the ones of the server, when no allocation fails (a failing copy drops the
  rest of them).
\<close>

theorem session_config_complete:
  "\<exists>gc'. apply_default_config env cfg gc = Some gc' \<and> cfg_complete gc' \<and> cfg_keeps gc gc' \<and>
     (cfg_env_ok env \<longrightarrow>
        prefix (items (gc_routes gc)) (items (gc_routes gc')) \<and>
        prefix (items (gc_no_routes gc)) (items (gc_no_routes gc')))"
proof -
  obtain gc' where gc': "apply_default_config env cfg gc = Some gc'" using apply_default_config_total by blast
  then show ?thesis using apply_default_config_keeps [OF gc'] apply_default_config_routes [OF gc'] by blast
qed

text \<open>
  C22 The routes of a session, when memory suffices: those of the user or, when there are none,
  the global ones; then the known routes of other users that are not the user's own; and
  with \<^verbatim>\<open>append-routes\<close> the global ones, a second time for a user without routes.
\<close>

theorem session_routes:
  assumes "cfg_env_ok env"
  shows "\<exists>gc'. apply_default_config env cfg gc = Some gc' \<and>
     items (gc_routes gc') =
       (case gc_routes gc of None \<Rightarrow> nw_routes (rc_network cfg) | Some rs \<Rightarrow> rs) @
       foreign_iroutes cfg gc @
       (if rc_append_routes cfg then nw_routes (rc_network cfg) else [])"
proof -
  let ?gc = "defaults_before cfg gc"
  have base: "items (gc_routes ?gc) = (case gc_routes gc of None \<Rightarrow> nw_routes (rc_network cfg) | Some rs \<Rightarrow> rs)"
    "foreign_iroutes cfg ?gc = foreign_iroutes cfg gc"
    by (simp_all add: defaults_before_def foreign_iroutes_def dflt_ptr_def split: option.split)
  have routes: "gc_routes (defaults_after cfg g) = gc_routes g" for g by (simp add: defaults_after_def)
  obtain g where "append_routes env cfg ?gc = Some g" and g: "items (gc_routes g) =
      items (gc_routes ?gc) @ foreign_iroutes cfg ?gc @ (if rc_append_routes cfg then nw_routes (rc_network cfg) else [])"
    using append_routes_spec [OF assms, of cfg ?gc] by blast
  then have "apply_default_config env cfg gc = Some (defaults_after cfg g)" by (simp add: apply_default_config_def)
  then show ?thesis using g by (intro exI [of _ "defaults_after cfg g"]) (simp add: routes base)
qed

end
