(* ===== verification/Main_Stats.thy ===== *)
theory Main_Stats
  imports Main_Types
begin

text \<open>
  The statistics of the server (\<^verbatim>\<open>update_auth_failures\<close>, \<^verbatim>\<open>reset_stats\<close> and \<^verbatim>\<open>update_main_stats\<close> of
  \<^verbatim>\<open>src/src/main-sec-mod-cmd.c\<close>).  The counters have their widths of \<^verbatim>\<open>main.h\<close>; additions wrap.
  \<^verbatim>\<open>time (NULL)\<close> is the argument \<^term>\<open>now\<close>.  Only positive session times reach the division by
  60, where truncation and rounding down agree.
\<close>

section \<open>Operations\<close>

abbreviation (input) REASON_IDLE_TIMEOUT :: nat where "REASON_IDLE_TIMEOUT \<equiv> 4"
abbreviation (input) REASON_ERROR :: nat where "REASON_ERROR \<equiv> 6"

definition update_auth_failures :: "u64 \<Rightarrow> main_stats_st \<Rightarrow> main_stats_st" where
  "update_auth_failures n st =
     (if st_auth_failures st + n < st_auth_failures st then st\<lparr>st_auth_failures := 0\<rparr>
      else st\<lparr>st_auth_failures := st_auth_failures st + n,
              st_total_auth_failures := st_total_auth_failures st + n\<rparr>)"

definition reset_stats :: "time_t \<Rightarrow> 's main_server_st \<Rightarrow> 's main_server_st" where
  "reset_stats now s =
     s\<lparr>ms_instances := map (\<lambda>i. i\<lparr>si_max_auth_time := 0, si_avg_auth_time := 0\<rparr>) (ms_instances s),
       ms_stats := (ms_stats s)\<lparr>st_session_idle_timeouts := 0, st_session_timeouts := 0,
         st_session_errors := 0, st_sessions_closed := 0, st_auth_failures := 0,
         st_last_reset := now, st_kbytes_in := 0, st_kbytes_out := 0, st_max_session_mins := 0\<rparr>\<rparr>"

definition count_reason :: "nat \<Rightarrow> main_stats_st \<Rightarrow> main_stats_st" where
  "count_reason r st =
     (if r = REASON_IDLE_TIMEOUT then st\<lparr>st_session_idle_timeouts := st_session_idle_timeouts st + 1\<rparr>
      else if r = REASON_SESSION_TIMEOUT then st\<lparr>st_session_timeouts := st_session_timeouts st + 1\<rparr>
      else if r = REASON_ERROR then st\<lparr>st_session_errors := st_session_errors st + 1\<rparr>
      else st)"

definition count_mtu :: "u32 \<Rightarrow> main_stats_st \<Rightarrow> main_stats_st" where
  "count_mtu mtu st =
     st\<lparr>st_min_mtu := (if st_min_mtu st = 0 \<or> mtu < st_min_mtu st then mtu else st_min_mtu st),
        st_max_mtu := (if st_max_mtu st = 0 \<or> mtu > st_max_mtu st then mtu else st_max_mtu st)\<rparr>"

definition count_time :: "int \<Rightarrow> main_stats_st \<Rightarrow> main_stats_st" where
  "count_time stime st =
     (if stime > 0 then
        st\<lparr>st_avg_session_mins :=
             ucast (((st_sessions_closed st - 1) * ucast (st_avg_session_mins st) + of_int stime)
                    div st_sessions_closed st),
           st_max_session_mins :=
             (if stime > uint (st_max_session_mins st) then of_int stime else st_max_session_mins st)\<rparr>
      else st)"

definition update_main_stats :: "time_t \<Rightarrow> proc_st \<Rightarrow> static_cfg_st \<Rightarrow> 's main_server_st \<Rightarrow> 's main_server_st" where
  "update_main_stats now p sc s0 =
     (let s = (if sc_stats_reset_time sc \<noteq> 0 \<and> now - st_last_reset (ms_stats s0) > sc_stats_reset_time sc
               then reset_stats now s0 else s0);
          st1 = count_reason (p_discon_reason p) (ms_stats s);
          st2 = st1\<lparr>st_sessions_closed := st_sessions_closed st1 + 1,
                    st_total_sessions_closed := st_total_sessions_closed st1 + 1\<rparr>;
          s2 = s\<lparr>ms_stats := st2\<rparr>;
          kb_in = p_bytes_in p div 1000; kb_out = p_bytes_out p div 1000
      in if st_sessions_closed st2 = 0 then reset_stats now s2
         else if st_kbytes_in st2 + kb_in < st_kbytes_in st2 then reset_stats now s2
         else if st_kbytes_out st2 + kb_out < st_kbytes_out st2 then reset_stats now s2
         else s2\<lparr>ms_stats :=
                   count_time ((now - p_conn_time p) div 60)
                    (count_mtu (p_mtu p)
                      (st2\<lparr>st_kbytes_in := st_kbytes_in st2 + kb_in,
                           st_kbytes_out := st_kbytes_out st2 + kb_out\<rparr>))\<rparr>)"

section \<open>Overflow\<close>

lemma word_add_wraps:
  fixes a b :: "'a::len word"
  shows "a + b < a \<longleftrightarrow> 2 ^ LENGTH('a) \<le> unat a + unat b"
  by (metis linorder_not_le no_olen_add_nat word_less_nat_alt word_le_nat_alt)

lemma unat_add_no_wrap:
  fixes a b :: "'a::len word"
  shows "\<not> a + b < a \<Longrightarrow> unat (a + b) = unat a + unat b"
  by (metis linorder_not_less unat_plus_simple)

lemma reset_stats_simps [simp]:
  "st_sessions_closed (ms_stats (reset_stats now s)) = 0"
  "st_kbytes_in (ms_stats (reset_stats now s)) = 0"
  "st_kbytes_out (ms_stats (reset_stats now s)) = 0"
  "st_avg_session_mins (ms_stats (reset_stats now s)) = st_avg_session_mins (ms_stats s)"
  "st_active_clients (ms_stats (reset_stats now s)) = st_active_clients (ms_stats s)"
  by (simp_all add: reset_stats_def)

lemma count_simps [simp]:
  "st_sessions_closed (count_reason r st) = st_sessions_closed st"
  "st_kbytes_in (count_reason r st) = st_kbytes_in st"
  "st_kbytes_out (count_reason r st) = st_kbytes_out st"
  "st_avg_session_mins (count_reason r st) = st_avg_session_mins st"
  "st_active_clients (count_reason r st) = st_active_clients st"
  "st_sessions_closed (count_mtu m st) = st_sessions_closed st"
  "st_kbytes_in (count_mtu m st) = st_kbytes_in st"
  "st_kbytes_out (count_mtu m st) = st_kbytes_out st"
  "st_avg_session_mins (count_mtu m st) = st_avg_session_mins st"
  "st_active_clients (count_mtu m st) = st_active_clients st"
  "st_sessions_closed (count_time t st) = st_sessions_closed st"
  "st_kbytes_in (count_time t st) = st_kbytes_in st"
  "st_kbytes_out (count_time t st) = st_kbytes_out st"
  "st_active_clients (count_time t st) = st_active_clients st"
  by (simp_all add: count_reason_def count_mtu_def count_time_def)

lemma word_succ_zero:
  fixes a :: "'a::len word"
  shows "a + 1 = 0 \<longleftrightarrow> 2 ^ LENGTH('a) \<le> unat a + 1"
proof (cases "1 + a = 0")
  case True
  then have "a = - 1" by (simp add: add_eq_0_iff)
  then show ?thesis by (simp add: unsigned_minus_1_eq_mask mask_eq_exp_minus_1)
next
  case False
  then have "unat (1 + a) = Suc (unat a)" by (rule unatSuc)
  moreover have "unat (1 + a) < 2 ^ LENGTH('a)" by (rule unsigned_less)
  ultimately show ?thesis using False by (simp add: add.commute)
qed

lemma unat_div_1000: "unat (w div 1000 :: u64) = unat w div 1000"
  by (simp add: unat_div_distrib)

text \<open>
  C38 No counter of closed sessions or transferred data wraps around silently: between two
  periodic resets the counters are the exact sums, and when a sum does not fit in 64 bits all
  of them restart from zero.
\<close>

theorem session_counters_exact:
  fixes p :: proc_st
  assumes "sc_stats_reset_time sc = 0 \<or> now - st_last_reset (ms_stats s) \<le> sc_stats_reset_time sc"
  defines "st \<equiv> ms_stats s" and "st' \<equiv> ms_stats (update_main_stats now p sc s)"
  defines "n \<equiv> unat (st_sessions_closed st) + 1"
    and "kin \<equiv> unat (st_kbytes_in st) + unat (p_bytes_in p) div 1000"
    and "kout \<equiv> unat (st_kbytes_out st) + unat (p_bytes_out p) div 1000"
  shows "if n < 2 ^ 64 \<and> kin < 2 ^ 64 \<and> kout < 2 ^ 64
         then unat (st_sessions_closed st') = n \<and> unat (st_kbytes_in st') = kin \<and> unat (st_kbytes_out st') = kout
         else st_sessions_closed st' = 0 \<and> st_kbytes_in st' = 0 \<and> st_kbytes_out st' = 0"
proof -
  have "\<not> (sc_stats_reset_time sc \<noteq> 0 \<and> now - st_last_reset st > sc_stats_reset_time sc)"
    using assms(1) by (auto simp: st_def)
  note upd = update_main_stats_def [of now p sc s, folded st_def, unfolded if_not_P [OF this] Let_def]
  have n: "st_sessions_closed st + 1 = 0 \<longleftrightarrow> \<not> n < 2 ^ 64"
    and kin: "st_kbytes_in st + p_bytes_in p div 1000 < st_kbytes_in st \<longleftrightarrow> \<not> kin < 2 ^ 64"
    and kout: "st_kbytes_out st + p_bytes_out p div 1000 < st_kbytes_out st \<longleftrightarrow> \<not> kout < 2 ^ 64"
    by (simp_all add: word_succ_zero word_add_wraps n_def kin_def kout_def unat_div_1000 not_less)
  show ?thesis
    using n kin kout unat_add_no_wrap [of "st_kbytes_in st" "p_bytes_in p div 1000"]
      unat_add_no_wrap [of "st_kbytes_out st" "p_bytes_out p div 1000"]
      unatSuc [of "st_sessions_closed st"]
    by (auto simp: st'_def upd n_def kin_def kout_def unat_div_1000 st_def [symmetric] add.commute)
qed

lemma average_between:
  fixes a t n :: nat
  assumes "0 < n"
  shows "min a t \<le> ((n - 1) * a + t) div n \<and> ((n - 1) * a + t) div n \<le> max a t"
proof -
  obtain k where k: "n = Suc k" using assms by (cases n) auto
  have "k * min a t \<le> k * a" "k * a \<le> k * max a t" "min a t \<le> t" "t \<le> max a t" by simp_all
  then have "n * min a t \<le> (n - 1) * a + t" "(n - 1) * a + t \<le> n * max a t"
    unfolding k mult_Suc diff_Suc_1 by linarith+
  then show ?thesis
    using assms by (metis div_le_mono nonzero_mult_div_cancel_left not_gr_zero)
qed

text \<open>
  C39 The average session time stays between its old value and the time of the session that
  ends, as long as the products fit in 64 bits.
\<close>

theorem session_average_bounds:
  assumes "0 < stime" "stime < 2 ^ 32" "0 < unat (st_sessions_closed st)" "unat (st_sessions_closed st) < 2 ^ 31"
  defines "a \<equiv> unat (st_avg_session_mins st)" and "a' \<equiv> unat (st_avg_session_mins (count_time stime st))"
  shows "min a (nat stime) \<le> a' \<and> a' \<le> max a (nat stime)"
proof -
  let ?n = "unat (st_sessions_closed st)" and ?t = "nat stime"
  have "unat (st_avg_session_mins st) < 2 ^ LENGTH(32)" by (rule unsigned_less)
  then have bnd: "a < 2 ^ 32" "?t < 2 ^ 32" using assms(2) by (simp_all add: a_def)
  have "(?n - 1) * a \<le> 2 ^ 31 * 2 ^ 32"
    by (rule mult_mono) (use assms(4) bnd in auto)
  then have fit: "(?n - 1) * a + ?t < 2 ^ LENGTH(64)" using bnd(2) by simp
  have unat_of_nat_eq: "unat (of_nat x :: u64) = x" if "x < 2 ^ LENGTH(64)" for x
    using that by (simp only: unsigned_of_nat take_bit_nat_eq_self of_nat_id)
  let ?q = "((?n - 1) * a + ?t) div ?n"
  have "unat (st_sessions_closed st - 1) = ?n - 1"
    using assms(3) by (metis One_nat_def Suc_leI unat_1 unat_sub word_le_nat_alt)
  then have "st_sessions_closed st - 1 = of_nat (?n - 1)"
    by (metis of_nat_unat unsigned_word_eqI ucast_id)
  then have num: "(st_sessions_closed st - 1) * ucast (st_avg_session_mins st) + of_int stime =
      (of_nat ((?n - 1) * a + ?t) :: u64)"
    using assms(1) by (simp add: a_def of_nat_unat)
  have q: "min a ?t \<le> ?q" "?q \<le> max a ?t" using average_between [OF assms(3), of a ?t] by auto
  have "unat ((of_nat ((?n - 1) * a + ?t) :: u64) div st_sessions_closed st) = ?q"
    unfolding unat_div_distrib by (subst unat_of_nat_eq [OF fit]) (rule refl)
  moreover have "?q < 2 ^ LENGTH(32)" using q(2) bnd by simp
  ultimately have "a' = ?q"
    using assms(1) by (simp add: a'_def count_time_def num unsigned_ucast_eq unsigned_take_bit_eq take_bit_nat_eq_self)
  with q show ?thesis by simp
qed

end
