(* ===== verification/Proc_Search.thy ===== *)
theory Proc_Search
  imports Main_Types
begin

text \<open>
  The hash tables that find a worker by the address of its client, by the address of its DTLS
  channel, by its DTLS session id and by its cookie (\<^verbatim>\<open>src/src/proc-search.c\<close>).  An entry is the
  hash it was stored under and a pointer to the process.  A search looks at the entries with
  the hash it asks for, in the order in which they were added, and follows their pointers;
  following the pointer of a freed process is \<^term>\<open>None\<close>.  A deletion finds the entry of a
  process only under the hash the process has now, so a key that changed while the entry is
  stored would leave a dangling pointer.  The hash function is a parameter.
\<close>

section \<open>Tables\<close>

definition pt_add :: "nat \<Rightarrow> nat \<Rightarrow> proc_tbl \<Rightarrow> proc_tbl" where
  "pt_add h i t = t @ [(h, i)]"

definition pt_del :: "nat \<Rightarrow> nat \<Rightarrow> proc_tbl \<Rightarrow> proc_tbl" where
  "pt_del h i t = remove1 (h, i) t"

fun pt_get :: "(nat \<Rightarrow> proc_st option) \<Rightarrow> nat \<Rightarrow> (proc_st \<Rightarrow> bool) \<Rightarrow> proc_tbl \<Rightarrow> nat option option" where
  "pt_get heap h cmp [] = Some None"
| "pt_get heap h cmp ((h', i) # t) =
     (if h' \<noteq> h then pt_get heap h cmp t
      else case heap i of
        None \<Rightarrow> None
      | Some p \<Rightarrow> if cmp p then Some (Some i) else pt_get heap h cmp t)"

section \<open>Keys\<close>

definition sa_ip :: "saddr \<Rightarrow> bytes" where
  "sa_ip a = take (SA_IN_SIZE (sa_len a)) (drop (SA_IN_OFFSET (sa_len a)) (sa_raw a))"

definition rehash_ip :: "(bytes \<Rightarrow> nat) \<Rightarrow> proc_st \<Rightarrow> nat" where
  "rehash_ip hash p = hash (sa_ip (p_remote p))"

definition rehash_dtls_ip :: "(bytes \<Rightarrow> nat) \<Rightarrow> proc_st \<Rightarrow> nat" where
  "rehash_dtls_ip hash p = hash (sa_ip (p_dtls_remote p))"

definition rehash_dtls_id :: "(bytes \<Rightarrow> nat) \<Rightarrow> proc_st \<Rightarrow> nat" where
  "rehash_dtls_id hash p = hash (take (p_dtls_session_id_size p) (p_dtls_session_id p))"

definition rehash_sid :: "(bytes \<Rightarrow> nat) \<Rightarrow> proc_st \<Rightarrow> nat" where
  "rehash_sid hash p = hash (p_sid p)"

section \<open>Operations\<close>

record table_env =
  te_hash :: "bytes \<Rightarrow> nat"
  te_add_ip :: bool
  te_add_dtls_id :: bool
  te_add_sid :: bool
  te_add_dtls_ip :: bool

definition proc_table_init :: proc_hash_db_st where
  "proc_table_init = \<lparr>db_ip = [], db_dtls_ip = [], db_dtls_id = [], db_sid = [], pt_total = 0\<rparr>"

definition proc_table_deinit :: "proc_hash_db_st \<Rightarrow> proc_hash_db_st" where
  "proc_table_deinit t = t\<lparr>db_ip := [], db_dtls_ip := [], db_dtls_id := [], db_sid := []\<rparr>"

definition proc_table_add :: "table_env \<Rightarrow> nat \<Rightarrow> proc_st \<Rightarrow> proc_hash_db_st \<Rightarrow> int \<times> proc_hash_db_st" where
  "proc_table_add env i p t =
     (let ip_hash = rehash_ip (te_hash env) p; dtls_id_hash = rehash_dtls_id (te_hash env) p in
      if \<not> te_add_ip env then (-1, t)
      else
        let t1 = t\<lparr>db_ip := pt_add ip_hash i (db_ip t)\<rparr> in
        if \<not> te_add_dtls_id env then (-1, t1\<lparr>db_ip := pt_del ip_hash i (db_ip t1)\<rparr>)
        else
          let t2 = t1\<lparr>db_dtls_id := pt_add dtls_id_hash i (db_dtls_id t1)\<rparr> in
          if \<not> te_add_sid env then
            (-1, t2\<lparr>db_ip := pt_del ip_hash i (db_ip t2), db_dtls_id := pt_del dtls_id_hash i (db_dtls_id t2)\<rparr>)
          else
            (0, t2\<lparr>db_sid := pt_add (rehash_sid (te_hash env) p) i (db_sid t2), pt_total := pt_total t2 + 1\<rparr>))"

text \<open>
  The address comes from a message of the worker: \<^term>\<open>addr\<close> is the memory of the message
  field, and \<^term>\<open>addr_size\<close> its length.  The new address is also printed to the log.  The
  first function is the part after the comparisons; \<^term>\<open>dup\<close> says that the new address is the
  one of the DTLS channel.
\<close>

definition move_ip ::
  "table_env \<Rightarrow> nat \<Rightarrow> proc_st \<Rightarrow> bytes \<Rightarrow> nat \<Rightarrow> bool \<Rightarrow> proc_hash_db_st \<Rightarrow> int \<times> proc_st \<times> proc_hash_db_st" where
  "move_ip env i p addr addr_size dup t =
     (let h = rehash_ip (te_hash env) p;
          removed = ((h, i) \<in> set (db_ip t));
          p1 = p\<lparr>p_remote := \<lparr>sa_raw = mem_cpy (sa_raw (p_remote p)) addr addr_size, sa_len = addr_size\<rparr>\<rparr>;
          hd = rehash_dtls_ip (te_hash env) p1;
          gone = (dup \<and> (hd, i) \<in> set (db_dtls_ip t));
          t2 = t\<lparr>db_ip := pt_del h i (db_ip t),
                 db_dtls_ip := (if dup then pt_del hd i (db_dtls_ip t) else db_dtls_ip t)\<rparr>;
          p2 = (if gone then p1\<lparr>p_dtls_remote := (p_dtls_remote p1)\<lparr>sa_len := 0\<rparr>\<rparr> else p1)
      in if \<not> removed then (0, p2, t2)
         else if \<not> te_add_ip env then (-1, p2, t2)
         else (0, p2, t2\<lparr>db_ip := pt_add (rehash_ip (te_hash env) p2) i (db_ip t2)\<rparr>))"

definition proc_table_update_ip ::
  "table_env \<Rightarrow> nat \<Rightarrow> proc_st \<Rightarrow> bytes \<Rightarrow> nat \<Rightarrow> proc_hash_db_st \<Rightarrow> (int \<times> proc_st \<times> proc_hash_db_st) option" where
  "proc_table_update_ip env i p addr addr_size t =
     (case (if addr_size \<noteq> sa_len (p_remote p) then Some False
            else map_option (\<lambda>b. b = take addr_size (sa_raw (p_remote p))) (mem_at addr 0 addr_size)) of
        None \<Rightarrow> None
      | Some same \<Rightarrow>
          if same then Some (0, p, t)
          else if human_addr2 addr addr_size MAX_IP_STR False = None then None
          else if mem_at addr 0 addr_size = None then None
          else map_option (\<lambda>dup. move_ip env i p addr addr_size dup t)
                 (if sa_len (p_dtls_remote p) \<noteq> addr_size then Some False
                  else map_option (\<lambda>b. b = sa_ip (p_dtls_remote p)) (sa_in addr addr_size)))"

definition sa_same_ip :: "saddr \<Rightarrow> saddr \<Rightarrow> bool" where
  "sa_same_ip a b = (sa_len a = sa_len b \<and> sa_ip a = sa_ip b)"

definition proc_table_update_dtls_ip ::
  "table_env \<Rightarrow> nat \<Rightarrow> proc_st \<Rightarrow> saddr \<Rightarrow> proc_hash_db_st \<Rightarrow> int \<times> proc_st \<times> proc_hash_db_st" where
  "proc_table_update_dtls_ip env i p addr t =
     (if sa_len (p_dtls_remote p) \<noteq> 0 \<and> sa_same_ip (p_dtls_remote p) addr then (-1, p, t)
      else
        let t1 = (if sa_len (p_dtls_remote p) \<noteq> 0
                  then t\<lparr>db_dtls_ip := pt_del (rehash_dtls_ip (te_hash env) p) i (db_dtls_ip t)\<rparr> else t);
            p1 = p\<lparr>p_dtls_remote := (p_dtls_remote p)\<lparr>sa_len := 0\<rparr>\<rparr>
        in
        if sa_len addr = 0 then (0, p1, t1)
        else if sa_same_ip (p_remote p1) addr then (-1, p1, t1)
        else
          let p2 = p1\<lparr>p_dtls_remote := \<lparr>sa_raw = mem_cpy (sa_raw (p_dtls_remote p1)) (sa_raw addr) (sa_len addr),
                                        sa_len = sa_len addr\<rparr>\<rparr>
          in if \<not> te_add_dtls_ip env then (-1, p2, t1)
             else (0, p2, t1\<lparr>db_dtls_ip := pt_add (rehash_dtls_ip (te_hash env) p2) i (db_dtls_ip t1)\<rparr>))"

definition proc_table_del :: "(bytes \<Rightarrow> nat) \<Rightarrow> nat \<Rightarrow> proc_st \<Rightarrow> proc_hash_db_st \<Rightarrow> proc_hash_db_st" where
  "proc_table_del hash i p t =
     (let t1 = (if sa_len (p_dtls_remote p) > 0
                then t\<lparr>db_dtls_ip := pt_del (rehash_dtls_ip hash p) i (db_dtls_ip t)\<rparr> else t)
      in t1\<lparr>db_ip := pt_del (rehash_ip hash p) i (db_ip t1),
            db_dtls_id := pt_del (rehash_dtls_id hash p) i (db_dtls_id t1),
            db_sid := pt_del (rehash_sid hash p) i (db_sid t1)\<rparr>)"

text \<open>The comparison counts its matches in the search structure.\<close>

definition local_ip_cmp :: "saddr \<Rightarrow> proc_st \<Rightarrow> bool" where
  "local_ip_cmp a p = (sa_len a \<noteq> 0 \<and> (sa_same_ip (p_dtls_remote p) a \<or> sa_same_ip (p_remote p) a))"

fun pt_get_count ::
  "(nat \<Rightarrow> proc_st option) \<Rightarrow> nat \<Rightarrow> (proc_st \<Rightarrow> bool) \<Rightarrow> nat \<Rightarrow> proc_tbl \<Rightarrow> (nat option \<times> nat) option" where
  "pt_get_count heap h cmp found [] = Some (None, found)"
| "pt_get_count heap h cmp found ((h', i) # t) =
     (if h' \<noteq> h then pt_get_count heap h cmp found t
      else case heap i of
        None \<Rightarrow> None
      | Some p \<Rightarrow> if cmp p then Some (Some i, found + 1) else pt_get_count heap h cmp found t)"

definition proc_search_single_ip ::
  "(bytes \<Rightarrow> nat) \<Rightarrow> (nat \<Rightarrow> proc_st option) \<Rightarrow> proc_hash_db_st \<Rightarrow> saddr \<Rightarrow> nat option option" where
  "proc_search_single_ip hash heap t a =
     (let h = hash (sa_ip a) in
      case pt_get_count heap h (local_ip_cmp a) 0 (db_dtls_ip t) of
        None \<Rightarrow> None
      | Some (Some i, n) \<Rightarrow>
          if n = 1 then Some (Some i)
          else (case pt_get_count heap h (local_ip_cmp a) 0 (db_ip t) of
                  None \<Rightarrow> None
                | Some (Some j, m) \<Rightarrow> Some (if m = 1 then Some j else None)
                | Some (None, m) \<Rightarrow> Some None)
      | Some (None, n) \<Rightarrow>
          (case pt_get_count heap h (local_ip_cmp a) 0 (db_ip t) of
             None \<Rightarrow> None
           | Some (Some j, m) \<Rightarrow> Some (if m = 1 then Some j else None)
           | Some (None, m) \<Rightarrow> Some None))"

definition dtls_id_cmp :: "bytes \<Rightarrow> proc_st \<Rightarrow> bool" where
  "dtls_id_cmp ident p =
     (p_dtls_session_id_size p = length ident \<and> take (p_dtls_session_id_size p) (p_dtls_session_id p) = ident)"

definition proc_search_dtls_id ::
  "(bytes \<Rightarrow> nat) \<Rightarrow> (nat \<Rightarrow> proc_st option) \<Rightarrow> proc_hash_db_st \<Rightarrow> bytes \<Rightarrow> nat option option" where
  "proc_search_dtls_id hash heap t ident = pt_get heap (hash ident) (dtls_id_cmp ident) (db_dtls_id t)"

definition sid_cmp :: "bytes \<Rightarrow> proc_st \<Rightarrow> bool" where
  "sid_cmp sid p = (p_sid p = sid)"

definition proc_search_sid ::
  "(bytes \<Rightarrow> nat) \<Rightarrow> (nat \<Rightarrow> proc_st option) \<Rightarrow> proc_hash_db_st \<Rightarrow> bytes \<Rightarrow> nat option option" where
  "proc_search_sid hash heap t sid = pt_get heap (hash sid) (sid_cmp sid) (db_sid t)"

section \<open>Entries and keys\<close>

text \<open>
  The invariant of a table for a key function: every process occurs at most once, is alive, and
  has the key it is stored under; \<^term>\<open>None\<close> is the key of a process that is not stored.
\<close>

definition tbl_inv :: "(proc_st \<Rightarrow> nat option) \<Rightarrow> (nat \<Rightarrow> proc_st option) \<Rightarrow> proc_tbl \<Rightarrow> bool" where
  "tbl_inv key heap t \<longleftrightarrow>
     distinct (map snd t) \<and> (\<forall>(h, i) \<in> set t. \<exists>p. heap i = Some p \<and> key p = Some h)"

definition holds :: "nat \<Rightarrow> proc_tbl \<Rightarrow> bool" where
  "holds i t = (i \<in> snd ` set t)"

lemma holds_Nil [simp]: "\<not> holds i []"
  by (simp add: holds_def)

lemma holds_mem: "(h, i) \<in> set t \<Longrightarrow> holds i t"
  by (force simp: holds_def)

lemma tbl_inv_empty [simp]: "tbl_inv key heap []"
  by (simp add: tbl_inv_def)

lemma tbl_inv_add:
  "tbl_inv key heap t \<Longrightarrow> heap i = Some p \<Longrightarrow> key p = Some h \<Longrightarrow> \<not> holds i t \<Longrightarrow> tbl_inv key heap (pt_add h i t)"
  by (auto simp: tbl_inv_def pt_add_def holds_def)

lemma tbl_inv_del: "tbl_inv key heap t \<Longrightarrow> tbl_inv key heap (pt_del h i t)"
  unfolding tbl_inv_def pt_del_def
  by (auto simp: distinct_map intro: inj_on_diff)

lemma tbl_inv_holds: "tbl_inv key heap t \<Longrightarrow> holds i t \<Longrightarrow> \<exists>p h. heap i = Some p \<and> key p = Some h \<and> (h, i) \<in> set t"
  by (fastforce simp: tbl_inv_def holds_def)

lemma tbl_inv_mem: "tbl_inv key heap t \<Longrightarrow> heap i = Some p \<Longrightarrow> (h, i) \<in> set t \<Longrightarrow> key p = Some h"
  by (fastforce simp: tbl_inv_def)

lemma pt_del_gone:
  assumes "tbl_inv key heap t" "heap i = Some p" "key p = Some h"
  shows "\<not> holds i (pt_del h i t)"
proof
  assume "holds i (pt_del h i t)"
  then obtain h' where h': "(h', i) \<in> set (remove1 (h, i) t)" by (auto simp: pt_del_def holds_def)
  have d: "distinct t" using assms(1) by (auto simp: tbl_inv_def distinct_map)
  from h' have "(h', i) \<in> set t" "(h', i) \<noteq> (h, i)" using d by auto
  then show False using tbl_inv_mem [OF assms(1,2)] assms(3) by fastforce
qed

lemma tbl_inv_absent: "tbl_inv key heap t \<Longrightarrow> heap i = Some p \<Longrightarrow> key p = None \<Longrightarrow> \<not> holds i t"
  by (fastforce simp: tbl_inv_def holds_def)

lemma tbl_inv_free: "tbl_inv key heap t \<Longrightarrow> \<not> holds i t \<Longrightarrow> tbl_inv key (heap(i := v)) t"
  unfolding tbl_inv_def by (auto simp: image_iff holds_def)

lemma tbl_inv_same:
  "tbl_inv key heap t \<Longrightarrow> heap i = Some p \<Longrightarrow> key p' = key p \<Longrightarrow> tbl_inv key (heap(i \<mapsto> p')) t"
  by (fastforce simp: tbl_inv_def)

lemma holds_pt_add [simp]: "holds j (pt_add h i t) \<longleftrightarrow> j = i \<or> holds j t"
  by (auto simp: pt_add_def holds_def)

lemma holds_pt_del: "holds j (pt_del h i t) \<Longrightarrow> holds j t"
  by (auto simp: pt_del_def holds_def dest: set_remove1_subset [THEN subsetD] intro: rev_image_eqI)

text \<open>A search never follows a dangling pointer, and finds an entry with the hash that matches.\<close>

lemma pt_get_safe:
  assumes "tbl_inv key heap t"
  shows "\<exists>r. pt_get heap h cmp t = Some r \<and>
     (\<forall>j. r = Some j \<longrightarrow> (\<exists>p. heap j = Some p \<and> cmp p \<and> (h, j) \<in> set t))"
  using assms
proof (induction t)
  case (Cons e t)
  obtain h' i where e: "e = (h', i)" by (cases e)
  have "tbl_inv key heap t" using Cons.prems by (auto simp: tbl_inv_def)
  moreover obtain p where "heap i = Some p" using Cons.prems by (auto simp: e tbl_inv_def)
  ultimately show ?case using Cons.IH by (auto simp: e)
qed simp

lemma pt_get_complete:
  assumes "tbl_inv key heap t" "(h, i) \<in> set t" "heap i = Some p" "cmp p"
  shows "\<exists>j. pt_get heap h cmp t = Some (Some j)"
  using assms(2,1)
proof (induction t)
  case (Cons e t)
  obtain h' l where e: "e = (h', l)" by (cases e)
  obtain q where q: "heap l = Some q" using Cons.prems by (auto simp: e tbl_inv_def)
  show ?case
  proof (cases "(h, i) = e")
    case True
    then show ?thesis using assms by (auto simp: e)
  next
    case False
    then have "\<exists>j. pt_get heap h cmp t = Some (Some j)"
      using Cons by (auto simp: tbl_inv_def)
    then show ?thesis using q by (auto simp: e)
  qed
qed simp

lemma pt_get_count_eq:
  "pt_get_count heap h cmp n t = map_option (\<lambda>r. (r, case r of None \<Rightarrow> n | Some _ \<Rightarrow> n + 1)) (pt_get heap h cmp t)"
  by (induction heap h cmp t rule: pt_get.induct) (auto split: option.split)

lemma proc_search_single_ip_eq:
  "proc_search_single_ip hash heap t a =
     (case pt_get heap (hash (sa_ip a)) (local_ip_cmp a) (db_dtls_ip t) of
        None \<Rightarrow> None
      | Some (Some i) \<Rightarrow> Some (Some i)
      | Some None \<Rightarrow> pt_get heap (hash (sa_ip a)) (local_ip_cmp a) (db_ip t))"
  by (auto simp: proc_search_single_ip_def pt_get_count_eq Let_def split: option.split)

section \<open>Searching by key\<close>

text \<open>
  What a client of a table relies on: a process that matches the searched key is stored under
  the hash of that key.  Then the search finds a process exactly when a registered one matches.
\<close>

locale keyed_search =
  fixes key :: "proc_st \<Rightarrow> nat option" and hsh :: "'k \<Rightarrow> nat" and cmp :: "'k \<Rightarrow> proc_st \<Rightarrow> bool"
  assumes cmp_hash: "cmp k p \<Longrightarrow> key p = Some (hsh k)"
begin

lemma search_complete:
  assumes "tbl_inv key heap t" "holds i t" "heap i = Some p" "cmp k p"
  shows "\<exists>j. pt_get heap (hsh k) (cmp k) t = Some (Some j)"
proof -
  have "(hsh k, i) \<in> set t"
    using assms tbl_inv_holds [OF assms(1,2)] cmp_hash [OF assms(4)] by auto
  then show ?thesis using pt_get_complete assms by blast
qed

lemma search_iff:
  assumes "tbl_inv key heap t"
  shows "(\<exists>j. pt_get heap (hsh k) (cmp k) t = Some (Some j)) \<longleftrightarrow>
         (\<exists>i p. holds i t \<and> heap i = Some p \<and> cmp k p)"
proof
  assume "\<exists>j. pt_get heap (hsh k) (cmp k) t = Some (Some j)"
  then obtain j p where "heap j = Some p" "cmp k p" "(hsh k, j) \<in> set t"
    using pt_get_safe [OF assms, of "hsh k" "cmp k"] by auto
  then show "\<exists>i p. holds i t \<and> heap i = Some p \<and> cmp k p" using holds_mem by blast
next
  assume "\<exists>i p. holds i t \<and> heap i = Some p \<and> cmp k p"
  then show "\<exists>j. pt_get heap (hsh k) (cmp k) t = Some (Some j)" using search_complete [OF assms] by blast
qed

end

interpretation sids: keyed_search "\<lambda>p. Some (rehash_sid hash p)" hash sid_cmp for hash
  by unfold_locales (simp add: sid_cmp_def rehash_sid_def)

interpretation dtls_ids: keyed_search "\<lambda>p. Some (rehash_dtls_id hash p)" hash dtls_id_cmp for hash
  by unfold_locales (auto simp: dtls_id_cmp_def rehash_dtls_id_def)

section \<open>The four tables\<close>

definition key_dtls_ip :: "(bytes \<Rightarrow> nat) \<Rightarrow> proc_st \<Rightarrow> nat option" where
  "key_dtls_ip hash p = (if sa_len (p_dtls_remote p) > 0 then Some (rehash_dtls_ip hash p) else None)"

definition tables_ok :: "(bytes \<Rightarrow> nat) \<Rightarrow> (nat \<Rightarrow> proc_st option) \<Rightarrow> proc_hash_db_st \<Rightarrow> bool" where
  "tables_ok hash heap t \<longleftrightarrow>
     tbl_inv (\<lambda>p. Some (rehash_ip hash p)) heap (db_ip t) \<and>
     tbl_inv (key_dtls_ip hash) heap (db_dtls_ip t) \<and>
     tbl_inv (\<lambda>p. Some (rehash_dtls_id hash p)) heap (db_dtls_id t) \<and>
     tbl_inv (\<lambda>p. Some (rehash_sid hash p)) heap (db_sid t)"

abbreviation listed :: "nat \<Rightarrow> proc_hash_db_st \<Rightarrow> bool" where
  "listed i t \<equiv> holds i (db_ip t) \<or> holds i (db_dtls_ip t) \<or> holds i (db_dtls_id t) \<or> holds i (db_sid t)"

lemmas tables_frame = tbl_inv_free tbl_inv_same tbl_inv_del tbl_inv_add

lemma tables_ok_listed: "tables_ok hash heap t \<Longrightarrow> listed i t \<Longrightarrow> \<exists>p. heap i = Some p"
  by (auto simp: tables_ok_def dest: tbl_inv_holds)

lemma proc_table_init_ok: "tables_ok hash heap proc_table_init"
  by (simp add: tables_ok_def proc_table_init_def)

lemma proc_table_add_ok:
  assumes "tables_ok (te_hash env) heap t" "heap i = Some p" "\<not> listed i t"
  shows "tables_ok (te_hash env) heap (snd (proc_table_add env i p t))"
  using assms
  by (auto simp: tables_ok_def proc_table_add_def Let_def intro!: tbl_inv_add tbl_inv_del)

lemma pt_del_add [simp]: "\<not> holds i t \<Longrightarrow> pt_del h i (pt_add h i t) = t"
  by (force simp: pt_del_def pt_add_def holds_def remove1_append)

lemma proc_table_add_fail:
  "fst (proc_table_add env i p t) < 0 \<Longrightarrow> \<not> listed i t \<Longrightarrow> snd (proc_table_add env i p t) = t"
  by (auto simp: proc_table_add_def Let_def split: if_splits)

lemma proc_table_add_listed: "listed j (snd (proc_table_add env i p t)) \<Longrightarrow> j = i \<or> listed j t"
  by (auto simp: proc_table_add_def Let_def dest: holds_pt_del split: if_splits)

lemma proc_table_del_ok:
  assumes "tables_ok hash heap t" "heap i = Some p"
  shows "tables_ok hash (heap(i := None)) (proc_table_del hash i p t) \<and> \<not> listed i (proc_table_del hash i p t)"
proof -
  let ?t = "proc_table_del hash i p t"
  have "\<not> holds i (db_ip ?t)" "\<not> holds i (db_dtls_id ?t)" "\<not> holds i (db_sid ?t)"
    using assms by (auto simp: tables_ok_def proc_table_del_def Let_def dest!: pt_del_gone [where heap = heap])
  moreover have "\<not> holds i (db_dtls_ip ?t)"
  proof (cases "sa_len (p_dtls_remote p) > 0")
    case True
    then show ?thesis
      using assms pt_del_gone [of "key_dtls_ip hash" heap "db_dtls_ip t" i p "rehash_dtls_ip hash p"]
      by (simp add: tables_ok_def proc_table_del_def Let_def key_dtls_ip_def)
  next
    case False
    then have "\<not> holds i (db_dtls_ip t)"
      using assms tbl_inv_absent [of "key_dtls_ip hash" heap "db_dtls_ip t" i p]
      by (simp add: tables_ok_def key_dtls_ip_def)
    with False show ?thesis by (simp add: proc_table_del_def Let_def)
  qed
  moreover have "tables_ok hash heap ?t"
    using assms(1) by (auto simp: tables_ok_def proc_table_del_def Let_def intro: tbl_inv_del)
  ultimately show ?thesis by (simp add: tables_ok_def tbl_inv_free)
qed

lemma key_dtls_ip_simps [simp]:
  "key_dtls_ip hash (p\<lparr>p_remote := a\<rparr>) = key_dtls_ip hash p"
  "key_dtls_ip hash (p\<lparr>p_dtls_remote := b\<lparr>sa_len := 0\<rparr>\<rparr>) = None"
  by (simp_all add: key_dtls_ip_def rehash_dtls_ip_def)

text \<open>Deleting under the current key leaves no entry of the process, whatever happens to it next.\<close>

lemma tbl_inv_del_free:
  assumes "tbl_inv key heap t" "heap i = Some p" "key p = None \<or> key p = Some h"
  shows "tbl_inv key (heap(i := v)) (pt_del h i t)" "\<not> holds i (pt_del h i t)"
proof -
  show "\<not> holds i (pt_del h i t)"
    using assms pt_del_gone tbl_inv_absent holds_pt_del by blast
  then show "tbl_inv key (heap(i := v)) (pt_del h i t)"
    using assms(1) by (intro tbl_inv_free tbl_inv_del)
qed

lemma move_ip_ok:
  assumes ok: "tables_ok (te_hash env) heap t" and p: "heap i = Some p"
    and upd: "move_ip env i p addr n d t = (r, p', t')"
  shows "tables_ok (te_hash env) (heap(i \<mapsto> p')) t'"
proof -
  let ?H = "te_hash env"
  let ?h = "rehash_ip ?H p"
  let ?p1 = "p\<lparr>p_remote := \<lparr>sa_raw = mem_cpy (sa_raw (p_remote p)) addr n, sa_len = n\<rparr>\<rparr>"
  let ?hd = "rehash_dtls_ip ?H ?p1"
  have p': "p' = (if d \<and> (?hd, i) \<in> set (db_dtls_ip t) then ?p1\<lparr>p_dtls_remote := (p_dtls_remote ?p1)\<lparr>sa_len := 0\<rparr>\<rparr> else ?p1)"
    and t': "db_dtls_ip t' = (if d then pt_del ?hd i (db_dtls_ip t) else db_dtls_ip t)"
      "db_dtls_id t' = db_dtls_id t" "db_sid t' = db_sid t"
      "db_ip t' = pt_del ?h i (db_ip t) \<or> db_ip t' = pt_add (rehash_ip ?H p') i (pt_del ?h i (db_ip t))"
    using upd by (auto simp: move_ip_def Let_def split: if_split_asm)
  have keys: "rehash_dtls_id ?H p' = rehash_dtls_id ?H p" "rehash_sid ?H p' = rehash_sid ?H p"
    "rehash_dtls_ip ?H ?p1 = rehash_dtls_ip ?H p"
    by (simp_all add: p' rehash_dtls_id_def rehash_sid_def rehash_dtls_ip_def)
  have ip: "tbl_inv (\<lambda>p. Some (rehash_ip ?H p)) (heap(i \<mapsto> p')) (pt_del ?h i (db_ip t))"
    "\<not> holds i (pt_del ?h i (db_ip t))"
    using ok p tbl_inv_del_free [of "\<lambda>p. Some (rehash_ip ?H p)" heap "db_ip t" i p ?h] by (simp_all add: tables_ok_def)
  then have "tbl_inv (\<lambda>p. Some (rehash_ip ?H p)) (heap(i \<mapsto> p')) (db_ip t')"
    using t'(4) tbl_inv_add [OF ip(1) _ _ ip(2), of p'] by auto
  moreover have "tbl_inv (key_dtls_ip ?H) (heap(i \<mapsto> p')) (db_dtls_ip t')"
  proof (cases d)
    case True
    have "key_dtls_ip ?H p = None \<or> key_dtls_ip ?H p = Some ?hd" by (simp add: key_dtls_ip_def keys)
    then show ?thesis using True t'(1) ok p tbl_inv_del_free(1) by (simp add: tables_ok_def)
  next
    case False
    then have "key_dtls_ip ?H p' = key_dtls_ip ?H p" by (simp add: p')
    then show ?thesis using False t'(1) ok p tbl_inv_same by (simp add: tables_ok_def)
  qed
  moreover have "tbl_inv (\<lambda>p. Some (rehash_dtls_id ?H p)) (heap(i \<mapsto> p')) (db_dtls_id t')"
    "tbl_inv (\<lambda>p. Some (rehash_sid ?H p)) (heap(i \<mapsto> p')) (db_sid t')"
    using t'(2,3) ok p keys by (auto simp: tables_ok_def intro!: tbl_inv_same)
  ultimately show ?thesis by (simp add: tables_ok_def)
qed

lemma proc_table_update_ip_cases:
  assumes "proc_table_update_ip env i p addr n t = Some res"
  obtains "res = (0, p, t)" | d where "res = move_ip env i p addr n d t"
  using assms by (fastforce simp: proc_table_update_ip_def split: option.splits if_splits)

lemma proc_table_update_ip_ok:
  assumes "tables_ok (te_hash env) heap t" "heap i = Some p"
    and upd: "proc_table_update_ip env i p addr n t = Some (r, p', t')"
  shows "tables_ok (te_hash env) (heap(i \<mapsto> p')) t'"
  using upd
proof (cases rule: proc_table_update_ip_cases)
  case 1
  then show ?thesis using assms by (simp add: fun_upd_idem)
next
  case (2 d)
  then show ?thesis using move_ip_ok [OF assms(1,2)] by metis
qed

lemma proc_table_update_dtls_ip_ok:
  assumes ok: "tables_ok (te_hash env) heap t" and p: "heap i = Some p"
    and upd: "proc_table_update_dtls_ip env i p a t = (r, p', t')"
  shows "tables_ok (te_hash env) (heap(i \<mapsto> p')) t'"
proof (cases "p' = p \<and> t' = t")
  case True
  then show ?thesis using ok p by (simp add: fun_upd_idem)
next
  case False
  let ?H = "te_hash env" and ?h = "rehash_dtls_ip (te_hash env) p"
  let ?t1 = "if sa_len (p_dtls_remote p) \<noteq> 0 then pt_del ?h i (db_dtls_ip t) else db_dtls_ip t"
  have same: "p_remote p' = p_remote p" "p_sid p' = p_sid p" "p_dtls_session_id p' = p_dtls_session_id p"
      "p_dtls_session_id_size p' = p_dtls_session_id_size p"
      "db_ip t' = db_ip t" "db_dtls_id t' = db_dtls_id t" "db_sid t' = db_sid t"
    and t': "db_dtls_ip t' = ?t1 \<or>
      db_dtls_ip t' = pt_add (rehash_dtls_ip ?H p') i ?t1 \<and> sa_len (p_dtls_remote p') > 0"
    using upd False by (auto simp: proc_table_update_dtls_ip_def Let_def split: if_split_asm)
  have keys: "rehash_ip ?H p' = rehash_ip ?H p" "rehash_dtls_id ?H p' = rehash_dtls_id ?H p" "rehash_sid ?H p' = rehash_sid ?H p"
    by (simp_all add: same rehash_ip_def rehash_dtls_id_def rehash_sid_def)
  have inv: "tbl_inv (key_dtls_ip ?H) heap (db_dtls_ip t)" using ok by (simp add: tables_ok_def)
  have "tbl_inv (key_dtls_ip ?H) (heap(i \<mapsto> p')) ?t1 \<and> \<not> holds i ?t1"
  proof (cases "sa_len (p_dtls_remote p) = 0")
    case True
    then have "\<not> holds i (db_dtls_ip t)" using tbl_inv_absent [OF inv p] by (simp add: key_dtls_ip_def)
    then show ?thesis using True inv tbl_inv_free by simp
  next
    case False
    then have "key_dtls_ip ?H p = Some ?h" by (simp add: key_dtls_ip_def)
    then show ?thesis using False tbl_inv_del_free [OF inv p] by simp
  qed
  then have "tbl_inv (key_dtls_ip ?H) (heap(i \<mapsto> p')) (db_dtls_ip t')"
    using t' tbl_inv_add [of "key_dtls_ip ?H" "heap(i \<mapsto> p')" ?t1 i p'] by (auto simp: key_dtls_ip_def)
  moreover have "tbl_inv (\<lambda>p. Some (rehash_ip ?H p)) (heap(i \<mapsto> p')) (db_ip t')"
    "tbl_inv (\<lambda>p. Some (rehash_dtls_id ?H p)) (heap(i \<mapsto> p')) (db_dtls_id t')"
    "tbl_inv (\<lambda>p. Some (rehash_sid ?H p)) (heap(i \<mapsto> p')) (db_sid t')"
    using same ok p keys by (auto simp: tables_ok_def intro!: tbl_inv_same)
  ultimately show ?thesis by (simp add: tables_ok_def)
qed

section \<open>Ambiguous addresses\<close>

text \<open>
  C40 The search for a worker by the address of its client answers whenever a registered
  process has that address, also when several have it: the number of matches that the
  comparison counts is never more than one, because the search stops at the first match.
\<close>

theorem search_ip_ignores_duplicates:
  assumes "tables_ok hash heap t" "holds i (db_ip t)" "heap i = Some p"
    and "sa_same_ip (p_remote p) a" "sa_len a \<noteq> 0"
  shows "\<exists>j q. proc_search_single_ip hash heap t a = Some (Some j) \<and> heap j = Some q \<and> local_ip_cmp a q"
proof -
  have inv: "tbl_inv (\<lambda>p. Some (rehash_ip hash p)) heap (db_ip t)" "tbl_inv (key_dtls_ip hash) heap (db_dtls_ip t)"
    using assms(1) by (simp_all add: tables_ok_def)
  have cmp: "local_ip_cmp a p" using assms(4,5) by (simp add: local_ip_cmp_def)
  have "(hash (sa_ip a), i) \<in> set (db_ip t)"
    using tbl_inv_holds [OF inv(1) assms(2)] assms(3,4) by (auto simp: rehash_ip_def sa_same_ip_def)
  from pt_get_complete [OF inv(1) this assms(3), where cmp = "local_ip_cmp a", OF cmp]
  obtain j where j: "pt_get heap (hash (sa_ip a)) (local_ip_cmp a) (db_ip t) = Some (Some j)" by blast
  then obtain q where q: "heap j = Some q" "local_ip_cmp a q"
    using pt_get_safe [OF inv(1), of "hash (sa_ip a)" "local_ip_cmp a"] by auto
  obtain r where r: "pt_get heap (hash (sa_ip a)) (local_ip_cmp a) (db_dtls_ip t) = Some r"
    "\<forall>k. r = Some k \<longrightarrow> (\<exists>q. heap k = Some q \<and> local_ip_cmp a q)"
    using pt_get_safe [OF inv(2), of "hash (sa_ip a)" "local_ip_cmp a"] by auto
  then show ?thesis using j q by (cases r) (auto simp: proc_search_single_ip_eq)
qed

end
