(* ===== verification/Main_Session.thy ===== *)
theory Main_Session
  imports Main_Config Main_Stats Proc_Search "HOL-Library.Monad_Syntax"
begin

text \<open>
  Sessions of the main process: opening and closing a session in the security module
  (\<^verbatim>\<open>src/src/main-sec-mod-cmd.c\<close>), the tun device (\<^verbatim>\<open>tun.c\<close>), the connect and disconnect scripts
  (\<^verbatim>\<open>main-user.c\<close>, \<^verbatim>\<open>script-list.h\<close>), the cookie request of a worker (\<^verbatim>\<open>main-auth.c\<close>,
  \<^verbatim>\<open>main-worker-cmd.c\<close>) and the life of a process record (\<^verbatim>\<open>main-proc.c\<close>).

  A function returns \<^term>\<open>None\<close> when the C code would follow a NULL or dangling pointer.  The
  results of system calls are in the environment; writing to the log and the watchers of the
  event loop are left out.  \<^verbatim>\<open>exit\<close> sets a flag of the server, after which nothing happens.
\<close>

section \<open>Environment\<close>

text \<open>The reply to \<^verbatim>\<open>CMD_SECM_SESSION_OPEN\<close>.\<close>

record open_msg =
  om_session_start_time :: time_t
  om_username :: "string option"
  om_groupname :: "string option"
  om_user_agent :: "string option"
  om_device_type :: "string option"
  om_device_platform :: "string option"
  om_ip :: "string option"
  om_vhost :: "string option"
  om_ipv4_seed :: bytes
  om_config :: "group_cfg_st option"

text \<open>A failing receive has the error code \<^term>\<open>- 1 - int e\<close>.\<close>

datatype open_result = OpenSendFail | OpenRecvFail nat | OpenRejected | OpenOk open_msg

datatype close_result = CloseSendFail | CloseRecvFail nat | CloseOk u64 u64 "nat option"

text \<open>
  The environment has the answers of the security module as functions of its state.  The
  result of a terminate request is negative when sending or receiving fails, and positive when
  the module has ended a session.
\<close>

record tun_env =
  tu_fd :: nat
  tu_open :: bool
  tu_setiff :: "string option"
  tu_persist :: bool
  tu_owner :: bool
  tu_group :: "nat option"
  tu_v4_socket :: bool
  tu_v4_addr :: bool
  tu_v4_dstaddr :: bool
  tu_v4_flags :: bool
  tu_v6_socket :: bool
  tu_v6_index :: bool
  tu_v6_addr :: bool
  tu_v6_flags :: bool
  tu_v6_route :: bool

record 's main_env =
  me_now :: time_t
  me_table :: table_env
  me_cfg :: cfg_env
  me_lease :: lease_env
  me_steal4 :: bool
  me_steal6 :: bool
  me_tun :: tun_env
  me_route :: route_env
  me_ban :: ban_env
  me_ban_now :: time_t
  me_rnd :: "bytes option"
  me_alloc :: bool
  me_open :: "nat \<Rightarrow> bytes \<Rightarrow> string option \<Rightarrow> string option \<Rightarrow> 's \<Rightarrow> open_result \<times> 's"
  me_close :: "nat \<Rightarrow> session_close_req \<Rightarrow> 's \<Rightarrow> close_result \<times> 's"
  me_term_user :: "nat \<Rightarrow> string \<Rightarrow> 's \<Rightarrow> int \<times> 's"
  me_term_sid :: "nat \<Rightarrow> string \<Rightarrow> 's \<Rightarrow> int \<times> 's"
  me_safe_id :: "bytes \<Rightarrow> string"
  me_send :: int
  me_sec_send :: int
  me_fork :: "script_type \<Rightarrow> int"
  me_script_alloc :: bool
  me_wait :: "nat option"
  me_fw_script :: string
  me_mtu_socket :: bool
  me_mtu_ioctl :: bool

section \<open>The connect and disconnect scripts\<close>

definition call_user_script :: "'s main_env \<Rightarrow> script_type \<Rightarrow> nat \<Rightarrow> 's main_server_st \<Rightarrow> (int \<times> 's main_server_st) option" where
  "call_user_script env type i s =
     do {
       p \<leftarrow> ms_heap s i;
       let configured = (case type of
             SCRIPT_CONNECT \<Rightarrow> rc_connect_script (GETRCONFIG s)
           | SCRIPT_HOST_UPDATE \<Rightarrow> rc_host_update_script (GETRCONFIG s)
           | SCRIPT_DISCONNECT \<Rightarrow> rc_disconnect_script (GETRCONFIG s));
       fw \<leftarrow> (if type = SCRIPT_HOST_UPDATE then Some False
              else do { gc \<leftarrow> p_config p;
                        Some (gc_restrict_user_to_routes gc = Some True \<or> gc_fw_ports gc \<noteq> []) });
       (case (if fw then Some (me_fw_script env) else configured) of
          None \<Rightarrow> Some (0, s)
        | Some script \<Rightarrow>
            if me_fork env type < 0 then Some (-1, s)
            else
              let s1 = emit (OutScript type i script (if fw then configured else None)) s in
              if type = SCRIPT_CONNECT then
                Some (ERR_WAIT_FOR_SCRIPT,
                      if me_script_alloc env
                      then s1\<lparr>ms_scripts := (me_fork env type, i) # ms_scripts s1\<rparr> else s1)
              else Some (0, s1))
     }"

definition user_connected :: "'s main_env \<Rightarrow> nat \<Rightarrow> 's main_server_st \<Rightarrow> (int \<times> 's main_server_st) option" where
  "user_connected env i s = call_user_script env SCRIPT_CONNECT i (emit (OutUserUp i) s)"

definition user_hostname_update :: "'s main_env \<Rightarrow> nat \<Rightarrow> 's main_server_st \<Rightarrow> 's main_server_st option" where
  "user_hostname_update env i s =
     do {
       p \<leftarrow> ms_heap s i;
       if p_host_updated p then Some s
       else do {
         (ret, s1) \<leftarrow> call_user_script env SCRIPT_HOST_UPDATE i s;
         Some (upd_proc i (\<lambda>p. p\<lparr>p_host_updated := True\<rparr>) s1)
       }
     }"

definition user_disconnected :: "'s main_env \<Rightarrow> nat \<Rightarrow> 's main_server_st \<Rightarrow> 's main_server_st option" where
  "user_disconnected env i s =
     map_option snd (call_user_script env SCRIPT_DISCONNECT i (emit (OutUserDown i) s))"

text \<open>The pid of a script that is still tracked for the process, or \<^term>\<open>-1\<close>.\<close>

fun take_script :: "nat \<Rightarrow> (int \<times> nat) list \<Rightarrow> (int option \<times> (int \<times> nat) list)" where
  "take_script i [] = (None, [])"
| "take_script i ((pid, j) # l) =
     (if j = i then (Some pid, l) else (case take_script i l of (r, l') \<Rightarrow> (r, (pid, j) # l')))"

definition remove_from_script_list :: "nat \<Rightarrow> 's main_server_st \<Rightarrow> int \<times> 's main_server_st" where
  "remove_from_script_list i s =
     (case take_script i (ms_scripts s) of
        (None, l) \<Rightarrow> (-1, s)
      | (Some pid, l) \<Rightarrow>
          let s1 = s\<lparr>ms_scripts := l\<rparr> in
          if pid > 0 then (pid, emit (OutKill pid) s1) else (-1, s1))"

section \<open>Sessions in the security module\<close>

definition lease_ip_str :: "ip_lease_st option \<Rightarrow> string option" where
  "lease_ip_str lo =
     map_option (\<lambda>l. if length (il_rip l) = 4 then inet_ntop4 (il_rip l) else inet_ntop6 (il_rip l)) lo"

text \<open>The fields of the process that are copied from an accepted reply.\<close>

definition fill_from_reply :: "open_msg \<Rightarrow> string \<Rightarrow> proc_st \<Rightarrow> proc_st" where
  "fill_from_reply m user p =
     p\<lparr>p_session_start_time := om_session_start_time m,
       p_username := strlcpy 64 user,
       p_user_agent := strlcpy_opt 64 (om_user_agent m) (p_user_agent p),
       p_device_type := strlcpy_opt 64 (om_device_type m) (p_device_type p),
       p_device_platform := strlcpy_opt 64 (om_device_platform m) (p_device_platform p),
       p_groupname := strlcpy_opt 64 (om_groupname m) (p_groupname p)\<rparr>"

text \<open>The check of the address the cookie was issued to.\<close>

definition roaming_ok :: "group_cfg_st \<Rightarrow> string option \<Rightarrow> saddr \<Rightarrow> bool option" where
  "roaming_ok gc ip remote =
     (if gc_deny_roaming gc \<noteq> Some True then Some True
      else case ip of
        None \<Rightarrow> Some False
      | Some cookie_ip \<Rightarrow>
          map_option (\<lambda>str. str = Some cookie_ip)
            (human_addr2 (sa_raw remote) (sa_len remote) MAX_IP_STR False))"

definition session_accept :: "'s main_env \<Rightarrow> nat \<Rightarrow> proc_st \<Rightarrow> open_msg \<Rightarrow> 's main_server_st \<Rightarrow> (int \<times> 's main_server_st) option" where
  "session_accept env i p m s =
     (case om_username m of
        None \<Rightarrow> Some (-1, put_proc i (p\<lparr>p_session_start_time := om_session_start_time m\<rparr>) s)
      | Some user \<Rightarrow>
          let p1 = fill_from_reply m user p in
          (case om_config m of
             None \<Rightarrow> Some (-1, put_proc i p1 s)
           | Some gc \<Rightarrow>
               let vi = find_mvhost (ms_vconfig s) (om_vhost m); vh = ms_vconfig s ! vi in
               do {
                 gc' \<leftarrow> apply_default_config (me_cfg env) (mv_config vh) gc;
                 let p2 = p1\<lparr>p_ipv4_seed := om_ipv4_seed m, p_config := Some gc', p_vhost := Some vi,
                             p_usage := Some (mv_usage vh)\<rparr>;
                 let s2 = put_proc i p2 (s\<lparr>ms_usage := (ms_usage s)(mv_usage vh := ms_usage s (mv_usage vh) + 1)\<rparr>);
                 ok \<leftarrow> roaming_ok gc' (om_ip m) (p_remote p2);
                 Some (if ok then 0 else -1, s2)
               }))"

definition session_open :: "'s main_env \<Rightarrow> nat \<Rightarrow> nat \<Rightarrow> bytes \<Rightarrow> 's main_server_st \<Rightarrow> (int \<times> 's main_server_st) option" where
  "session_open env inst i cookie s =
     do {
       p \<leftarrow> ms_heap s i;
       if length cookie \<noteq> SID_SIZE then Some (-1, s)
       else
         let ip4 = lease_ip_str (p_ipv4 p); ip6 = lease_ip_str (p_ipv6 p) in
         (case me_open env inst cookie ip4 ip6 (ms_sec s) of
            (r, sec) \<Rightarrow>
              let s1 = (emit (OutSecOpen inst cookie ip4 ip6) s)\<lparr>ms_sec := sec\<rparr> in
              (case r of
                 OpenSendFail \<Rightarrow> Some (-1, s1)
               | OpenRecvFail e \<Rightarrow> Some (- 1 - int e, s1)
               | OpenRejected \<Rightarrow> Some (-1, upd_stats (update_auth_failures 1) s1)
               | OpenOk m \<Rightarrow> session_accept env i p m s1))
     }"

definition close_req :: "proc_st \<Rightarrow> session_close_req" where
  "close_req p = \<lparr>cr_sid = p_sid p, cr_bytes_in = Some (p_bytes_in p), cr_bytes_out = Some (p_bytes_out p),
                  cr_server_disconnected = p_invalidated p\<rparr>"

definition session_close :: "'s main_env \<Rightarrow> nat \<Rightarrow> nat \<Rightarrow> 's main_server_st \<Rightarrow> (int \<times> 's main_server_st) option" where
  "session_close env inst i s =
     do {
       p \<leftarrow> ms_heap s i;
       (case me_close env inst (close_req p) (ms_sec s) of
          (r, sec) \<Rightarrow>
            let s1 = (emit (OutSecClose inst (close_req p)) s)\<lparr>ms_sec := sec\<rparr> in
            (case r of
               CloseSendFail \<Rightarrow> Some (-1, s1)
             | CloseRecvFail e \<Rightarrow> Some (- 1 - int e, s1)
             | CloseOk bi bo dr \<Rightarrow>
                 let p1 = p\<lparr>p_bytes_in := bi, p_bytes_out := bo,
                            p_discon_reason := (case dr of None \<Rightarrow> p_discon_reason p | Some x \<Rightarrow> x)\<rparr>
                 in do {
                      vi \<leftarrow> p_vhost p1;
                      Some (0, update_main_stats (me_now env) p1 (mv_static (ms_vconfig s ! vi)) (put_proc i p1 s1))
                    }))
     }"

section \<open>The tun device\<close>

definition os_open_tun :: "'s main_env \<Rightarrow> proc_st \<Rightarrow> 's main_server_st \<Rightarrow> int \<times> proc_st" where
  "os_open_tun env p s =
     (let t = me_tun env; full = nw_name (rc_network (GETRCONFIG s)) @ ''%d'';
          p1 = p\<lparr>p_tun_name := take 15 full\<rparr>
      in if length full \<noteq> length (p_tun_name p1) then (-1, p1)
         else if \<not> tu_open t then (-1, p1)
         else (case tu_setiff t of
                 None \<Rightarrow> (-1, p1)
               | Some name \<Rightarrow>
                   let p2 = p1\<lparr>p_tun_name := name\<rparr> in
                   if \<not> tu_persist t then (-1, p2)
                   else if sc_uid (GETSCONFIG s) \<noteq> -1 \<and> \<not> tu_owner t then (-1, p2)
                   else if sc_gid (GETSCONFIG s) \<noteq> -1 \<and>
                           (case tu_group t of None \<Rightarrow> False | Some e \<Rightarrow> e \<noteq> 22) then (-1, p2)
                   else (int (tu_fd t), p2)))"

definition os_set_ipv6_addr :: "'s main_env \<Rightarrow> bool" where
  "os_set_ipv6_addr env =
     (let t = me_tun env in tu_v6_socket t \<and> tu_v6_index t \<and> tu_v6_addr t \<and> tu_v6_flags t \<and> tu_v6_route t)"

definition set_ipv4_addr :: "'s main_env \<Rightarrow> bool" where
  "set_ipv4_addr env = (let t = me_tun env in tu_v4_socket t \<and> tu_v4_addr t \<and> tu_v4_dstaddr t \<and> tu_v4_flags t)"

definition lease_set :: "ip_lease_st option \<Rightarrow> bool" where
  "lease_set lo = (case lo of None \<Rightarrow> False | Some l \<Rightarrow> il_lip l \<noteq> [] \<and> il_rip l \<noteq> [])"

definition set_network_info :: "'s main_env \<Rightarrow> nat \<Rightarrow> proc_st \<Rightarrow> 's main_server_st \<Rightarrow> int \<times> 's main_server_st" where
  "set_network_info env i p s =
     (if lease_set (p_ipv4 p) \<and> \<not> set_ipv4_addr env then (-1, put_proc i p s)
      else
        let s1 = (case p_ipv4 p of
                    Some l \<Rightarrow> if lease_set (p_ipv4 p) then emit (OutIf4 (p_tun_name p) (il_lip l) (il_rip l)) s else s
                  | None \<Rightarrow> s);
            (p2, s2) = (case p_ipv6 p of
                          Some l \<Rightarrow>
                            if \<not> lease_set (p_ipv6 p) then (p, s1)
                            else if os_set_ipv6_addr env
                            then (p, emit (OutIf6 (p_tun_name p) (il_lip l) (il_rip l) (il_prefix l)) s1)
                            else (p\<lparr>p_ipv6 := None\<rparr>, s1\<lparr>ms_leases := remove_ip_lease (ms_leases s1) l\<rparr>)
                        | None \<Rightarrow> (p, s1))
        in (if p_ipv6 p2 = None \<and> p_ipv4 p2 = None then -1 else 0, put_proc i p2 s2))"

text \<open>The part of a process that the address pool reads and writes.\<close>

definition lease_view :: "main_vhost \<Rightarrow> proc_st \<Rightarrow> group_cfg_st \<Rightarrow> lease_proc" where
  "lease_view vh p gc =
     (let nw = rc_network (mv_config vh) in
      \<lparr>lp_ipv4 = p_ipv4 p, lp_ipv6 = p_ipv6 p,
       lp_config = \<lparr>nc_ipv4 = gc_ipv4_net gc, nc_ipv4_netmask = gc_ipv4_netmask gc, nc_ipv6 = gc_ipv6_net gc,
                    nc_ipv6_prefix = (case gc_ipv6_prefix gc of None \<Rightarrow> 0 | Some x \<Rightarrow> unat x),
                    nc_ipv6_subnet_prefix = (case gc_ipv6_subnet_prefix gc of None \<Rightarrow> 0 | Some x \<Rightarrow> unat x)\<rparr>,
       lp_explicit_ipv4 = gc_explicit_ipv4 gc, lp_explicit_ipv6 = gc_explicit_ipv6 gc,
       lp_network = \<lparr>nc_ipv4 = nw_ipv4_network nw, nc_ipv4_netmask = nw_ipv4_netmask nw,
                     nc_ipv6 = nw_ipv6_network nw, nc_ipv6_prefix = unat (nw_ipv6_prefix nw),
                     nc_ipv6_subnet_prefix = unat (nw_ipv6_subnet_prefix nw)\<rparr>,
       lp_ipv4_seed = p_ipv4_seed p\<rparr>)"

definition put_leases :: "lease_proc \<Rightarrow> proc_st \<Rightarrow> proc_st" where
  "put_leases lp p = p\<lparr>p_ipv4 := lp_ipv4 lp, p_ipv6 := lp_ipv6 lp\<rparr>"

definition open_tun :: "'s main_env \<Rightarrow> nat \<Rightarrow> 's main_server_st \<Rightarrow> (int \<times> 's main_server_st) option" where
  "open_tun env i s =
     do {
       p \<leftarrow> ms_heap s i;
       gc \<leftarrow> p_config p;
       vi \<leftarrow> p_vhost p;
       (case get_ip_leases (me_lease env) (ms_leases s) (lease_view (ms_vconfig s ! vi) p gc) of
          (ret, db, lp) \<Rightarrow>
            let p1 = put_leases lp p; s1 = s\<lparr>ms_leases := db\<rparr> in
            if ret < 0 then Some (ret, put_proc i p1 s1)
            else
              (case os_open_tun env p1 s1 of
                 (fd, p2) \<Rightarrow>
                   if fd < 0 then Some (-1, put_proc i p2 s1)
                   else if p_tun_name p2 = [] then Some (-1, put_proc i p2 s1)
                   else
                     (case set_network_info env i p2 s1 of
                        (r, s2) \<Rightarrow>
                          if r < 0 then Some (-1, s2)
                          else Some (0, upd_proc i (\<lambda>p. p\<lparr>p_tun_fd := fd\<rparr>) s2))))
     }"

text \<open>The leases of a process, for the operations that do not read its configuration.\<close>

definition lease_slots :: "proc_st \<Rightarrow> lease_proc" where
  "lease_slots p =
     (let none = \<lparr>nc_ipv4 = None, nc_ipv4_netmask = None, nc_ipv6 = None, nc_ipv6_prefix = 0,
                  nc_ipv6_subnet_prefix = 0\<rparr>
      in \<lparr>lp_ipv4 = p_ipv4 p, lp_ipv6 = p_ipv6 p, lp_config = none, lp_explicit_ipv4 = None,
          lp_explicit_ipv6 = None, lp_network = none, lp_ipv4_seed = p_ipv4_seed p\<rparr>)"

section \<open>The cookie request\<close>

definition send_cookie_auth_reply :: "'s main_env \<Rightarrow> nat \<Rightarrow> bool \<Rightarrow> 's main_server_st \<Rightarrow> (int \<times> 's main_server_st) option" where
  "send_cookie_auth_reply env i ok s =
     do {
       p \<leftarrow> ms_heap s i;
       if ok \<and> p_tun_name p \<noteq> [] then
         (if p_sec_mod_index p \<ge> length (ms_instances s) then None
          else if me_send env < 0 then Some (me_send env, s)
          else Some (0, emit (OutCookieOk i (p_tun_fd p) (p_sid p) (p_username p)) s))
       else if me_send env < 0 then Some (me_send env, s)
       else Some (0, emit (OutCookieFailed i) s)
     }"

text \<open>
  A new session with the cookie of process \<^term>\<open>j\<close>: its leases move to the new process and
  it is killed.  The flag says that the two belong to different users.
\<close>

definition take_over :: "'s main_env \<Rightarrow> nat \<Rightarrow> proc_st \<Rightarrow> nat \<Rightarrow> 's main_server_st \<Rightarrow> (bool \<times> 's main_server_st) option" where
  "take_over env i p j s =
     do {
       q \<leftarrow> ms_heap s j;
       if p_username p \<noteq> p_username q then Some (True, s)
       else
         (case steal_ip_leases (me_steal4 env) (me_steal6 env) (lease_slots q) (lease_slots p) of
            (lq, lp) \<Rightarrow>
              let q1 = (put_leases lq q)\<lparr>p_pid_killed := (p_pid q > 0 \<or> p_pid_killed q)\<rparr>;
                  s' = put_proc i (put_leases lp p) (put_proc j q1 s)
              in Some (False, if p_pid q > 0 then emit (OutKill (p_pid q)) s' else s'))
     }"

text \<open>After the security module has accepted the cookie, which the process \<^term>\<open>old\<close> may also have.\<close>

definition bind_session ::
  "'s main_env \<Rightarrow> nat \<Rightarrow> bytes \<Rightarrow> string option \<Rightarrow> nat option \<Rightarrow> 's main_server_st \<Rightarrow> (int \<times> 's main_server_st) option" where
  "bind_session env i cookie hostname old s =
     do {
       p \<leftarrow> ms_heap s i;
       (mismatch, s1) \<leftarrow> (case old of None \<Rightarrow> Some (False, s) | Some j \<Rightarrow> take_over env i p j s);
       if mismatch then Some (-1, s1)
       else do {
         let s2 = upd_proc i (\<lambda>p. p\<lparr>p_sid := cookie, p_active_sid := True,
                                   p_hostname := strlcpy_opt 64 hostname (p_hostname p)\<rparr>) s1;
         p2 \<leftarrow> ms_heap s2 i;
         (case proc_table_add (me_table env) i p2 (ms_table s2) of
            (r, t) \<Rightarrow> Some (if r < 0 then -1 else 0, s2\<lparr>ms_table := t\<rparr>))
       }
     }"

definition handle_auth_cookie_req ::
  "'s main_env \<Rightarrow> nat \<Rightarrow> nat \<Rightarrow> bytes \<Rightarrow> string option \<Rightarrow> 's main_server_st \<Rightarrow> (int \<times> 's main_server_st) option" where
  "handle_auth_cookie_req env inst i cookie hostname s =
     (if length cookie \<noteq> SID_SIZE then Some (-1, s)
      else case me_rnd env of
        None \<Rightarrow> Some (-1, s)
      | Some dtls_id \<Rightarrow>
          let s1 = upd_proc i (\<lambda>p. p\<lparr>p_dtls_session_id := dtls_id, p_dtls_session_id_size := 32\<rparr>) s in
          do {
            old \<leftarrow> proc_search_sid (te_hash (me_table env)) (ms_heap s1) (ms_table s1) cookie;
            invalid \<leftarrow> (case old of None \<Rightarrow> Some False | Some j \<Rightarrow> map_option p_invalidated (ms_heap s1 j));
            if invalid then Some (-1, s1)
            else do {
              (ret, s2) \<leftarrow> session_open env inst i cookie s1;
              if ret < 0 then Some (-1, s2) else bind_session env i cookie hostname old s2
            }
          })"

text \<open>The loop of \<^verbatim>\<open>check_multiple_users\<close>; \<^term>\<open>entries\<close> counts the sessions of the user.\<close>

fun count_users :: "(nat \<Rightarrow> proc_st option) \<Rightarrow> nat \<Rightarrow> string \<Rightarrow> nat \<Rightarrow> nat \<Rightarrow> nat list \<Rightarrow> int option" where
  "count_users heap i user mx entries [] = Some 0"
| "count_users heap i user mx entries (j # l) =
     do {
       q \<leftarrow> heap j;
       if j \<noteq> i \<and> p_pid q \<noteq> -1 \<and> \<not> p_pid_killed q \<and> p_username q = user then
         (if entries + 1 > mx then Some (-1) else count_users heap i user mx (entries + 1) l)
       else count_users heap i user mx entries l
     }"

definition check_multiple_users :: "nat \<Rightarrow> 's main_server_st \<Rightarrow> int option" where
  "check_multiple_users i s =
     do {
       p \<leftarrow> ms_heap s i;
       gc \<leftarrow> p_config p;
       let mx = (case gc_max_same_clients gc of None \<Rightarrow> 0 | Some m \<Rightarrow> unat m);
       if mx = 0 then Some 0
       else count_users (ms_heap s) i (p_username p) mx 1 (ms_procs s)
     }"

definition accept_user :: "'s main_env \<Rightarrow> nat \<Rightarrow> 's main_server_st \<Rightarrow> (int \<times> 's main_server_st) option" where
  "accept_user env i s =
     do {
       r \<leftarrow> check_multiple_users i s;
       if r < 0 then Some (r, s)
       else do {
         (ret, s1) \<leftarrow> open_tun env i s;
         if ret < 0 then Some (-1, s1) else user_connected env i s1
       }
     }"

definition iroute_view :: "proc_st \<Rightarrow> iroute_proc" where
  "iroute_view p = \<lparr>ir_iroutes = map_option (\<lambda>gc. items (gc_iroutes gc)) (p_config p),
                    ir_dev = p_tun_name p, ir_applied = p_applied_iroutes p\<rparr>"

definition handle_script_exit :: "'s main_env \<Rightarrow> nat \<Rightarrow> int \<Rightarrow> 's main_server_st \<Rightarrow> (int \<times> 's main_server_st) option" where
  "handle_script_exit env i code s =
     do {
       (ret, s') \<leftarrow>
         (if code = 0 then
            do {
              (r, s1) \<leftarrow> send_cookie_auth_reply env i True s;
              if r < 0 then Some (ERR_BAD_COMMAND, s1)
              else do {
                p \<leftarrow> ms_heap s1 i;
                (r2, ip, log) \<leftarrow> apply_iroutes (me_route env) (iroute_view p) (ms_route_log s1);
                let s2 = put_proc i (p\<lparr>p_applied_iroutes := ir_applied ip\<rparr>) (s1\<lparr>ms_route_log := log\<rparr>);
                if r2 < 0 then Some (ERR_BAD_COMMAND, s2)
                else Some (0, upd_proc i (\<lambda>p. p\<lparr>p_status := PS_AUTH_COMPLETED\<rparr>) s2)
              }
            }
          else
            do {
              (r, s1) \<leftarrow> send_cookie_auth_reply env i False s;
              Some (if r < 0 then ERR_BAD_COMMAND else 0, s1)
            });
       Some (ret, upd_proc i (\<lambda>p. p\<lparr>p_tun_fd := -1\<rparr>) s')
     }"

text \<open>The first half of \<^verbatim>\<open>handle_cookie_auth_res\<close>: the new status of the process.\<close>

definition set_status :: "nat \<Rightarrow> ps_status \<Rightarrow> 's main_server_st \<Rightarrow> 's main_server_st" where
  "set_status i st s = upd_proc i (\<lambda>p. p\<lparr>p_status := st\<rparr>) s"

definition cookie_verdict :: "'s main_env \<Rightarrow> nat \<Rightarrow> int \<Rightarrow> 's main_server_st \<Rightarrow> (int \<times> 's main_server_st) option" where
  "cookie_verdict env i result s =
     (if result = 0 then
        do {
          (r, s') \<leftarrow> accept_user env i s;
          Some (r, set_status i (if r < 0 then PS_AUTH_FAILED else PS_AUTH_COMPLETED) s')
        }
      else Some (if result < 0 then result else ERR_BAD_COMMAND, set_status i PS_AUTH_FAILED s))"

definition handle_cookie_auth_res :: "'s main_env \<Rightarrow> nat \<Rightarrow> int \<Rightarrow> 's main_server_st \<Rightarrow> (int \<times> 's main_server_st) option" where
  "handle_cookie_auth_res env i result s =
     do {
       (ret, s1) \<leftarrow> cookie_verdict env i result s;
       if ret = ERR_WAIT_FOR_SCRIPT then Some (0, s1)
       else do {
         (r, s2) \<leftarrow> handle_script_exit env i ret s1;
         Some (r, if r < 0 then set_status i PS_AUTH_FAILED s2 else s2)
       }
     }"

section \<open>Process records\<close>

definition new_proc :: "'s main_env \<Rightarrow> int \<Rightarrow> int \<Rightarrow> saddr \<Rightarrow> saddr \<Rightarrow> 's main_server_st \<Rightarrow> nat option \<times> 's main_server_st" where
  "new_proc env pid cmd_fd remote our s =
     (if \<not> me_alloc env then (None, s)
      else
        let i = ms_next s;
            p = proc_zero\<lparr>p_pid := pid, p_tun_fd := -1, p_fd := cmd_fd, p_conn_time := me_now env,
                          p_remote := \<lparr>sa_raw = mem_cpy (sa_raw saddr_zero) (sa_raw remote) (sa_len remote),
                                       sa_len = sa_len remote\<rparr>,
                          p_our := \<lparr>sa_raw = mem_cpy (sa_raw saddr_zero) (sa_raw our) (sa_len our),
                                    sa_len = sa_len our\<rparr>\<rparr>
        in (Some i,
            upd_stats (\<lambda>st. st\<lparr>st_active_clients := st_active_clients st + 1\<rparr>)
              (put_proc i p (s\<lparr>ms_next := i + 1, ms_procs := i # ms_procs s\<rparr>))))"

definition free_proc :: "'s main_env \<Rightarrow> nat \<Rightarrow> proc_st \<Rightarrow> 's main_server_st \<Rightarrow> 's main_server_st" where
  "free_proc env i p s =
     (let s1 = s\<lparr>ms_table := proc_table_del (te_hash (me_table env)) i p (ms_table s)\<rparr>;
          s2 = (case p_usage p of
                  None \<Rightarrow> s1
                | Some c \<Rightarrow> s1\<lparr>ms_usage := (ms_usage s1)(c := ms_usage s1 c - 1)\<rparr>)
      in s2\<lparr>ms_heap := (ms_heap s2)(i := None)\<rparr>)"

definition drop_leases :: "nat \<Rightarrow> proc_st \<Rightarrow> 's main_server_st \<Rightarrow> 's main_server_st" where
  "drop_leases i p s =
     (if p_ipv4 p = None \<and> p_ipv6 p = None then s
      else (case remove_ip_leases (ms_leases s) (lease_slots p) of
              (db, lp) \<Rightarrow> put_proc i (put_leases lp p) (s\<lparr>ms_leases := db\<rparr>)))"

text \<open>The exit code in a wait status; it is 0 for a process that was killed by a signal.\<close>

definition WEXITSTATUS :: "nat \<Rightarrow> nat" where
  "WEXITSTATUS w = w div 256 mod 256"

text \<open>The second half of \<^verbatim>\<open>remove_proc\<close>, after the session has been closed.\<close>

definition remove_proc_rest :: "'s main_env \<Rightarrow> nat \<Rightarrow> 's main_server_st \<Rightarrow> 's main_server_st option" where
  "remove_proc_rest env i s =
     (case remove_from_script_list i s of
        (pid, s1) \<Rightarrow>
          do {
            p \<leftarrow> ms_heap s1 i;
            s2 \<leftarrow> (if pid > 0 then (case me_wait env of
                                       Some w \<Rightarrow> if WEXITSTATUS w = 0 then user_disconnected env i s1 else Some s1
                                     | None \<Rightarrow> Some s1)
                   else if p_status p = PS_AUTH_COMPLETED then user_disconnected env i s1
                   else Some s1);
            let s3 = upd_proc i (\<lambda>p. p\<lparr>p_fd := -1, p_pid := -1\<rparr>) s2;
            p3 \<leftarrow> ms_heap s3 i;
            (ip, log) \<leftarrow> remove_iroutes (me_route env) (iroute_view p3) (ms_route_log s3);
            let p4 = p3\<lparr>p_applied_iroutes := ir_applied ip, p_tun_fd := -1\<rparr>;
            let s5 = drop_leases i p4 (put_proc i p4 (s3\<lparr>ms_route_log := log\<rparr>));
            p5 \<leftarrow> ms_heap s5 i;
            Some (free_proc env i p5 s5)
          })"

definition remove_proc :: "'s main_env \<Rightarrow> nat \<Rightarrow> bool \<Rightarrow> bool \<Rightarrow> 's main_server_st \<Rightarrow> 's main_server_st option" where
  "remove_proc env i kill quit s =
     do {
       p \<leftarrow> ms_heap s i;
       let s1 = upd_stats (\<lambda>st. st\<lparr>st_active_clients := st_active_clients st - 1\<rparr>)
                  (s\<lparr>ms_procs := remove1 i (ms_procs s)\<rparr>);
       let s2 = (if kill \<and> p_pid p \<noteq> -1 \<and> p_pid p \<noteq> 0 then emit (OutKill (p_pid p)) s1 else s1);
       if p_active_sid p \<and> \<not> quit then
         (if p_sec_mod_index p \<ge> length (ms_instances s) then None
          else do {
            (ret, s3) \<leftarrow> session_close env (p_sec_mod_index p) i s2;
            if ret < 0 then Some (s3\<lparr>ms_exited := True\<rparr>)
            else remove_proc_rest env i s3
          })
       else remove_proc_rest env i s2
     }"

end
