(* ===== verification/Main_Cmd.thy ===== *)
theory Main_Cmd
  imports Main_Session
begin

text \<open>
  The events of the main process: messages of workers (\<^verbatim>\<open>src/src/main-worker-cmd.c\<close>) and of the
  security module (\<^verbatim>\<open>main-sec-mod-cmd.c\<close>), connections and packets on the listening sockets,
  finished scripts and maintenance (\<^verbatim>\<open>main.c\<close>), and the requests of the administrator that end
  sessions (\<^verbatim>\<open>main-ctl-unix.c\<close>, \<^verbatim>\<open>main.h\<close>).
\<close>

section \<open>Messages of a worker\<close>

definition set_tun_mtu :: "'s main_env \<Rightarrow> nat \<Rightarrow> u32 \<Rightarrow> 's main_server_st \<Rightarrow> (int \<times> 's main_server_st) option" where
  "set_tun_mtu env i mtu s =
     do {
       p \<leftarrow> ms_heap s i;
       if p_tun_name p = [] then Some (-1, s)
       else if \<not> me_mtu_socket env then Some (-1, s)
       else if \<not> me_mtu_ioctl env then Some (-1, s)
       else Some (0, put_proc i (p\<lparr>p_mtu := mtu\<rparr>) (emit (OutMtu (p_tun_name p) mtu) s))
     }"

record session_info_msg =
  sm_tls_ciphersuite :: "string option"
  sm_dtls_ciphersuite :: "string option"
  sm_cstp_compr :: "string option"
  sm_dtls_compr :: "string option"
  sm_our_addr :: "bytes option"
  sm_remote_addr :: "bytes option"

text \<open>
  The command with its unpacked message, \<^term>\<open>None\<close> when unpacking fails.  The memory of a
  \<^verbatim>\<open>bytes\<close> field has its length, and an empty one is a NULL pointer.
\<close>

datatype worker_cmd =
    CMD_BAN_IP "(u32 \<times> nat option) option"
  | CMD_TUN_MTU "u32 option"
  | CMD_SESSION_INFO "session_info_msg option"
  | AUTH_COOKIE_REQ "(bytes \<times> string option) option"
  | CMD_LATENCY_STATS_DELTA "(u64 \<times> u64 \<times> u64) option"
  | W_UNKNOWN

text \<open>What is read from the socket: the result of \<^verbatim>\<open>recv_msg_headers\<close>, and whether memory and data are there.\<close>

record worker_msg =
  wm_ret :: int
  wm_alloc :: bool
  wm_read :: bool
  wm_cmd :: worker_cmd

abbreviation (input) MAX_MSG_SIZE :: int where "MAX_MSG_SIZE \<equiv> 16384"
abbreviation (input) RFC_791_MTU :: u32 where "RFC_791_MTU \<equiv> 68"
abbreviation (input) MAX_DTLS_MTU :: u32 where "MAX_DTLS_MTU \<equiv> 16384"

definition handle_ban_ip :: "'s main_env \<Rightarrow> nat \<Rightarrow> (u32 \<times> nat option) option \<Rightarrow> 's main_server_st \<Rightarrow> (int \<times> 's main_server_st) option" where
  "handle_ban_ip env i msg s =
     (case msg of
        None \<Rightarrow> Some (ERR_BAD_COMMAND, s)
      | Some (score, discon_reason) \<Rightarrow>
          do {
            p \<leftarrow> ms_heap s i;
            str \<leftarrow> human_addr2 (sa_raw (p_remote p)) (sa_len (p_remote p)) MAX_IP_STR False;
            remote_address \<leftarrow> str;
            (case add_str_ip_to_ban_list (me_ban env) (Some remote_address) score (ms_ban s) of
               (r, ban) \<Rightarrow>
                 let s1 = put_proc i (p\<lparr>p_discon_reason := (case discon_reason of None \<Rightarrow> p_discon_reason p | Some x \<Rightarrow> x)\<rparr>)
                            (s\<lparr>ms_ban := ban\<rparr>)
                 in if me_send env < 0 then Some (ERR_BAD_COMMAND, s1)
                    else Some (0, emit (OutBanReply i (\<not> r < 0)) s1))
          })"

definition handle_tun_mtu :: "'s main_env \<Rightarrow> nat \<Rightarrow> u32 option \<Rightarrow> 's main_server_st \<Rightarrow> (int \<times> 's main_server_st) option" where
  "handle_tun_mtu env i msg s =
     do {
       p \<leftarrow> ms_heap s i;
       vi \<leftarrow> p_vhost p;
       let dm = rc_default_mtu (mv_config (ms_vconfig s ! vi));
       let maximum = (if dm \<noteq> 0 then dm else MAX_DTLS_MTU);
       if p_status p \<noteq> PS_AUTH_COMPLETED then Some (ERR_BAD_COMMAND, s)
       else (case msg of
               None \<Rightarrow> Some (ERR_BAD_COMMAND, s)
             | Some mtu \<Rightarrow>
                 if mtu < RFC_791_MTU \<or> mtu > maximum then Some (ERR_BAD_COMMAND, s)
                 else map_option (\<lambda>(r, s'). (0, s')) (set_tun_mtu env i mtu s))
     }"

text \<open>The address as the ban list sees it: by its family for the local networks.\<close>

definition ban_view :: "saddr \<Rightarrow> sockaddr" where
  "ban_view a =
     (case sa_family (sa_raw a) of
        Some f \<Rightarrow>
          if f = AF_INET then SaIn (take 4 (drop 4 (sa_raw a)))
          else if f = AF_INET6 then SaIn6 (take 16 (drop 8 (sa_raw a))) else SaOther
      | None \<Rightarrow> SaOther)"

definition kill_proc :: "nat \<Rightarrow> 's main_server_st \<Rightarrow> 's main_server_st option" where
  "kill_proc i s =
     do {
       p \<leftarrow> ms_heap s i;
       Some (put_proc i (p\<lparr>p_pid_killed := True\<rparr>) (emit (OutKill (p_pid p)) s))
     }"

text \<open>The addresses that the PROXY protocol gave to the worker.\<close>

definition proxy_remote :: "'s main_env \<Rightarrow> nat \<Rightarrow> bytes \<Rightarrow> 's main_server_st \<Rightarrow> 's main_server_st option" where
  "proxy_remote env i addr s =
     do {
       p \<leftarrow> ms_heap s i;
       (ret, p1, t) \<leftarrow> proc_table_update_ip (me_table env) i p addr (length addr) (ms_table s);
       let s1 = put_proc i p1 (s\<lparr>ms_table := t\<rparr>);
       (case check_if_banned (me_ban env) (me_ban_now env) (ban_view (p_remote p1)) (sa_ip (p_remote p1)) (ms_ban s1) of
          (banned, ban) \<Rightarrow>
            let s2 = s1\<lparr>ms_ban := ban\<rparr> in
            if banned \<and> p_pid p1 \<noteq> -1 \<and> p_pid p1 \<noteq> 0 then kill_proc i s2 else Some s2)
     }"

definition proxy_our :: "nat \<Rightarrow> bytes \<Rightarrow> 's main_server_st \<Rightarrow> 's main_server_st" where
  "proxy_our i addr s =
     upd_proc i (\<lambda>p. p\<lparr>p_our := \<lparr>sa_raw = mem_cpy (sa_raw (p_our p)) addr (length addr), sa_len = length addr\<rparr>\<rparr>) s"

definition proxy_addrs :: "'s main_env \<Rightarrow> nat \<Rightarrow> session_info_msg \<Rightarrow> 's main_server_st \<Rightarrow> 's main_server_st option" where
  "proxy_addrs env i m s =
     do {
       s1 \<leftarrow> (case sm_remote_addr m of
                Some a \<Rightarrow> if length a \<le> SOCKADDR_STORAGE then proxy_remote env i a s else Some s
              | None \<Rightarrow> Some s);
       Some (case sm_our_addr m of
               Some a \<Rightarrow> if length a \<le> SOCKADDR_STORAGE \<and> length a > 0 then proxy_our i a s1 else s1
             | None \<Rightarrow> s1)
     }"

definition session_info_fields :: "session_info_msg \<Rightarrow> proc_st \<Rightarrow> proc_st" where
  "session_info_fields m p =
     p\<lparr>p_tls_ciphersuite := strlcpy_opt 64 (sm_tls_ciphersuite m) (p_tls_ciphersuite p),
       p_dtls_ciphersuite := strlcpy_opt 64 (sm_dtls_ciphersuite m) (p_dtls_ciphersuite p),
       p_cstp_compr := strlcpy_opt 8 (sm_cstp_compr m) (p_cstp_compr p),
       p_dtls_compr := strlcpy_opt 8 (sm_dtls_compr m) (p_dtls_compr p)\<rparr>"

definition handle_session_info :: "'s main_env \<Rightarrow> nat \<Rightarrow> session_info_msg option \<Rightarrow> 's main_server_st \<Rightarrow> (int \<times> 's main_server_st) option" where
  "handle_session_info env i msg s =
     (case msg of
        None \<Rightarrow> Some (ERR_BAD_COMMAND, s)
      | Some m \<Rightarrow>
          do {
            p \<leftarrow> ms_heap s i;
            let p1 = session_info_fields m p;
            let s1 = put_proc i p1 s;
            s2 \<leftarrow> (if p_hostname p1 \<noteq> [] then user_hostname_update env i s1 else Some s1);
            s3 \<leftarrow> (if rc_listen_proxy_proto (GETRCONFIG s2) then proxy_addrs env i m s2 else Some s2);
            Some (0, s3)
          })"

definition handle_cookie_req :: "'s main_env \<Rightarrow> nat \<Rightarrow> (bytes \<times> string option) option \<Rightarrow> 's main_server_st \<Rightarrow> (int \<times> 's main_server_st) option" where
  "handle_cookie_req env i msg s =
     do {
       p \<leftarrow> ms_heap s i;
       if p_status p \<noteq> PS_AUTH_INACTIVE then Some (ERR_BAD_COMMAND, s)
       else (case msg of
               None \<Rightarrow> Some (ERR_BAD_COMMAND, s)
             | Some (cookie, hostname) \<Rightarrow>
                 if length cookie \<noteq> SID_SIZE then Some (ERR_BAD_COMMAND, s)
                 else
                   let inst = sec_mod_instance_index_get cookie in
                   do {
                     (result, s1) \<leftarrow>
                       (if inst \<ge> length (ms_instances s) then Some (-1, s)
                        else handle_auth_cookie_req env inst i cookie hostname
                               (put_proc i (p\<lparr>p_sec_mod_index := inst\<rparr>) s));
                     (ret, s2) \<leftarrow> handle_cookie_auth_res env i result s1;
                     Some (if ret < 0 then ret else 0, s2)
                   })
     }"

definition handle_latency_delta :: "nat \<Rightarrow> (u64 \<times> u64 \<times> u64) option \<Rightarrow> 's main_server_st \<Rightarrow> (int \<times> 's main_server_st) option" where
  "handle_latency_delta i msg s =
     do {
       p \<leftarrow> ms_heap s i;
       if p_status p \<noteq> PS_AUTH_COMPLETED then Some (ERR_BAD_COMMAND, s)
       else (case msg of
               None \<Rightarrow> Some (ERR_BAD_COMMAND, s)
             | Some (median, rms, count) \<Rightarrow>
                 Some (0, upd_stats (\<lambda>st. st\<lparr>st_delta_latency :=
                    \<lparr>ls_median_total = ls_median_total (st_delta_latency st) + median,
                     ls_rms_total = ls_rms_total (st_delta_latency st) + rms,
                     ls_sample_count = ls_sample_count (st_delta_latency st) + count\<rparr>\<rparr>) s))
     }"

definition handle_worker_commands :: "'s main_env \<Rightarrow> nat \<Rightarrow> worker_msg \<Rightarrow> 's main_server_st \<Rightarrow> (int \<times> 's main_server_st) option" where
  "handle_worker_commands env i m s =
     (if wm_ret m < 0 then Some (wm_ret m, s)
      else if wm_ret m > MAX_MSG_SIZE then Some (ERR_BAD_COMMAND, s)
      else if \<not> wm_alloc m then Some (ERR_MEM, s)
      else if \<not> wm_read m then Some (ERR_BAD_COMMAND, s)
      else (case wm_cmd m of
              CMD_BAN_IP x \<Rightarrow> handle_ban_ip env i x s
            | CMD_TUN_MTU x \<Rightarrow> handle_tun_mtu env i x s
            | CMD_SESSION_INFO x \<Rightarrow> handle_session_info env i x s
            | AUTH_COOKIE_REQ x \<Rightarrow> handle_cookie_req env i x s
            | CMD_LATENCY_STATS_DELTA x \<Rightarrow> handle_latency_delta i x s
            | W_UNKNOWN \<Rightarrow> Some (ERR_BAD_COMMAND, s)))"

definition cmd_watcher_cb :: "'s main_env \<Rightarrow> nat \<Rightarrow> worker_msg \<Rightarrow> 's main_server_st \<Rightarrow> 's main_server_st option" where
  "cmd_watcher_cb env i m s =
     do {
       (ret, s1) \<leftarrow> handle_worker_commands env i m s;
       if ret < 0 then remove_proc env i (ret \<noteq> ERR_PEER_TERMINATED) False s1 else Some s1
     }"

section \<open>Messages of the security module\<close>

datatype secmod_cmd =
    CMD_SECM_BAN_IP "(string \<times> u32 \<times> bytes) option"
  | CMD_SECM_STATS "(u32 \<times> u32 \<times> u32 \<times> u32 \<times> u64) option"
  | S_UNKNOWN

text \<open>The result of \<^verbatim>\<open>recvmsg\<close>, the command number, the length field, and the data.\<close>

record secmod_msg =
  km_pool :: bool
  km_ret :: int
  km_cmdno :: nat
  km_length :: nat
  km_alloc :: bool
  km_read :: bool
  km_cmd :: secmod_cmd

definition handle_sec_mod_commands :: "'s main_env \<Rightarrow> nat \<Rightarrow> secmod_msg \<Rightarrow> 's main_server_st \<Rightarrow> int \<times> 's main_server_st" where
  "handle_sec_mod_commands env inst m s =
     (if \<not> km_pool m then (-1, s)
      else if km_ret m = -1 then (ERR_BAD_COMMAND, s)
      else if km_ret m = 0 then (ERR_BAD_COMMAND, s)
      else if km_ret m < 5 \<or> km_cmdno m \<le> 239 \<or> km_cmdno m \<ge> 255 \<or> int (km_length m) > MAX_MSG_SIZE then (ERR_BAD_COMMAND, s)
      else if \<not> km_alloc m then (ERR_MEM, s)
      else if \<not> km_read m then (ERR_BAD_COMMAND, s)
      else (case km_cmd m of
              CMD_SECM_BAN_IP None \<Rightarrow> (ERR_BAD_COMMAND, s)
            | CMD_SECM_BAN_IP (Some (ip, score, sid)) \<Rightarrow>
                (case add_str_ip_to_ban_list (me_ban env) (Some ip) score (ms_ban s) of
                   (r, ban) \<Rightarrow>
                     let s1 = s\<lparr>ms_ban := ban\<rparr> in
                     if \<not> r < 0 then (0, s1)
                     else if me_sec_send env < 0 then (ERR_BAD_COMMAND, s1)
                     else (0, emit (OutSecBanReply inst sid) s1))
            | CMD_SECM_STATS None \<Rightarrow> (ERR_BAD_COMMAND, s)
            | CMD_SECM_STATS (Some (entries, tlsdb, mx, avg, failures)) \<Rightarrow>
                (0, upd_stats (update_auth_failures failures)
                      (s\<lparr>ms_instances := (ms_instances s)[inst :=
                           \<lparr>si_client_entries = entries, si_tlsdb_entries = tlsdb,
                            si_avg_auth_time = avg, si_max_auth_time = mx\<rparr>]\<rparr>))
            | S_UNKNOWN \<Rightarrow> (ERR_BAD_COMMAND, s)))"

definition sec_mod_watcher_cb :: "'s main_env \<Rightarrow> nat \<Rightarrow> secmod_msg \<Rightarrow> 's main_server_st \<Rightarrow> 's main_server_st" where
  "sec_mod_watcher_cb env inst m s =
     (case handle_sec_mod_commands env inst m s of
        (ret, s1) \<Rightarrow> if ret < 0 then s1\<lparr>ms_abnormal := True\<rparr> else s1)"

section \<open>Scripts, maintenance and the administrator\<close>

definition script_child_watcher_cb :: "'s main_env \<Rightarrow> int \<Rightarrow> nat \<Rightarrow> nat \<Rightarrow> bool \<Rightarrow> 's main_server_st \<Rightarrow> 's main_server_st option" where
  "script_child_watcher_cb env pid i rstatus signaled s =
     (let estatus = (if signaled then 1 else WEXITSTATUS rstatus);
          s1 = s\<lparr>ms_scripts := remove1 (pid, i) (ms_scripts s)\<rparr>
      in do {
           (ret, s2) \<leftarrow> handle_script_exit env i (int estatus) s1;
           if ret < 0 then remove_proc env i True False s2 else Some s2
         })"

text \<open>A loop over the process list that removes some of the processes; it ends when main exits.\<close>

fun sweep :: "(proc_st \<Rightarrow> bool) \<Rightarrow> (nat \<Rightarrow> 's main_server_st \<Rightarrow> 's main_server_st option) \<Rightarrow> nat list \<Rightarrow> 's main_server_st \<Rightarrow> 's main_server_st option" where
  "sweep sel act [] s = Some s"
| "sweep sel act (i # l) s =
     (if ms_exited s then Some s
      else do {
        p \<leftarrow> ms_heap s i;
        s1 \<leftarrow> (if sel p then act i s else Some s);
        sweep sel act l s1
      })"

definition kill_children :: "'s main_env \<Rightarrow> 's main_server_st \<Rightarrow> 's main_server_st option" where
  "kill_children env s = sweep (\<lambda>p. p_pid p \<noteq> -1) (\<lambda>i. remove_proc env i True True) (ms_procs s) s"

definition kill_children_auth_timeout :: "'s main_env \<Rightarrow> 's main_server_st \<Rightarrow> 's main_server_st option" where
  "kill_children_auth_timeout env s =
     (let oldest = me_now env - rc_auth_timeout (GETRCONFIG s) in
      sweep (\<lambda>p. p_status p < PS_AUTH_COMPLETED \<and> p_conn_time p < oldest \<and> p_pid p \<noteq> -1)
        (\<lambda>i. remove_proc env i True False) (ms_procs s) s)"

definition perform_maintenance :: "'s main_env \<Rightarrow> 's main_server_st \<Rightarrow> 's main_server_st option" where
  "perform_maintenance env s =
     kill_children_auth_timeout env (s\<lparr>ms_ban := cleanup_banned_entries (me_ban_now env) (ms_ban s)\<rparr>)"

definition latency_watcher_cb :: "'s main_server_st \<Rightarrow> 's main_server_st" where
  "latency_watcher_cb s =
     upd_stats (\<lambda>st. st\<lparr>st_current_latency := st_delta_latency st,
                       st_delta_latency := \<lparr>ls_median_total = 0, ls_rms_total = 0, ls_sample_count = 0\<rparr>\<rparr>) s"

definition disconnect_proc :: "'s main_env \<Rightarrow> nat \<Rightarrow> 's main_server_st \<Rightarrow> 's main_server_st option" where
  "disconnect_proc env i s =
     do {
       p \<leftarrow> ms_heap s i;
       let s1 = put_proc i (p\<lparr>p_invalidated := True\<rparr>) s;
       if p_pid p \<noteq> -1 \<and> p_pid p \<noteq> 0 then Some (emit (OutKill (p_pid p)) s1)
       else remove_proc env i True False s1
     }"

definition method_disconnect_user_name :: "'s main_env \<Rightarrow> string \<Rightarrow> 's main_server_st \<Rightarrow> 's main_server_st option" where
  "method_disconnect_user_name env name s =
     sweep (\<lambda>p. p_username p = name) (disconnect_proc env) (ms_procs s) s"

text \<open>The loop stops at the first match, but for the pid -1 of the removed processes.\<close>

fun disconnect_pid :: "'s main_env \<Rightarrow> int \<Rightarrow> nat list \<Rightarrow> 's main_server_st \<Rightarrow> 's main_server_st option" where
  "disconnect_pid env pid [] s = Some s"
| "disconnect_pid env pid (i # l) s =
     (if ms_exited s then Some s
      else do {
        p \<leftarrow> ms_heap s i;
        if p_pid p \<noteq> pid then disconnect_pid env pid l s
        else do {
          s1 \<leftarrow> disconnect_proc env i s;
          if pid \<noteq> -1 then Some s1 else disconnect_pid env pid l s1
        }
      })"

definition method_disconnect_user_id :: "'s main_env \<Rightarrow> int \<Rightarrow> 's main_server_st \<Rightarrow> 's main_server_st option" where
  "method_disconnect_user_id env pid s = disconnect_pid env pid (ms_procs s) s"

text \<open>The loop over the instances of the security module; it ends at the first that has ended a session.\<close>

fun term_instances :: "(nat \<Rightarrow> 's \<Rightarrow> int \<times> 's) \<Rightarrow> nat list \<Rightarrow> 's \<Rightarrow> bool \<times> 's" where
  "term_instances f [] sec = (False, sec)"
| "term_instances f (k # ks) sec =
     (case f k sec of (r, sec') \<Rightarrow> if r > 0 then (True, sec') else term_instances f ks sec')"

definition terminate_user_sessions_in_secmod :: "'s main_env \<Rightarrow> string \<Rightarrow> 's main_server_st \<Rightarrow> 's main_server_st" where
  "terminate_user_sessions_in_secmod env name s =
     s\<lparr>ms_sec := snd (term_instances (\<lambda>k. me_term_user env k name) [0..<length (ms_instances s)] (ms_sec s))\<rparr>"

definition terminate_session_in_secmod :: "'s main_env \<Rightarrow> string \<Rightarrow> 's main_server_st \<Rightarrow> 's main_server_st" where
  "terminate_session_in_secmod env safe_id s =
     s\<lparr>ms_sec := snd (term_instances (\<lambda>k. me_term_sid env k safe_id) [0..<length (ms_instances s)] (ms_sec s))\<rparr>"

definition method_terminate_user :: "'s main_env \<Rightarrow> string \<Rightarrow> 's main_server_st \<Rightarrow> 's main_server_st option" where
  "method_terminate_user env name s =
     do {
       s1 \<leftarrow> sweep (\<lambda>p. p_username p = name) (disconnect_proc env) (ms_procs s) s;
       Some (if ms_exited s1 then s1 else terminate_user_sessions_in_secmod env name s1)
     }"

fun terminate_pid :: "'s main_env \<Rightarrow> int \<Rightarrow> nat list \<Rightarrow> 's main_server_st \<Rightarrow> 's main_server_st option" where
  "terminate_pid env pid [] s = Some s"
| "terminate_pid env pid (i # l) s =
     do {
       p \<leftarrow> ms_heap s i;
       if p_pid p \<noteq> pid then terminate_pid env pid l s
       else do {
         s1 \<leftarrow> disconnect_proc env i s;
         Some (if ms_exited s1 then s1 else terminate_session_in_secmod env (me_safe_id env (p_sid p)) s1)
       }
     }"

definition method_terminate_id :: "'s main_env \<Rightarrow> int \<Rightarrow> 's main_server_st \<Rightarrow> 's main_server_st option" where
  "method_terminate_id env pid s = terminate_pid env pid (ms_procs s) s"

definition method_terminate_session :: "'s main_env \<Rightarrow> string \<Rightarrow> 's main_server_st \<Rightarrow> 's main_server_st" where
  "method_terminate_session env safe_id s =
     (if safe_id = [] then s else terminate_session_in_secmod env safe_id s)"

definition method_unban_ip :: "bytes \<Rightarrow> 's main_server_st \<Rightarrow> 's main_server_st" where
  "method_unban_ip ip s = s\<lparr>ms_ban := snd (remove_ip_from_ban_list (ptr_of ip) (length ip) (ms_ban s))\<rparr>"

section \<open>Listening sockets\<close>

record accept_env =
  ac_fd :: bool
  ac_remote :: saddr
  ac_wrapper :: bool
  ac_our :: "saddr option"
  ac_socketpair :: bool
  ac_pid :: int
  ac_cmd_fd :: int

text \<open>
  A connection on a stream socket: first the part of \<^verbatim>\<open>listen_watcher_cb\<close> after the fork in the
  parent, then the one before it.
\<close>

definition accept_parent :: "'s main_env \<Rightarrow> accept_env \<Rightarrow> saddr \<Rightarrow> 's main_server_st \<Rightarrow> 's main_server_st" where
  "accept_parent env ac our s =
     (if ac_pid ac = -1 then s
      else (case new_proc env (ac_pid ac) (ac_cmd_fd ac) (ac_remote ac) our s of
              (None, s1) \<Rightarrow> emit (OutKill (ac_pid ac)) s1
            | (Some i, s1) \<Rightarrow> s1))"

definition listen_accept :: "'s main_env \<Rightarrow> accept_env \<Rightarrow> 's main_server_st \<Rightarrow> 's main_server_st" where
  "listen_accept env ac s =
     (let cfg = GETRCONFIG s in
      if \<not> ac_fd ac then s
      else if rc_max_clients cfg > 0 \<and> st_active_clients (ms_stats s) \<ge> rc_max_clients cfg then s
      else if \<not> ac_wrapper ac then s
      else
        let (banned, s1, our) =
              (if rc_listen_proxy_proto cfg then (False, s, saddr_zero)
               else (case check_if_banned (me_ban env) (me_ban_now env) (ban_view (ac_remote ac))
                            (sa_ip (ac_remote ac)) (ms_ban s) of
                       (b, ban) \<Rightarrow> (b, s\<lparr>ms_ban := ban\<rparr>, case ac_our ac of None \<Rightarrow> saddr_zero | Some a \<Rightarrow> a)))
        in if banned then s1
           else if \<not> ac_socketpair ac then s1
           else accept_parent env ac our s1)"

end
