(* ===== verification/Main_Udp.thy ===== *)
theory Main_Udp
  imports Main_Cmd
begin

text \<open>
  Packets on the UDP port (\<^verbatim>\<open>get_session_id\<close>, \<^verbatim>\<open>has_broken_random\<close> and \<^verbatim>\<open>forward_udp_to_owner\<close> of
  \<^verbatim>\<open>src/src/main.c\<close>): the first packet of a DTLS connection is matched to a worker by the session
  id or the application id of its client hello, any other packet by its source address.

  The receive buffer of the server is larger than most packets and keeps the bytes of earlier
  ones, so it is a byte list of its own next to the length of the packet; a read behind the
  buffer is \<^term>\<open>None\<close>.
\<close>

section \<open>Client hello\<close>

abbreviation (input) TLS_EXT_APP_ID :: nat where "TLS_EXT_APP_ID \<equiv> 48018"
abbreviation (input) RECORD_PAYLOAD_POS :: nat where "RECORD_PAYLOAD_POS \<equiv> 13"
abbreviation (input) SESSION_ID_POS :: nat where "SESSION_ID_POS \<equiv> 59"
abbreviation (input) GNUTLS_MAX_SESSION_ID :: nat where "GNUTLS_MAX_SESSION_ID \<equiv> 32"

definition byte_at :: "bytes \<Rightarrow> nat \<Rightarrow> nat option" where
  "byte_at buf k = (if k < length buf then Some (unat (buf ! k)) else None)"

definition word_at :: "bytes \<Rightarrow> nat \<Rightarrow> nat option" where
  "word_at buf k = do { a \<leftarrow> byte_at buf k; b \<leftarrow> byte_at buf (k + 1); Some (256 * a + b) }"

text \<open>Where a scan goes on: at the next position, or at the fallback.\<close>

datatype 'a scan = Next 'a | Fallback

definition SKIP8 :: "bytes \<Rightarrow> nat \<Rightarrow> nat \<Rightarrow> nat scan option" where
  "SKIP8 buf tot pos =
     (if pos + 1 > tot then Some Fallback
      else do {
        n \<leftarrow> byte_at buf pos;
        Some (if pos + 1 + n > tot then Fallback else Next (pos + 1 + n))
      })"

definition SKIP16 :: "bytes \<Rightarrow> nat \<Rightarrow> nat \<Rightarrow> nat scan option" where
  "SKIP16 buf tot pos =
     (if pos + 2 > tot then Some Fallback
      else do {
        n \<leftarrow> word_at buf pos;
        Some (if pos + 2 + n > tot then Fallback else Next (pos + 2 + n))
      })"

definition skip_then :: "nat scan option \<Rightarrow> (nat \<Rightarrow> 'a scan option) \<Rightarrow> 'a scan option" where
  "skip_then r f = (case r of None \<Rightarrow> None | Some Fallback \<Rightarrow> Some Fallback | Some (Next pos) \<Rightarrow> f pos)"

text \<open>
  The extension at the position behind its type: \<^term>\<open>None\<close> inside is an invalid format, a pair
  the position and length of the application id.
\<close>

definition app_id :: "bytes \<Rightarrow> nat \<Rightarrow> nat \<Rightarrow> (nat \<times> nat) option option" where
  "app_id buf tot pos =
     (if pos + 2 > tot then Some None
      else do {
        len \<leftarrow> word_at buf pos;
        if pos + 2 + len > tot then Some None
        else do {
          n \<leftarrow> byte_at buf (pos + 2);
          Some (if pos + 2 + 1 + n > tot then None else Some (pos + 3, n))
        }
      })"

lemma SKIP16_grows: "SKIP16 buf tot pos = Some (Next q) \<Longrightarrow> pos + 2 \<le> q \<and> q \<le> tot"
  by (auto simp: SKIP16_def Option.bind_eq_Some_conv split: if_splits)

function ext_loop :: "bytes \<Rightarrow> nat \<Rightarrow> nat \<Rightarrow> (nat \<times> nat) option scan option" where
  "ext_loop buf tot pos =
     (if pos \<ge> tot then Some Fallback
      else if pos + 4 > tot then Some Fallback
      else case word_at buf pos of
        None \<Rightarrow> None
      | Some t \<Rightarrow>
          if t = TLS_EXT_APP_ID then map_option Next (app_id buf tot (pos + 2))
          else (case SKIP16 buf tot (pos + 2) of
                  None \<Rightarrow> None
                | Some Fallback \<Rightarrow> Some Fallback
                | Some (Next q) \<Rightarrow> ext_loop buf tot q))"
  by pat_completeness auto
termination
  by (relation "measure (\<lambda>(buf, tot, pos). tot - pos)") (auto dest: SKIP16_grows)

declare ext_loop.simps [simp del]

text \<open>The session id of the hello, or \<^term>\<open>None\<close> inside when the function returns 0.\<close>

definition get_session_id :: "bool \<Rightarrow> bytes \<Rightarrow> nat \<Rightarrow> (nat \<times> nat) option option" where
  "get_session_id dtls_psk buf tot =
     (if tot < SESSION_ID_POS + GNUTLS_MAX_SESSION_ID + 2 then Some None
      else do {
        r \<leftarrow> (if \<not> dtls_psk then Some Fallback
              else skip_then (SKIP8 buf tot SESSION_ID_POS) (\<lambda>p1.
                   skip_then (SKIP8 buf tot p1) (\<lambda>p2.
                   skip_then (SKIP16 buf tot p2) (\<lambda>p3.
                   skip_then (SKIP8 buf tot p3) (\<lambda>p4.
                     if p4 + 2 > tot then Some Fallback else ext_loop buf tot (p4 + 2))))));
        (case r of
           Next found \<Rightarrow> Some found
         | Fallback \<Rightarrow>
             do { n \<leftarrow> byte_at buf SESSION_ID_POS; Some (Some (SESSION_ID_POS + 1, n)) })
      })"

definition has_broken_random :: "bool \<Rightarrow> bytes \<Rightarrow> nat \<Rightarrow> bool" where
  "has_broken_random allow_broken buf tot =
     (\<not> allow_broken \<and> tot \<ge> RECORD_PAYLOAD_POS + 14 + 32 \<and>
      list_all (\<lambda>b. b = 0) (take 32 (drop (RECORD_PAYLOAD_POS + 14) buf)))"

section \<open>Forwarding\<close>

record udp_env =
  ud_ret :: int
  ud_buf :: bytes
  ud_cli :: saddr
  ud_allow_broken :: bool
  ud_socket :: bool
  ud_connect :: bool

abbreviation (input) UDP_FD_RESEND_TIME :: int where "UDP_FD_RESEND_TIME \<equiv> 3"

definition known_version :: "bytes \<Rightarrow> bool" where
  "known_version buf =
     (\<not> (buf ! 1 \<noteq> 254 \<and> (buf ! 1 \<noteq> 1 \<and> buf ! 2 \<noteq> 0) \<and> buf ! 13 \<noteq> 254 \<and> (buf ! 13 \<noteq> 0 \<and> buf ! 14 \<noteq> 0)))"

text \<open>The socket for the client is made and passed to the worker.\<close>

definition pass_udp_fd :: "'s main_env \<Rightarrow> udp_env \<Rightarrow> bool \<Rightarrow> nat \<Rightarrow> 's main_server_st \<Rightarrow> 's main_server_st option" where
  "pass_udp_fd env ud match_ip_only i s =
     do {
       p \<leftarrow> ms_heap s i;
       if p_status p \<noteq> PS_AUTH_COMPLETED then Some s
       else do {
         gc \<leftarrow> p_config p;
         if sc_udp_port (GETSCONFIG s) = 0 \<or> gc_no_udp gc = Some True then Some s
         else if me_now env - p_udp_fd_receive_time p \<le> UDP_FD_RESEND_TIME then Some s
         else if \<not> ud_socket ud then Some s
         else if \<not> ud_connect ud then Some s
         else
           let (p1, t) = (if match_ip_only then (p, ms_table s)
                          else (case proc_table_update_dtls_ip (me_table env) i p (ud_cli ud) (ms_table s) of
                                  (r, p1, t) \<Rightarrow> (p1, t)));
               s1 = put_proc i p1 (s\<lparr>ms_table := t\<rparr>)
           in if me_send env < 0 then Some s1
              else Some (put_proc i (p1\<lparr>p_udp_fd_receive_time := me_now env\<rparr>)
                          (emit (OutUdpFd i (\<not> match_ip_only) (take (nat (ud_ret ud)) (ud_buf ud))) s1))
       }
     }"

definition forward_udp_to_owner :: "'s main_env \<Rightarrow> udp_env \<Rightarrow> 's main_server_st \<Rightarrow> 's main_server_st option" where
  "forward_udp_to_owner env ud s =
     (let buf = ud_buf ud; n = nat (ud_ret ud); hash = te_hash (me_table env) in
      if ud_ret ud < int RECORD_PAYLOAD_POS then Some s
      else if \<not> known_version buf then Some s
      else if buf ! 0 \<noteq> 22 then
        do {
          owner \<leftarrow> proc_search_single_ip hash (ms_heap s) (ms_table s) (ud_cli ud);
          (case owner of None \<Rightarrow> Some s | Some i \<Rightarrow> pass_udp_fd env ud True i s)
        }
      else if has_broken_random (ud_allow_broken ud) buf n then Some s
      else do {
        found \<leftarrow> get_session_id (rc_dtls_psk (GETRCONFIG s)) buf n;
        (case found of
           None \<Rightarrow> Some s
         | Some (pos, len) \<Rightarrow>
             if len = 0 \<or> len > GNUTLS_MAX_SESSION_ID then Some s
             else do {
               ident \<leftarrow> mem_at buf pos len;
               owner \<leftarrow> proc_search_dtls_id hash (ms_heap s) (ms_table s) ident;
               (case owner of None \<Rightarrow> Some s | Some i \<Rightarrow> pass_udp_fd env ud False i s)
             })
      })"

section \<open>Bounds of the client hello\<close>

lemma byte_at_total: "k < length buf \<Longrightarrow> \<exists>n. byte_at buf k = Some n"
  by (simp add: byte_at_def)

lemma word_at_total: "k + 1 < length buf \<Longrightarrow> \<exists>n. word_at buf k = Some n"
  by (simp add: word_at_def byte_at_def)

lemma SKIP8_total: "tot \<le> length buf \<Longrightarrow> \<exists>r. SKIP8 buf tot pos = Some r"
  by (simp add: SKIP8_def byte_at_def)

lemma SKIP16_total: "tot \<le> length buf \<Longrightarrow> \<exists>r. SKIP16 buf tot pos = Some r"
  by (simp add: SKIP16_def word_at_def byte_at_def)

lemma app_id_bound: "app_id buf tot pos = Some (Some (q, n)) \<Longrightarrow> q + n \<le> tot"
  by (auto simp: app_id_def Option.bind_eq_Some_conv split: if_splits)

lemma app_id_total: "tot < length buf \<Longrightarrow> \<exists>r. app_id buf tot pos = Some r"
  by (auto simp: app_id_def word_at_def byte_at_def)

lemma ext_loop_bound:
  "ext_loop buf tot pos = Some (Next (Some (q, n))) \<Longrightarrow> q + n \<le> tot"
proof (induction buf tot pos rule: ext_loop.induct)
  case (1 buf tot pos)
  then show ?case
    by (subst (asm) (2) ext_loop.simps) (auto dest: app_id_bound split: if_splits option.splits scan.splits)
qed

lemma ext_loop_total: "tot < length buf \<Longrightarrow> \<exists>r. ext_loop buf tot pos = Some r"
proof (induction buf tot pos rule: ext_loop.induct)
  case (1 buf tot pos)
  show ?case
  proof (cases "pos + 4 \<le> tot")
    case True
    obtain t where t: "word_at buf pos = Some t" using word_at_total [of pos buf] True 1(2) by auto
    obtain r where "SKIP16 buf tot (pos + 2) = Some r" using SKIP16_total [of tot buf "pos + 2"] 1(2) by auto
    then show ?thesis
      using 1 True t app_id_total [OF 1(2), of "pos + 2"]
      by (subst ext_loop.simps) (cases r; auto)
  qed (subst ext_loop.simps, simp)
qed

lemma skip_then_Some:
  "skip_then r f = Some x \<longleftrightarrow> r = Some Fallback \<and> x = Fallback \<or> (\<exists>pos. r = Some (Next pos) \<and> f pos = Some x)"
  by (auto simp: skip_then_def split: option.splits scan.splits)

lemma skip_then_total: "\<exists>y. r = Some y \<Longrightarrow> (\<And>pos. \<exists>x. f pos = Some x) \<Longrightarrow> \<exists>x. skip_then r f = Some x"
  by (auto simp: skip_then_def split: scan.split)

section \<open>Parsing a client hello\<close>

text \<open>Vectors of TLS with a length of one and two bytes, and an extension.\<close>

definition be2 :: "nat \<Rightarrow> bytes" where
  "be2 n = [of_nat (n div 256), of_nat (n mod 256)]"

definition vec8 :: "bytes \<Rightarrow> bytes" where
  "vec8 x = of_nat (length x) # x"

definition vec16 :: "bytes \<Rightarrow> bytes" where
  "vec16 x = be2 (length x) @ x"

definition extension :: "nat \<times> bytes \<Rightarrow> bytes" where
  "extension e = be2 (fst e) @ vec16 (snd e)"

lemma unat_byte: "n < 256 \<Longrightarrow> unat (of_nat n :: u8) = n"
  by (simp add: unsigned_of_nat take_bit_nat_eq_self)

lemma byte_at_append: "length pre = k \<Longrightarrow> byte_at (pre @ b # post) k = Some (unat b)"
  by (auto simp: byte_at_def nth_append)

lemma word_at_be2:
  assumes "n < 65536" "length pre = pos"
  shows "word_at (pre @ be2 n @ post) pos = Some n"
proof -
  have "n div 256 < 256" using assms(1) by simp
  then show ?thesis using assms(2) by (auto simp: word_at_def byte_at_def be2_def nth_append unat_byte)
qed

lemma SKIP8_vec8:
  assumes "length x < 256" "length pre = pos" "pos + 1 + length x \<le> tot"
  shows "SKIP8 (pre @ vec8 x @ post) tot pos = Some (Next (pos + 1 + length x))"
  using assms by (auto simp: SKIP8_def byte_at_def vec8_def nth_append unat_byte)

lemma SKIP16_vec16:
  assumes "length x < 65536" "length pre = pos" "pos + 2 + length x \<le> tot"
  shows "SKIP16 (pre @ vec16 x @ post) tot pos = Some (Next (pos + 2 + length x))"
  using assms word_at_be2 [OF assms(1,2), of "x @ post"] by (simp add: SKIP16_def vec16_def)

lemma extension_length [simp]: "length (extension e) = 4 + length (snd e)"
  by (simp add: extension_def vec16_def be2_def)

lemma ext_loop_skip:
  assumes "\<forall>e \<in> set es. fst e < 65536 \<and> fst e \<noteq> 48018 \<and> length (snd e) < 65536"
    and "length pre = pos" "pos + length (concat (map extension es)) \<le> tot"
  shows "ext_loop (pre @ concat (map extension es) @ post) tot pos =
         ext_loop (pre @ concat (map extension es) @ post) tot (pos + length (concat (map extension es)))"
  using assms
proof (induction es arbitrary: pre pos)
  case (Cons e es)
  obtain t d where e: "e = (t, d)" by (cases e)
  let ?buf = "pre @ concat (map extension (e # es)) @ post" and ?q = "pos + 4 + length d"
  have b1: "?buf = pre @ be2 t @ vec16 d @ concat (map extension es) @ post"
    and b2: "?buf = (pre @ be2 t) @ vec16 d @ concat (map extension es) @ post"
    and b3: "?buf = (pre @ extension e) @ concat (map extension es) @ post"
    by (simp_all add: e extension_def)
  have t: "word_at ?buf pos = Some t" unfolding b1 by (rule word_at_be2) (use Cons.prems e in simp_all)
  have "SKIP16 ?buf tot (pos + 2) = Some (Next (pos + 2 + 2 + length d))"
    unfolding b2 by (rule SKIP16_vec16) (use Cons.prems e in \<open>simp_all add: be2_def\<close>)
  moreover have "pos + 2 + 2 + length d = ?q" by simp
  ultimately have s: "SKIP16 ?buf tot (pos + 2) = Some (Next ?q)" by (simp only:)
  have "ext_loop ?buf tot pos = ext_loop ?buf tot ?q"
    using Cons.prems e unfolding ext_loop.simps [of ?buf tot pos] t s by simp
  also have "\<dots> = ext_loop ?buf tot (?q + length (concat (map extension es)))"
    unfolding b3 by (rule Cons.IH) (use Cons.prems e in simp_all)
  finally show ?case using e by (simp add: add.assoc)
qed simp

lemma ext_loop_app_id:
  assumes "length ident < 256" "length pre = pos" "pos + 5 + length ident \<le> tot"
  shows "ext_loop (pre @ extension (48018, vec8 ident) @ rest) tot pos = Some (Next (Some (pos + 5, length ident)))"
proof -
  let ?buf = "pre @ extension (48018, vec8 ident) @ rest"
  have t: "word_at ?buf pos = Some 48018"
    using word_at_be2 [of 48018 pre pos] assms(2) by (simp add: extension_def)
  have n: "word_at ?buf (pos + 2) = Some (length ident + 1)"
    using word_at_be2 [of "length ident + 1" "pre @ be2 48018" "pos + 2" "vec8 ident @ rest"] assms(1,2)
    by (simp add: extension_def vec16_def vec8_def) (simp add: be2_def)
  have "?buf = (pre @ be2 48018 @ be2 (length ident + 1)) @ of_nat (length ident) # ident @ rest"
    by (simp add: extension_def vec16_def vec8_def)
  then have "byte_at ?buf (pos + 2 + 2) = Some (length ident)"
    using byte_at_append [of "pre @ be2 48018 @ be2 (length ident + 1)" "pos + 2 + 2"] assms(1,2)
    by (simp add: be2_def unat_byte)
  then have "app_id ?buf tot (pos + 2) = Some (Some (pos + 5, length ident))"
    using n assms(3) by (simp add: app_id_def)
  then show ?thesis using t assms(3) by (subst ext_loop.simps) simp
qed

text \<open>
  C20 Parsing a client hello.  With pre-shared keys, the application id that a hello carries in
  its extension is found wherever the extension stands, for every length of the fields before
  it, whatever follows in the packet and in the buffer.
\<close>

theorem client_hello_app_id:
  assumes "length hdr = 59" "length sid < 256" "length cookie < 256" "length ciphers < 65536" "length compr < 256"
    and "\<forall>e \<in> set es. fst e < 65536 \<and> fst e \<noteq> 48018 \<and> length (snd e) < 65536" "length ident < 256" "93 \<le> tot"
    and pre: "pre = hdr @ vec8 sid @ vec8 cookie @ vec16 ciphers @ vec8 compr @ be2 n @ concat (map extension es) @
      be2 48018 @ be2 (length ident + 1) @ [of_nat (length ident)]"
    and "length pre + length ident \<le> tot"
  shows "get_session_id True (pre @ ident @ rest) tot = Some (Some (length pre, length ident))"
proof -
  let ?E = "concat (map extension es)" and ?A = "extension (48018, vec8 ident)"
  let ?buf = "pre @ ident @ rest"
  define p1 where "p1 = 60 + length sid"
  define p2 where "p2 = p1 + 1 + length cookie"
  define p3 where "p3 = p2 + 2 + length ciphers"
  define p4 where "p4 = p3 + 1 + length compr"
  have b: "?buf = hdr @ vec8 sid @ vec8 cookie @ vec16 ciphers @ vec8 compr @ be2 n @ ?E @ ?A @ rest"
    by (simp add: pre extension_def vec16_def vec8_def)
  have l: "length pre = p4 + 2 + length ?E + 5"
    using assms(1) by (simp add: pre p1_def p2_def p3_def p4_def vec8_def vec16_def be2_def)
  have tot: "p4 + 2 + length ?E + 5 + length ident \<le> tot" using assms(10) l by simp
  have s1: "SKIP8 ?buf tot 59 = Some (Next p1)"
    unfolding b using SKIP8_vec8 [of sid hdr 59 tot] assms(1,2) tot by (simp add: p1_def p2_def p3_def p4_def)
  have s2: "SKIP8 ?buf tot p1 = Some (Next p2)"
    unfolding b using SKIP8_vec8 [of cookie "hdr @ vec8 sid" p1 tot] assms(1,3) tot
    by (simp add: p1_def p2_def p3_def p4_def vec8_def)
  have s3: "SKIP16 ?buf tot p2 = Some (Next p3)"
    unfolding b using SKIP16_vec16 [of ciphers "hdr @ vec8 sid @ vec8 cookie" p2 tot] assms(1,4) tot
    by (simp add: p1_def p2_def p3_def p4_def vec8_def)
  have s4: "SKIP8 ?buf tot p3 = Some (Next p4)"
    unfolding b using SKIP8_vec8 [of compr "hdr @ vec8 sid @ vec8 cookie @ vec16 ciphers" p3 tot] assms(1,5) tot
    by (simp add: p1_def p2_def p3_def p4_def vec8_def vec16_def be2_def)
  have "ext_loop ?buf tot (p4 + 2) = ext_loop ?buf tot (p4 + 2 + length ?E)"
    unfolding b using ext_loop_skip [OF assms(6), of "hdr @ vec8 sid @ vec8 cookie @ vec16 ciphers @ vec8 compr @ be2 n" "p4 + 2" tot "?A @ rest"]
      assms(1) tot by (simp add: p1_def p2_def p3_def p4_def vec8_def vec16_def be2_def)
  also have "\<dots> = Some (Next (Some (length pre, length ident)))"
    unfolding b using ext_loop_app_id [of ident "hdr @ vec8 sid @ vec8 cookie @ vec16 ciphers @ vec8 compr @ be2 n @ ?E"
        "p4 + 2 + length ?E" tot rest] assms(1,7) tot l
    by (simp add: p1_def p2_def p3_def p4_def vec8_def vec16_def be2_def)
  finally have "ext_loop ?buf tot (p4 + 2) = Some (Next (Some (length pre, length ident)))" .
  then show ?thesis using s1 s2 s3 s4 assms(8) tot by (simp add: get_session_id_def skip_then_def)
qed

end
