(* ===== verification/Main_Inv.thy ===== *)
theory Main_Inv
  imports Main_Udp
begin

text \<open>
  The invariant of the main process and its preservation by the operations on sessions: every
  pointer to a process (process list, script list, the four search tables) leads to a live
  record, the lease table holds exactly the leases of the live processes, and a process has
  the configuration its state needs.
\<close>

section \<open>The invariant\<close>

definition mslot :: "(nat \<Rightarrow> proc_st option) \<Rightarrow> nat \<times> bool \<Rightarrow> ip_lease_st option" where
  "mslot heap k =
     (case heap (fst k) of None \<Rightarrow> None | Some p \<Rightarrow> dtor_only (if snd k then p_ipv6 p else p_ipv4 p))"

text \<open>
  Routes and devices that can be put into a command line: they have no percent sign.  The route
  check of the configuration accepts only such routes (lemma \<open>checked_route_plain\<close>).
\<close>

definition iroutes_ok :: "group_cfg_st \<Rightarrow> bool" where
  "iroutes_ok gc = list_all (route_plain []) (items (gc_iroutes gc))"

definition dev_ok :: "string \<Rightarrow> bool" where
  "dev_ok dev = (CHR ''%'' \<notin> set dev)"

definition owners :: "(int \<times> nat) list \<Rightarrow> nat set" where
  "owners l = set (map snd l)"

definition scripted :: "'s main_server_st \<Rightarrow> nat \<Rightarrow> bool" where
  "scripted s i = (i \<in> owners (ms_scripts s))"

lemma owners_simps [simp]:
  "owners [] = {}" "owners (e # l) = insert (snd e) (owners l)" "snd ` set l = owners l"
  by (simp_all add: owners_def)

text \<open>A process whose worker has not shown a cookie yet has nothing that must be undone.\<close>

definition idle_ok :: "'s main_server_st \<Rightarrow> nat \<Rightarrow> proc_st \<Rightarrow> bool" where
  "idle_ok s i p \<longleftrightarrow> \<not> p_active_sid p \<and> \<not> listed i (ms_table s) \<and> p_ipv4 p = None \<and> p_ipv6 p = None \<and>
     \<not> scripted s i \<and> \<not> p_applied_iroutes p"

definition proc_ok :: "nat set \<Rightarrow> 's main_server_st \<Rightarrow> nat \<Rightarrow> proc_st \<Rightarrow> bool" where
  "proc_ok X s i p \<longleftrightarrow>
     saddr_wf (p_remote p) \<and> saddr_wf (p_dtls_remote p) \<and> saddr_wf (p_our p) \<and>
     (p_status p = PS_AUTH_COMPLETED \<longrightarrow> p_active_sid p) \<and>
     (scripted s i \<longrightarrow> p_active_sid p) \<and>
     (p_active_sid p \<longrightarrow> p_config p \<noteq> None \<and> p_vhost p \<noteq> None \<and> p_sec_mod_index p < length (ms_instances s)) \<and>
     (\<forall>v. p_vhost p = Some v \<longrightarrow> v < length (ms_vconfig s)) \<and>
     (\<forall>gc. p_config p = Some gc \<longrightarrow> iroutes_ok gc) \<and>
     (scripted s i \<or> p_applied_iroutes p \<longrightarrow> dev_ok (p_tun_name p)) \<and>
     (p_status p = PS_AUTH_INACTIVE \<and> i \<notin> X \<longrightarrow> idle_ok s i p)"

text \<open>The first set names the processes in the middle of a cookie request.\<close>

definition core :: "(bytes \<Rightarrow> nat) \<Rightarrow> nat set \<Rightarrow> 's main_server_st \<Rightarrow> bool" where
  "core H X s \<longleftrightarrow>
     tables_ok H (ms_heap s) (ms_table s) \<and> own (ms_leases s) (mslot (ms_heap s)) \<and>
     distinct (map snd (ms_scripts s)) \<and> (\<forall>i. scripted s i \<longrightarrow> ms_heap s i \<noteq> None) \<and>
     (\<forall>i p. ms_heap s i = Some p \<longrightarrow> proc_ok X s i p) \<and> ms_vconfig s \<noteq> []"

definition procs_ok :: "'s main_server_st \<Rightarrow> bool" where
  "procs_ok s \<longleftrightarrow>
     distinct (ms_procs s) \<and> set (ms_procs s) = dom (ms_heap s) \<and> (\<forall>i \<in> set (ms_procs s). i < ms_next s) \<and>
     st_active_clients (ms_stats s) = of_nat (length (ms_procs s))"

definition main_inv :: "(bytes \<Rightarrow> nat) \<Rightarrow> 's main_server_st \<Rightarrow> bool" where
  "main_inv H s \<longleftrightarrow> core H {} s \<and> procs_ok s"

text \<open>What every operation but the ones that make or end a process leaves alone.\<close>

definition keeps :: "'s main_server_st \<Rightarrow> 's main_server_st \<Rightarrow> bool" where
  "keeps s s' \<longleftrightarrow>
     ms_procs s' = ms_procs s \<and> dom (ms_heap s') = dom (ms_heap s) \<and> ms_next s' = ms_next s \<and>
     ms_vconfig s' = ms_vconfig s \<and> st_active_clients (ms_stats s') = st_active_clients (ms_stats s) \<and>
     length (ms_instances s') = length (ms_instances s) \<and> ms_exited s' = ms_exited s"

text \<open>
  The environments in which main runs: one hash function for all tables, an allocator that
  returns blocks of the requested size, a kernel that answers \<^verbatim>\<open>TUNSETIFF\<close> with a device name
  without percent sign (it replaces the template of the request), and replies of the security
  module whose local routes have passed the route check.  Without the last two the substitution
  in the route commands may not end (see \<open>Str_Buf\<close>).
\<close>

definition menv_ok :: "(bytes \<Rightarrow> nat) \<Rightarrow> 's main_env \<Rightarrow> bool" where
  "menv_ok H env \<longleftrightarrow>
     te_hash (me_table env) = H \<and> str_env_ok (ro_str (me_route env)) \<and>
     (\<forall>name. tu_setiff (me_tun env) = Some name \<longrightarrow> dev_ok name) \<and>
     (\<forall>inst cookie a b sec m sec' gc.
        me_open env inst cookie a b sec = (OpenOk m, sec') \<longrightarrow> om_config m = Some gc \<longrightarrow> iroutes_ok gc)"

lemma menv_okD:
  assumes "menv_ok H env"
  shows "te_hash (me_table env) = H" "str_env_ok (ro_str (me_route env))"
    "tu_setiff (me_tun env) = Some name \<Longrightarrow> dev_ok name"
    "me_open env inst cookie a b sec = (OpenOk m, sec') \<Longrightarrow> om_config m = Some gc \<Longrightarrow> iroutes_ok gc"
  using assms unfolding menv_ok_def by blast+

section \<open>State updates\<close>

lemma state_simps [simp]:
  "ms_heap (emit e s) = ms_heap s" "ms_table (emit e s) = ms_table s" "ms_leases (emit e s) = ms_leases s"
  "ms_scripts (emit e s) = ms_scripts s" "ms_procs (emit e s) = ms_procs s" "ms_vconfig (emit e s) = ms_vconfig s"
  "ms_instances (emit e s) = ms_instances s" "ms_stats (emit e s) = ms_stats s" "ms_sec (emit e s) = ms_sec s"
  "ms_next (emit e s) = ms_next s" "ms_exited (emit e s) = ms_exited s" "ms_route_log (emit e s) = ms_route_log s"
  "ms_usage (emit e s) = ms_usage s" "ms_ban (emit e s) = ms_ban s"
  "ms_trace (emit e s) = ms_trace s @ [e]"
  "ms_heap (put_proc i p s) = (ms_heap s)(i \<mapsto> p)" "ms_table (put_proc i p s) = ms_table s"
  "ms_leases (put_proc i p s) = ms_leases s" "ms_scripts (put_proc i p s) = ms_scripts s"
  "ms_procs (put_proc i p s) = ms_procs s" "ms_vconfig (put_proc i p s) = ms_vconfig s"
  "ms_instances (put_proc i p s) = ms_instances s" "ms_stats (put_proc i p s) = ms_stats s"
  "ms_sec (put_proc i p s) = ms_sec s" "ms_next (put_proc i p s) = ms_next s"
  "ms_exited (put_proc i p s) = ms_exited s" "ms_route_log (put_proc i p s) = ms_route_log s"
  "ms_usage (put_proc i p s) = ms_usage s" "ms_ban (put_proc i p s) = ms_ban s"
  "ms_trace (put_proc i p s) = ms_trace s"
  "ms_heap (upd_stats f s) = ms_heap s" "ms_table (upd_stats f s) = ms_table s"
  "ms_leases (upd_stats f s) = ms_leases s" "ms_scripts (upd_stats f s) = ms_scripts s"
  "ms_procs (upd_stats f s) = ms_procs s" "ms_vconfig (upd_stats f s) = ms_vconfig s"
  "ms_instances (upd_stats f s) = ms_instances s" "ms_stats (upd_stats f s) = f (ms_stats s)"
  "ms_sec (upd_stats f s) = ms_sec s" "ms_next (upd_stats f s) = ms_next s"
  "ms_exited (upd_stats f s) = ms_exited s" "ms_trace (upd_stats f s) = ms_trace s"
  by (simp_all add: emit_def put_proc_def upd_stats_def)

lemma upd_proc_put: "ms_heap s i = Some p \<Longrightarrow> upd_proc i f s = put_proc i (f p) s"
  by (simp add: upd_proc_def)

lemma default_mvhost_simps [simp]:
  "default_mvhost (emit e s) = default_mvhost s" "default_mvhost (put_proc i p s) = default_mvhost s"
  by (simp_all add: default_mvhost_def)

text \<open>The invariant reads only these parts of the state.\<close>

lemma core_cong:
  assumes "ms_heap s' = ms_heap s" "ms_table s' = ms_table s" "ms_leases s' = ms_leases s"
    "ms_scripts s' = ms_scripts s" "ms_vconfig s' = ms_vconfig s" "length (ms_instances s') = length (ms_instances s)"
  shows "core H X s' \<longleftrightarrow> core H X s"
  using assms by (simp add: core_def proc_ok_def idle_ok_def scripted_def)

lemma core_proc: "core H X s \<Longrightarrow> ms_heap s i = Some p \<Longrightarrow> proc_ok X s i p"
  by (simp add: core_def)

lemma core_weaken: "core H X s \<Longrightarrow> X \<subseteq> Y \<Longrightarrow> core H Y s"
  by (auto simp: core_def proc_ok_def)

lemma core_finish:
  assumes "core H {i} s" "ms_heap s i = Some p" "p_status p \<noteq> PS_AUTH_INACTIVE"
  shows "core H {} s"
proof -
  have "proc_ok {} s j q" if "ms_heap s j = Some q" for j q
    using core_proc [OF assms(1) that] that assms(2,3) by (auto simp: proc_ok_def)
  then show ?thesis using assms(1) by (simp add: core_def)
qed

lemma keeps_refl [simp]: "keeps s s"
  by (simp add: keeps_def)

lemma keeps_trans [trans]: "keeps s s1 \<Longrightarrow> keeps s1 s2 \<Longrightarrow> keeps s s2"
  by (simp add: keeps_def)

lemma keeps_put [simp]: "ms_heap s i = Some p \<Longrightarrow> keeps s (put_proc i p' s)"
  by (auto simp: keeps_def)

lemma keeps_procs: "keeps s s' \<Longrightarrow> procs_ok s \<Longrightarrow> procs_ok s'"
  by (simp add: keeps_def procs_ok_def)

lemma keeps_live: "keeps s s' \<Longrightarrow> ms_heap s i = Some p \<Longrightarrow> \<exists>p'. ms_heap s' i = Some p'"
  unfolding keeps_def by (metis domD domI)

lemma mslot_upd:
  "mslot (heap(i \<mapsto> p)) = (mslot heap)((i, False) := dtor_only (p_ipv4 p), (i, True) := dtor_only (p_ipv6 p))"
  by (rule ext) (auto simp: mslot_def)

lemma mslot_own: "heap i = Some p \<Longrightarrow> mslot heap (i, False) = dtor_only (p_ipv4 p) \<and> mslot heap (i, True) = dtor_only (p_ipv6 p)"
  by (simp add: mslot_def)

lemma mslot_none: "mslot (heap(i := None)) = (mslot heap)((i, False) := None, (i, True) := None)"
  by (rule ext) (auto simp: mslot_def)

text \<open>The fields from which the search tables compute their keys.\<close>

definition keys :: "proc_st \<Rightarrow> saddr \<times> saddr \<times> bytes \<times> nat \<times> bytes" where
  "keys p = (p_remote p, p_dtls_remote p, p_dtls_session_id p, p_dtls_session_id_size p, p_sid p)"

lemma tables_ok_same:
  assumes "tables_ok H heap t" "heap i = Some p" "keys p' = keys p"
  shows "tables_ok H (heap(i \<mapsto> p')) t"
proof -
  have "rehash_ip H p' = rehash_ip H p" "key_dtls_ip H p' = key_dtls_ip H p"
    "rehash_dtls_id H p' = rehash_dtls_id H p" "rehash_sid H p' = rehash_sid H p"
    using assms(3) by (simp_all add: keys_def rehash_ip_def key_dtls_ip_def rehash_dtls_ip_def rehash_dtls_id_def rehash_sid_def)
  then show ?thesis using assms(1,2) by (auto simp: tables_ok_def intro!: tbl_inv_same)
qed

lemma tables_ok_free: "tables_ok H heap t \<Longrightarrow> \<not> listed i t \<Longrightarrow> tables_ok H (heap(i := v)) t"
  by (simp add: tables_ok_def tbl_inv_free)

lemma proc_ok_heap [simp]: "proc_ok X (put_proc i p s) = proc_ok X s" "proc_ok X (emit e s) = proc_ok X s"
  "proc_ok X (s\<lparr>ms_leases := db\<rparr>) = proc_ok X s"
  by (auto simp: fun_eq_iff proc_ok_def idle_ok_def scripted_def)

text \<open>Replacing the record of a process, when keys and leases stay.\<close>

lemma core_put_tables:
  assumes "core H X s" "ms_heap s i = Some p" "proc_ok X s i p'"
    and "tables_ok H ((ms_heap s)(i \<mapsto> p')) (ms_table s)" "p_ipv4 p' = p_ipv4 p" "p_ipv6 p' = p_ipv6 p"
  shows "core H X (put_proc i p' s)"
proof -
  have "mslot ((ms_heap s)(i \<mapsto> p')) = mslot (ms_heap s)"
    using assms(2,5,6) by (auto simp: mslot_def fun_eq_iff)
  then show ?thesis using assms by (auto simp: core_def scripted_def)
qed

lemma core_put:
  assumes "core H X s" "ms_heap s i = Some p" "proc_ok X s i p'"
    and "keys p' = keys p" "p_ipv4 p' = p_ipv4 p" "p_ipv6 p' = p_ipv6 p"
  shows "core H X (put_proc i p' s)"
  using assms by (intro core_put_tables) (auto simp: core_def intro: tables_ok_same)

lemma core_simps [simp]:
  "core H X (emit e s) = core H X s" "core H X (upd_stats f s) = core H X s"
  "core H X (s\<lparr>ms_sec := x\<rparr>) = core H X s" "core H X (s\<lparr>ms_ban := b\<rparr>) = core H X s"
  "core H X (s\<lparr>ms_route_log := l\<rparr>) = core H X s" "core H X (s\<lparr>ms_usage := u\<rparr>) = core H X s"
  "core H X (s\<lparr>ms_abnormal := a\<rparr>) = core H X s" "core H X (s\<lparr>ms_stats := st\<rparr>) = core H X s"
  "core H X (s\<lparr>ms_procs := ps\<rparr>) = core H X s"
  by (rule core_cong; simp)+

lemma keeps_simps [simp]:
  "keeps s (emit e s') = keeps s s'" "keeps s (s'\<lparr>ms_sec := x\<rparr>) = keeps s s'"
  "keeps s (s'\<lparr>ms_ban := b\<rparr>) = keeps s s'" "keeps s (s'\<lparr>ms_route_log := l\<rparr>) = keeps s s'"
  "keeps s (s'\<lparr>ms_usage := u\<rparr>) = keeps s s'" "keeps s (s'\<lparr>ms_table := t\<rparr>) = keeps s s'"
  "keeps s (s'\<lparr>ms_leases := d\<rparr>) = keeps s s'" "keeps s (s'\<lparr>ms_scripts := c\<rparr>) = keeps s s'"
  "keeps s (s'\<lparr>ms_abnormal := a\<rparr>) = keeps s s'"
  "ms_heap s' i = Some p \<Longrightarrow> keeps s (put_proc i p' s') = keeps s s'"
  by (auto simp: keeps_def emit_def)

section \<open>Scripts\<close>

lemma call_user_script_other:
  assumes "core H X s" "ms_heap s i = Some p" "type \<noteq> SCRIPT_CONNECT" "type = SCRIPT_HOST_UPDATE \<or> p_active_sid p"
  shows "\<exists>r s'. call_user_script env type i s = Some (r, s') \<and> core H X s' \<and> keeps s s' \<and>
    ms_heap s' = ms_heap s \<and> ms_scripts s' = ms_scripts s"
proof -
  have "type = SCRIPT_HOST_UPDATE \<or> (\<exists>gc. p_config p = Some gc)"
    using assms(4) core_proc [OF assms(1,2)] by (auto simp: proc_ok_def)
  then show ?thesis
    using assms by (auto simp: call_user_script_def Let_def split: option.split)
qed

lemma core_add_script:
  assumes "core H X s" "ms_heap s i = Some p" "p_active_sid p" "\<not> scripted s i" "dev_ok (p_tun_name p)"
    and "p_status p \<noteq> PS_AUTH_INACTIVE \<or> i \<in> X"
  shows "core H X (s\<lparr>ms_scripts := (pid, i) # ms_scripts s\<rparr>)"
proof -
  let ?s = "s\<lparr>ms_scripts := (pid, i) # ms_scripts s\<rparr>"
  have sc: "scripted ?s j \<longleftrightarrow> j = i \<or> scripted s j" for j by (auto simp: scripted_def)
  have "proc_ok X ?s j q" if q: "ms_heap s j = Some q" for j q
    using core_proc [OF assms(1) q] q assms(2,3,5,6) by (auto simp: proc_ok_def idle_ok_def sc)
  then show ?thesis
    using assms unfolding core_def sc by (auto simp: scripted_def)
qed

lemma user_connected_cases:
  assumes "ms_heap s i = Some p" "p_config p = Some gc"
  obtains s1 where "user_connected env i s = Some (0, s1)" "s1 = emit (OutUserUp i) s"
  | s1 where "user_connected env i s = Some (-1, s1)" "s1 = emit (OutUserUp i) s"
  | s1 e where "user_connected env i s = Some (ERR_WAIT_FOR_SCRIPT, s1)" "s1 = emit e (emit (OutUserUp i) s)"
  | s1 e pid where "user_connected env i s = Some (ERR_WAIT_FOR_SCRIPT, s1)"
      "s1 = (emit e (emit (OutUserUp i) s))\<lparr>ms_scripts := (pid, i) # ms_scripts s\<rparr>"
proof -
  let ?fw = "gc_restrict_user_to_routes gc = Some True \<or> gc_fw_ports gc \<noteq> []"
  let ?s = "emit (OutUserUp i) s"
  let ?script = "if ?fw then Some (me_fw_script env) else rc_connect_script (GETRCONFIG s)"
  have eq: "user_connected env i s =
      (case ?script of None \<Rightarrow> Some (0, ?s)
       | Some script \<Rightarrow>
           if me_fork env SCRIPT_CONNECT < 0 then Some (-1, ?s)
           else let s1 = emit (OutScript SCRIPT_CONNECT i script (if ?fw then rc_connect_script (GETRCONFIG s) else None)) ?s
             in Some (ERR_WAIT_FOR_SCRIPT, if me_script_alloc env
                      then s1\<lparr>ms_scripts := (me_fork env SCRIPT_CONNECT, i) # ms_scripts s1\<rparr> else s1))"
    by (cases ?fw; cases "rc_connect_script (GETRCONFIG s)")
      (simp_all add: user_connected_def call_user_script_def Let_def assms)
  show thesis
  proof (cases ?script)
    case None
    then show thesis using eq by (intro that(1) [OF _ refl]) simp
  next
    case script: (Some script)
    show thesis
    proof (cases "me_fork env SCRIPT_CONNECT < 0")
      case True
      then show thesis using eq script by (intro that(2) [OF _ refl]) simp
    next
      case False
      then show thesis
        using eq script
        by (cases "me_script_alloc env") (rule that(4) [OF _ refl] that(3) [OF _ refl], simp add: Let_def)+
    qed
  qed
qed

lemma user_connected_ok:
  assumes "core H X s" "ms_heap s i = Some p" "p_active_sid p" "\<not> scripted s i" "dev_ok (p_tun_name p)" "i \<in> X"
  shows "\<exists>r s'. user_connected env i s = Some (r, s') \<and> core H X s' \<and> keeps s s' \<and> ms_heap s' = ms_heap s \<and>
    (r \<noteq> ERR_WAIT_FOR_SCRIPT \<longrightarrow> ms_scripts s' = ms_scripts s) \<and> (\<forall>j. scripted s' j \<longrightarrow> j = i \<or> scripted s j)"
proof -
  obtain gc where gc: "p_config p = Some gc"
    using assms(3) core_proc [OF assms(1,2)] by (auto simp: proc_ok_def)
  have "core H X ((emit e (emit e' s))\<lparr>ms_scripts := (pid, i) # ms_scripts s\<rparr>)" for e e' pid
    using core_add_script [of H X "emit e (emit e' s)" i p pid] assms by (simp add: scripted_def)
  then show ?thesis
    using assms(1) by (rule_tac user_connected_cases [OF assms(2) gc, of env]) (simp_all add: scripted_def)
qed

lemma user_disconnected_ok:
  assumes "core H X s" "ms_heap s i = Some p" "p_active_sid p"
  shows "\<exists>s'. user_disconnected env i s = Some s' \<and> core H X s' \<and> keeps s s' \<and>
    ms_heap s' = ms_heap s \<and> ms_scripts s' = ms_scripts s"
  using call_user_script_other [of H X "emit (OutUserDown i) s" i p SCRIPT_DISCONNECT env] assms
  by (auto simp: user_disconnected_def keeps_def)

lemma core_host_updated:
  assumes "core H X s" "ms_heap s i = Some p"
  shows "core H X (put_proc i (p\<lparr>p_host_updated := b\<rparr>) s)"
proof -
  have "proc_ok X s i (p\<lparr>p_host_updated := b\<rparr>)"
    using core_proc [OF assms] by (simp add: proc_ok_def idle_ok_def)
  then show ?thesis using assms by (intro core_put [of _ _ _ _ p]) (simp_all add: keys_def)
qed

lemma user_hostname_update_ok:
  assumes "core H X s" "ms_heap s i = Some p"
  shows "\<exists>s' b. user_hostname_update env i s = Some s' \<and> core H X s' \<and> keeps s s' \<and>
    ms_heap s' = (ms_heap s)(i \<mapsto> p\<lparr>p_host_updated := b\<rparr>)"
proof (cases "p_host_updated p")
  case True
  then have "p\<lparr>p_host_updated := True\<rparr> = p" by (cases p) simp
  then have "(ms_heap s)(i \<mapsto> p\<lparr>p_host_updated := True\<rparr>) = ms_heap s"
    using assms(2) by (simp add: fun_upd_idem)
  then show ?thesis
    using True assms by (intro exI [of _ s] exI [of _ True]) (simp add: user_hostname_update_def)
next
  case False
  obtain r s1 where s1: "call_user_script env SCRIPT_HOST_UPDATE i s = Some (r, s1)" "core H X s1" "keeps s s1"
      "ms_heap s1 = ms_heap s"
    using call_user_script_other [OF assms, of SCRIPT_HOST_UPDATE env] by auto
  then have live: "ms_heap s1 i = Some p" using assms(2) by simp
  have "user_hostname_update env i s = Some (put_proc i (p\<lparr>p_host_updated := True\<rparr>) s1)"
    using False s1(1) assms(2) live by (simp add: user_hostname_update_def upd_proc_put)
  then show ?thesis using core_host_updated [OF s1(2) live] s1(3,4) live
    by (intro exI [of _ "put_proc i (p\<lparr>p_host_updated := True\<rparr>) s1"] exI [of _ True]) simp
qed

lemma take_script_spec:
  "take_script i l = (r, l') \<Longrightarrow> distinct (map snd l) \<Longrightarrow>
     i \<notin> owners l' \<and> distinct (map snd l') \<and> owners l' = owners l - {i} \<and> (r = None \<longleftrightarrow> i \<notin> owners l)"
proof (induction l arbitrary: r l')
  case (Cons e l)
  obtain pid j where e: "e = (pid, j)" by (cases e)
  obtain r1 l1 where 1: "take_script i l = (r1, l1)" by fastforce
  show ?case
  proof (cases "j = i")
    case True
    then show ?thesis using Cons.prems by (auto simp: e)
  next
    case False
    have "i \<notin> owners l1" "distinct (map snd l1)" "owners l1 = owners l - {i}" "r1 = None \<longleftrightarrow> i \<notin> owners l"
      using Cons.IH [OF 1] Cons.prems by simp_all
    moreover have "r = r1" "l' = (pid, j) # l1" "j \<notin> owners l"
      using Cons.prems False 1 by (simp_all add: e)
    ultimately show ?thesis using False by (simp add: e insert_Diff_if)
  qed
qed simp

lemma core_del_script:
  assumes "core H X s" "owners l = owners (ms_scripts s) - {i}" "distinct (map snd l)"
  shows "core H X (s\<lparr>ms_scripts := l\<rparr>)"
proof -
  let ?s = "s\<lparr>ms_scripts := l\<rparr>"
  have sc: "scripted ?s j \<longleftrightarrow> j \<noteq> i \<and> scripted s j" for j using assms(2) by (auto simp: scripted_def)
  have "proc_ok X ?s j q" if q: "ms_heap s j = Some q" for j q
    using core_proc [OF assms(1) q] by (auto simp: proc_ok_def idle_ok_def sc)
  then show ?thesis using assms(1,3) by (simp add: core_def sc)
qed

lemma remove_from_script_list_ok:
  assumes "core H X s" "remove_from_script_list i s = (pid, s')"
  shows "core H X s' \<and> keeps s s' \<and> ms_heap s' = ms_heap s \<and> \<not> scripted s' i \<and>
    (pid > 0 \<longrightarrow> scripted s i) \<and> ms_table s' = ms_table s"
proof -
  obtain r l where t: "take_script i (ms_scripts s) = (r, l)" by fastforce
  have "distinct (map snd (ms_scripts s))" using assms(1) by (simp add: core_def)
  note spec = take_script_spec [OF t this]
  show ?thesis
  proof (cases r)
    case None
    then have "s' = s" "pid = -1" using assms(2) t by (simp_all add: remove_from_script_list_def)
    with None show ?thesis using assms(1) spec by (simp add: scripted_def)
  next
    case (Some q)
    have c: "core H X (s\<lparr>ms_scripts := l\<rparr>)" using assms(1) spec by (intro core_del_script [of _ _ _ _ i]) simp_all
    have "s' = (if q > 0 then emit (OutKill q) (s\<lparr>ms_scripts := l\<rparr>) else s\<lparr>ms_scripts := l\<rparr>)"
      using Some assms(2) t by (auto simp: remove_from_script_list_def Let_def split: if_splits)
    then have "core H X s'" "keeps s s'" "ms_heap s' = ms_heap s" "ms_scripts s' = l" "ms_table s' = ms_table s"
      using c by (simp_all split: if_split)
    then show ?thesis using spec Some by (simp add: scripted_def)
  qed
qed

section \<open>Opening a session\<close>

text \<open>The fields of a process, besides configuration and virtual host, that the invariant reads.\<close>

definition core_part :: "proc_st \<Rightarrow> _" where
  "core_part p = (keys p, p_our p, p_status p, p_active_sid p, p_ipv4 p, p_ipv6 p, p_applied_iroutes p,
                  p_tun_name p, p_sec_mod_index p)"

lemma core_partD:
  assumes "core_part p' = core_part p"
  shows "keys p' = keys p" "p_remote p' = p_remote p" "p_dtls_remote p' = p_dtls_remote p" "p_our p' = p_our p"
    "p_status p' = p_status p" "p_active_sid p' = p_active_sid p" "p_ipv4 p' = p_ipv4 p" "p_ipv6 p' = p_ipv6 p"
    "p_applied_iroutes p' = p_applied_iroutes p" "p_tun_name p' = p_tun_name p" "p_sec_mod_index p' = p_sec_mod_index p"
  using assms by (simp_all add: core_part_def keys_def)

lemma core_put_cfg:
  assumes "core H X s" "ms_heap s i = Some p" "core_part p' = core_part p"
    and "p_active_sid p \<longrightarrow> p_config p' \<noteq> None \<and> p_vhost p' \<noteq> None"
    and "\<And>v. p_vhost p' = Some v \<Longrightarrow> v < length (ms_vconfig s)" "\<And>gc. p_config p' = Some gc \<Longrightarrow> iroutes_ok gc"
  shows "core H X (put_proc i p' s)"
proof -
  note part = core_partD [OF assms(3)]
  have "proc_ok X s i p'"
    using core_proc [OF assms(1,2)] assms(4-6) by (simp add: proc_ok_def idle_ok_def part)
  then show ?thesis using assms(1,2) part by (intro core_put) simp_all
qed

lemma core_put_part:
  assumes "core H X s" "ms_heap s i = Some p" "core_part p' = core_part p" "p_config p' = p_config p" "p_vhost p' = p_vhost p"
  shows "core H X (put_proc i p' s)"
  using assms core_proc [OF assms(1,2)] by (intro core_put_cfg [of _ _ _ _ p]) (auto simp: proc_ok_def)

lemma vhost_named_bound: "vhost_named n vs = Some k \<Longrightarrow> k < length vs"
  by (induction vs arbitrary: k) (auto split: if_splits option.splits)

lemma find_mvhost_bound: "vs \<noteq> [] \<Longrightarrow> find_mvhost vs name < length vs"
  by (auto simp: find_mvhost_def split: option.split dest: vhost_named_bound)

lemma apply_default_config_iroutes:
  assumes "apply_default_config env cfg gc = Some gc'"
  shows "gc_iroutes gc' = gc_iroutes gc"
proof -
  obtain g where g: "append_routes env cfg (defaults_before cfg gc) = Some g" "gc' = defaults_after cfg g"
    using assms by (auto simp: apply_default_config_def)
  then show ?thesis
    using append_routes_frame [OF g(1)] by (auto simp: defaults_after_def defaults_before_def)
qed

lemma roaming_ok_total: "saddr_wf a \<Longrightarrow> \<exists>b. roaming_ok gc ip a = Some b"
  using human_addr2_storage [of a "sa_len a" MAX_IP_STR]
  by (auto simp: roaming_ok_def split: option.split)

lemma session_accept_ok:
  assumes "core H X s" "ms_heap s i = Some p" "\<And>gc. om_config m = Some gc \<Longrightarrow> iroutes_ok gc"
  shows "\<exists>r s' p'. session_accept env i p m s = Some (r, s') \<and> core H X s' \<and> keeps s s' \<and>
    ms_heap s' = (ms_heap s)(i \<mapsto> p') \<and> core_part p' = core_part p \<and> ms_table s' = ms_table s \<and>
    ms_scripts s' = ms_scripts s \<and> r \<le> 0 \<and> (r = 0 \<longrightarrow> p_config p' \<noteq> None \<and> p_vhost p' \<noteq> None)"
proof (cases "om_username m")
  case None
  let ?p = "p\<lparr>p_session_start_time := om_session_start_time m\<rparr>"
  have "core_part ?p = core_part p" by (simp add: core_part_def keys_def)
  then have "core H X (put_proc i ?p s)" using assms(1,2) by (intro core_put_part) simp_all
  then show ?thesis using None assms(2) \<open>core_part ?p = core_part p\<close>
    by (intro exI [of _ "-1"] exI [of _ "put_proc i ?p s"] exI [of _ ?p]) (simp add: session_accept_def)
next
  case user: (Some user)
  define p1 where "p1 = fill_from_reply m user p"
  have p1: "core_part p1 = core_part p" "p_config p1 = p_config p" "p_vhost p1 = p_vhost p"
    by (simp_all add: p1_def fill_from_reply_def core_part_def keys_def)
  show ?thesis
  proof (cases "om_config m")
    case None
    have "core H X (put_proc i p1 s)" using assms(1,2) p1 by (intro core_put_part) simp_all
    then show ?thesis using None user assms(2) p1
      by (intro exI [of _ "-1"] exI [of _ "put_proc i p1 s"] exI [of _ p1]) (simp add: session_accept_def Let_def flip: p1_def)
  next
    case (Some gc)
    define vi where "vi = find_mvhost (ms_vconfig s) (om_vhost m)"
    have vi: "vi < length (ms_vconfig s)" using assms(1) by (simp add: vi_def find_mvhost_bound core_def)
    define vh where "vh = ms_vconfig s ! vi"
    obtain gc' where gc': "apply_default_config (me_cfg env) (mv_config vh) gc = Some gc'"
      using apply_default_config_total by blast
    then have ir: "iroutes_ok gc'" using assms(3) [OF Some] by (simp add: iroutes_ok_def apply_default_config_iroutes)
    define p2 where "p2 = p1\<lparr>p_ipv4_seed := om_ipv4_seed m, p_config := Some gc', p_vhost := Some vi, p_usage := Some (mv_usage vh)\<rparr>"
    have p2: "core_part p2 = core_part p" "p_config p2 = Some gc'" "p_vhost p2 = Some vi"
      using p1(1) by (simp_all add: p2_def core_part_def keys_def)
    let ?s = "s\<lparr>ms_usage := (ms_usage s)(mv_usage vh := ms_usage s (mv_usage vh) + 1)\<rparr>"
    have c: "core H X (put_proc i p2 ?s)"
      using assms(1,2) p2 vi ir by (intro core_put_cfg [of _ _ _ _ p]) simp_all
    have p2_rem: "p_remote p2 = p_remote p1" by (simp add: p2_def)
    have "saddr_wf (p_remote p2)"
      using core_proc [OF assms(1,2)] core_partD(2) [OF p2(1)] by (simp add: proc_ok_def)
    then obtain b where b: "roaming_ok gc' (om_ip m) (p_remote p2) = Some b" using roaming_ok_total by blast
    have "session_accept env i p m s = Some (if b then 0 else -1, put_proc i p2 ?s)"
      using user Some gc' b p2_rem by (simp add: session_accept_def Let_def flip: vi_def vh_def p1_def p2_def)
    then show ?thesis using c p2 assms(2)
      by (intro exI [of _ "if b then 0 else -1"] exI [of _ "put_proc i p2 ?s"] exI [of _ p2]) simp
  qed
qed

lemma session_open_ok:
  assumes "core H X s" "ms_heap s i = Some p" "menv_ok H env"
  shows "\<exists>r s' p'. session_open env inst i cookie s = Some (r, s') \<and> core H X s' \<and> keeps s s' \<and>
    ms_heap s' = (ms_heap s)(i \<mapsto> p') \<and> core_part p' = core_part p \<and> ms_table s' = ms_table s \<and>
    ms_scripts s' = ms_scripts s \<and> r \<le> 0 \<and> (r = 0 \<longrightarrow> p_config p' \<noteq> None \<and> p_vhost p' \<noteq> None)"
proof (cases "length cookie = SID_SIZE")
  case False
  then show ?thesis using assms(1,2)
    by (intro exI [of _ "-1"] exI [of _ s] exI [of _ p]) (simp add: session_open_def fun_upd_idem)
next
  case True
  let ?ip4 = "lease_ip_str (p_ipv4 p)" and ?ip6 = "lease_ip_str (p_ipv6 p)"
  obtain r sec where o: "me_open env inst cookie ?ip4 ?ip6 (ms_sec s) = (r, sec)" by fastforce
  define s1 where "s1 = (emit (OutSecOpen inst cookie ?ip4 ?ip6) s)\<lparr>ms_sec := sec\<rparr>"
  have s1: "core H X s1" "keeps s s1" "ms_heap s1 = ms_heap s" "ms_table s1 = ms_table s" "ms_scripts s1 = ms_scripts s"
    using assms(1) by (simp_all add: s1_def)
  have failed: "core H X (upd_stats f s1)" "ms_heap (upd_stats f s1) = (ms_heap s)(i \<mapsto> p)" for f
    using s1 assms(2) by (simp_all add: fun_upd_idem)
  have ks: "keeps s (upd_stats (update_auth_failures 1) s1)"
    using s1(2) by (simp add: keeps_def update_auth_failures_def)
  have eq: "session_open env inst i cookie s = (case r of
                 OpenSendFail \<Rightarrow> Some (-1, s1)
               | OpenRecvFail e \<Rightarrow> Some (- 1 - int e, s1)
               | OpenRejected \<Rightarrow> Some (-1, upd_stats (update_auth_failures 1) s1)
               | OpenOk m \<Rightarrow> session_accept env i p m s1)"
    using True assms(2) o by (cases r) (simp_all add: session_open_def s1_def Let_def)
  show ?thesis
  proof (cases r)
    case (OpenOk m)
    have live: "ms_heap s1 i = Some p" using s1(3) assms(2) by simp
    have gc: "iroutes_ok gc" if "om_config m = Some gc" for gc
      using menv_okD(4) [OF assms(3)] o OpenOk that by blast
    obtain r' s' p' where "session_accept env i p m s1 = Some (r', s') \<and> core H X s' \<and> keeps s1 s' \<and>
      ms_heap s' = (ms_heap s1)(i \<mapsto> p') \<and> core_part p' = core_part p \<and> ms_table s' = ms_table s1 \<and>
      ms_scripts s' = ms_scripts s1 \<and> r' \<le> 0 \<and> (r' = 0 \<longrightarrow> p_config p' \<noteq> None \<and> p_vhost p' \<noteq> None)"
      using session_accept_ok [OF s1(1) live, of m env] gc by blast
    then show ?thesis using s1 eq OpenOk keeps_trans [OF s1(2)]
      by (intro exI [of _ r'] exI [of _ s'] exI [of _ p']) simp
  next
    case OpenRejected
    then show ?thesis using eq failed ks s1
      by (intro exI [of _ "-1"] exI [of _ "upd_stats (update_auth_failures 1) s1"] exI [of _ p]) simp
  next
    case OpenSendFail
    then show ?thesis using eq s1 assms(2) by (intro exI [of _ "-1"] exI [of _ s1] exI [of _ p]) (simp add: fun_upd_idem)
  next
    case (OpenRecvFail e)
    then show ?thesis using eq s1 assms(2)
      by (intro exI [of _ "- 1 - int e"] exI [of _ s1] exI [of _ p]) (simp add: fun_upd_idem)
  qed
qed

section \<open>The cookie request\<close>

lemma core_table:
  assumes "core H X s" "tables_ok H (ms_heap s) t" "\<And>j. listed j t \<Longrightarrow> listed j (ms_table s) \<or> j \<in> X \<or>
      (\<exists>q. ms_heap s j = Some q \<and> p_status q \<noteq> PS_AUTH_INACTIVE)"
  shows "core H X (s\<lparr>ms_table := t\<rparr>)"
proof -
  have "proc_ok X (s\<lparr>ms_table := t\<rparr>) j q" if q: "ms_heap s j = Some q" for j q
    using core_proc [OF assms(1) q] assms(3) [of j] q by (auto simp: proc_ok_def idle_ok_def scripted_def)
  then show ?thesis using assms(1,2) by (simp add: core_def scripted_def)
qed

text \<open>The keys of a process that no table refers to may change.\<close>

lemma core_put_unlisted:
  assumes "core H X s" "ms_heap s i = Some p" "\<not> listed i (ms_table s)" "proc_ok X s i p'"
    and "p_ipv4 p' = p_ipv4 p" "p_ipv6 p' = p_ipv6 p"
  shows "core H X (put_proc i p' s)"
  using assms by (intro core_put_tables) (auto simp: core_def intro: tables_ok_free)

lemma mslot_steal:
  assumes "heap i = Some p" "heap j = Some q" "i \<noteq> j"
    and "steal_ip_leases a a' (lease_slots q) (lease_slots p) = (lq, lp)"
    and "p_ipv4 q1 = lp_ipv4 lq" "p_ipv6 q1 = lp_ipv6 lq" "p_ipv4 p1 = lp_ipv4 lp" "p_ipv6 p1 = lp_ipv6 lp"
  shows "mslot (heap(j \<mapsto> q1, i \<mapsto> p1)) =
    (let s = (mslot heap)((i, False) := mslot heap (j, False), (j, False) := None)
     in s((i, True) := s (j, True), (j, True) := None))" (is "?l = ?r")
proof (rule ext)
  fix k :: "nat \<times> bool"
  obtain x b where k: "k = (x, b)" by (metis surj_pair)
  note st = steal_slots [OF assms(4)]
  show "?l k = ?r k"
    using assms(2,3,5-8) st mslot_own [of heap j q]
    by (cases b) (simp_all add: k mslot_upd lease_slots_def Let_def)
qed

lemma take_over_ok:
  assumes "core H X s" "ms_heap s i = Some p" "ms_heap s j = Some q" "i \<noteq> j"
    and "p_ipv4 p = None" "p_ipv6 p = None" "i \<in> X" "p_status q \<noteq> PS_AUTH_INACTIVE"
  shows "\<exists>m s' lp. take_over env i p j s = Some (m, s') \<and> core H X s' \<and> keeps s s' \<and> ms_table s' = ms_table s \<and>
    ms_scripts s' = ms_scripts s \<and> ms_heap s' i = Some (p\<lparr>p_ipv4 := fst lp, p_ipv6 := snd lp\<rparr>)"
proof (cases "p_username p = p_username q")
  case False
  have "p\<lparr>p_ipv4 := None, p_ipv6 := None\<rparr> = p" using assms(5,6) by (cases p) simp
  then show ?thesis using False assms(1-3)
    by (intro exI [of _ True] exI [of _ s] exI [of _ "(None, None)"]) (simp add: take_over_def)
next
  case True
  obtain lq lp where st: "steal_ip_leases (me_steal4 env) (me_steal6 env) (lease_slots q) (lease_slots p) = (lq, lp)"
    by fastforce
  define q1 where "q1 = (put_leases lq q)\<lparr>p_pid_killed := (p_pid q > 0 \<or> p_pid_killed q)\<rparr>"
  define p1 where "p1 = put_leases lp p"
  define s' where "s' = put_proc i p1 (put_proc j q1 s)"
  have keys: "keys q1 = keys q" "keys p1 = keys p"
    by (simp_all add: q1_def p1_def put_leases_def keys_def)
  have slots: "mslot (ms_heap s') = (let sl = (mslot (ms_heap s))((i, False) := mslot (ms_heap s) (j, False), (j, False) := None)
     in sl((i, True) := sl (j, True), (j, True) := None))"
    unfolding s'_def state_simps
    by (rule mslot_steal [OF assms(2-4) st]) (simp_all add: q1_def p1_def put_leases_def)
  have none: "mslot (ms_heap s) (i, False) = None" "mslot (ms_heap s) (i, True) = None"
    using mslot_own [of "ms_heap s" i p] assms(2,5,6) by (simp_all add: dtor_only_def)
  have "own (ms_leases s) (mslot (ms_heap s'))"
    unfolding slots using assms(1,4) none by (intro own_steal) (simp_all add: core_def)
  then have own: "own (ms_leases s') (mslot (ms_heap s'))" by (simp add: s'_def)
  have t: "tables_ok H (ms_heap s') (ms_table s')"
    using assms(1-4) keys by (auto simp: s'_def core_def intro!: tables_ok_same)
  have "proc_ok X s' j q1" "proc_ok X s' i p1"
    using core_proc [OF assms(1,2)] core_proc [OF assms(1,3)] assms(7,8)
    by (simp_all add: s'_def q1_def p1_def put_leases_def proc_ok_def idle_ok_def)
  then have c: "core H X s'"
    using assms(1) own t unfolding core_def by (auto simp: s'_def scripted_def)
  let ?r = "if p_pid q > 0 then emit (OutKill (p_pid q)) s' else s'"
  have eq: "take_over env i p j s = Some (False, ?r)"
    using True assms(3) st by (simp add: take_over_def Let_def q1_def p1_def s'_def)
  have "keeps s s'" using assms(2-4) by (simp add: s'_def)
  then show ?thesis using c eq
    by (intro exI [of _ False] exI [of _ ?r] exI [of _ "(lp_ipv4 lp, lp_ipv6 lp)"])
      (simp add: s'_def p1_def put_leases_def)
qed

lemma proc_search_sid_safe:
  assumes "tables_ok H heap t"
  shows "\<exists>r. proc_search_sid H heap t sid = Some r \<and>
    (\<forall>j. r = Some j \<longrightarrow> (\<exists>q. heap j = Some q \<and> p_sid q = sid) \<and> listed j t)"
  using pt_get_safe [of "\<lambda>p. Some (rehash_sid H p)" heap "db_sid t" "H sid" "sid_cmp sid"] assms
  by (fastforce simp: tables_ok_def proc_search_sid_def sid_cmp_def dest: holds_mem)

text \<open>The end of the request: the cookie becomes the session id of the process, and it is entered in the tables.\<close>

lemma core_activate:
  fixes cookie :: bytes and host :: string
  assumes "core H {i} s" "ms_heap s i = Some p" "p_status p = PS_AUTH_INACTIVE" "\<not> listed i (ms_table s)"
    and "p_config p \<noteq> None" "p_vhost p \<noteq> None" "p_sec_mod_index p < length (ms_instances s)"
    and H: "te_hash tenv = H" and p': "p' = p\<lparr>p_sid := cookie, p_active_sid := True, p_hostname := host\<rparr>"
    and add: "proc_table_add tenv i p' (ms_table s) = (r, t)"
  shows "core H {i} ((put_proc i p' s)\<lparr>ms_table := t\<rparr>)"
proof -
  have "proc_ok {i} s i p'"
    using core_proc [OF assms(1,2)] assms(3,5-7) by (auto simp: p' proc_ok_def)
  then have c: "core H {i} (put_proc i p' s)"
    using assms(1,2,4) by (intro core_put_unlisted) (simp_all add: p')
  have "tables_ok H (ms_heap (put_proc i p' s)) t"
    using proc_table_add_ok [of tenv "ms_heap (put_proc i p' s)" "ms_table s" i p'] c H assms(4) add
    by (simp add: core_def)
  moreover have "listed j t \<Longrightarrow> j = i \<or> listed j (ms_table s)" for j
    using proc_table_add_listed [of j tenv i p' "ms_table s"] add by simp
  ultimately show ?thesis using c by (intro core_table) auto
qed

lemma core_listed: "core H {} s \<Longrightarrow> listed j (ms_table s) \<Longrightarrow> \<exists>q. ms_heap s j = Some q \<and> p_status q \<noteq> PS_AUTH_INACTIVE"
  using tables_ok_listed [of H "ms_heap s" "ms_table s" j] by (auto simp: core_def proc_ok_def idle_ok_def)

lemma cookie_dtls_id:
  assumes "core H {} s" "ms_heap s i = Some p" "p_status p = PS_AUTH_INACTIVE"
    and "p1 = p\<lparr>p_dtls_session_id := ident, p_dtls_session_id_size := n\<rparr>"
  shows "core H {} (put_proc i p1 s) \<and> idle_ok (put_proc i p1 s) i p1"
proof -
  have ok: "proc_ok {} s i p" "idle_ok s i p" using core_proc [OF assms(1,2)] assms(3) by (auto simp: proc_ok_def)
  then have "proc_ok {} s i p1" by (simp add: assms(4) proc_ok_def idle_ok_def)
  then have "core H {} (put_proc i p1 s)"
    using assms ok(2) by (intro core_put_unlisted) (auto simp: idle_ok_def)
  then show ?thesis using ok(2) assms(4) by (simp add: idle_ok_def scripted_def)
qed

lemma bind_session_ok:
  assumes c: "core H {i} s" and p: "ms_heap s i = Some p" "p_status p = PS_AUTH_INACTIVE" "p_ipv4 p = None" "p_ipv6 p = None"
      "p_config p \<noteq> None" "p_vhost p \<noteq> None" "p_sec_mod_index p < length (ms_instances s)" "\<not> listed i (ms_table s)" "\<not> p_applied_iroutes p"
    and env: "menv_ok H env"
    and old: "\<And>j. old = Some j \<Longrightarrow> \<exists>q. ms_heap s j = Some q \<and> p_status q \<noteq> PS_AUTH_INACTIVE"
  shows "\<exists>r s' p'. bind_session env i cookie hostname old s = Some (r, s') \<and> core H {i} s' \<and> keeps s s' \<and>
    ms_scripts s' = ms_scripts s \<and> ms_heap s' i = Some p' \<and> r \<le> 0 \<and> p_status p' = PS_AUTH_INACTIVE \<and>
    \<not> p_applied_iroutes p' \<and> (r = 0 \<longrightarrow> p_active_sid p')"
proof -
  have "\<exists>m s1 lp. (case old of None \<Rightarrow> Some (False, s) | Some j \<Rightarrow> take_over env i p j s) = Some (m, s1) \<and>
      core H {i} s1 \<and> keeps s s1 \<and> ms_table s1 = ms_table s \<and> ms_scripts s1 = ms_scripts s \<and>
      ms_heap s1 i = Some (p\<lparr>p_ipv4 := fst lp, p_ipv6 := snd lp\<rparr>)"
  proof (cases old)
    case None
    have "p\<lparr>p_ipv4 := None, p_ipv6 := None\<rparr> = p" using p(3,4) by (cases p) simp
    then show ?thesis using None c p by (intro exI [of _ False] exI [of _ s] exI [of _ "(None, None)"]) simp
  next
    case (Some j)
    then obtain q where q: "ms_heap s j = Some q" "p_status q \<noteq> PS_AUTH_INACTIVE" using old by blast
    moreover then have "i \<noteq> j" using p(1,2) by auto
    ultimately show ?thesis using take_over_ok [OF c p(1) q(1), of env] p(3,4) Some by simp
  qed
  then obtain m s1 lp where s1: "(case old of None \<Rightarrow> Some (False, s) | Some j \<Rightarrow> take_over env i p j s) = Some (m, s1)"
      "core H {i} s1" "keeps s s1" "ms_table s1 = ms_table s" "ms_scripts s1 = ms_scripts s"
      "ms_heap s1 i = Some (p\<lparr>p_ipv4 := fst lp, p_ipv6 := snd lp\<rparr>)" by blast
  define p1 where "p1 = p\<lparr>p_ipv4 := fst lp, p_ipv6 := snd lp\<rparr>"
  define p2 where "p2 = p1\<lparr>p_sid := cookie, p_active_sid := True, p_hostname := strlcpy_opt 64 hostname (p_hostname p1)\<rparr>"
  obtain r t where rt: "proc_table_add (me_table env) i p2 (ms_table s1) = (r, t)" by fastforce
  have "p_config p1 \<noteq> None" "p_vhost p1 \<noteq> None" "p_status p1 = PS_AUTH_INACTIVE" "\<not> listed i (ms_table s1)"
      "p_sec_mod_index p1 < length (ms_instances s1)"
    using p s1(3,4) by (simp_all add: p1_def keeps_def)
  then have c2: "core H {i} ((put_proc i p2 s1)\<lparr>ms_table := t\<rparr>)"
    using s1(2,6) rt menv_okD(1) [OF env] by (intro core_activate [OF _ _ _ _ _ _ _ _ p2_def]) (simp_all add: p1_def)
  have "bind_session env i cookie hostname old s =
      (if m then Some (-1, s1) else Some (if r < 0 then -1 else 0, (put_proc i p2 s1)\<lparr>ms_table := t\<rparr>))"
    using s1(1,6) p(1) rt by (simp add: bind_session_def upd_proc_put flip: p1_def p2_def)
  then show ?thesis using s1 c2 p(2,9) by (cases m) (simp_all add: p2_def p1_def)
qed

lemma handle_auth_cookie_req_ok:
  assumes c: "core H {} s" and p: "ms_heap s i = Some p" "p_status p = PS_AUTH_INACTIVE"
    and idx: "p_sec_mod_index p < length (ms_instances s)" and env: "menv_ok H env"
  shows "\<exists>r s' p'. handle_auth_cookie_req env inst i cookie hostname s = Some (r, s') \<and> core H {i} s' \<and> keeps s s' \<and>
    ms_scripts s' = ms_scripts s \<and> ms_heap s' i = Some p' \<and> r \<le> 0 \<and> p_status p' = PS_AUTH_INACTIVE \<and>
    \<not> p_applied_iroutes p' \<and> (r = 0 \<longrightarrow> p_active_sid p')"
proof (cases "length cookie = SID_SIZE \<and> me_rnd env \<noteq> None")
  case False
  then have "handle_auth_cookie_req env inst i cookie hostname s = Some (-1, s)"
    by (auto simp: handle_auth_cookie_req_def)
  moreover have "\<not> p_applied_iroutes p" using core_proc [OF c p(1)] p(2) by (simp add: proc_ok_def idle_ok_def)
  ultimately show ?thesis using p core_weaken [OF c] by auto
next
  case True
  then obtain ident where id: "length cookie = SID_SIZE" "me_rnd env = Some ident" by blast
  define p1 where "p1 = p\<lparr>p_dtls_session_id := ident, p_dtls_session_id_size := 32\<rparr>"
  define s1 where "s1 = put_proc i p1 s"
  have c1: "core H {} s1" and s1: "ms_heap s1 i = Some p1" "keeps s s1" "idle_ok s1 i p1" "p_status p1 = PS_AUTH_INACTIVE"
      "p_sec_mod_index p1 < length (ms_instances s1)" "ms_scripts s1 = ms_scripts s"
    using cookie_dtls_id [OF c p p1_def] p idx by (simp_all add: s1_def p1_def)
  obtain old where old: "proc_search_sid H (ms_heap s1) (ms_table s1) cookie = Some old"
      "\<And>j. old = Some j \<Longrightarrow> (\<exists>q. ms_heap s1 j = Some q) \<and> listed j (ms_table s1)"
    using proc_search_sid_safe [of H "ms_heap s1" "ms_table s1" cookie] c1 unfolding core_def by blast
  then obtain inv where inv: "(case old of None \<Rightarrow> Some False | Some j \<Rightarrow> map_option p_invalidated (ms_heap s1 j)) = Some inv"
    by (cases old) auto
  obtain r2 s2 p2 where s2: "session_open env inst i cookie s1 = Some (r2, s2)" "core H {} s2" "keeps s1 s2"
      "ms_heap s2 = (ms_heap s1)(i \<mapsto> p2)" "core_part p2 = core_part p1" "ms_table s2 = ms_table s1"
      "ms_scripts s2 = ms_scripts s1" "r2 \<le> 0" "r2 = 0 \<Longrightarrow> p_config p2 \<noteq> None \<and> p_vhost p2 \<noteq> None"
    using session_open_ok [OF c1 s1(1) env, of inst cookie] by blast
  have run: "handle_auth_cookie_req env inst i cookie hostname s =
      (if inv then Some (-1, s1) else if r2 < 0 then Some (-1, s2) else bind_session env i cookie hostname old s2)"
    using id old(1) inv s2(1) p(1) menv_okD(1) [OF env]
    by (simp add: handle_auth_cookie_req_def upd_proc_put flip: p1_def s1_def)
  note part = core_partD [OF s2(5)]
  have p2: "p_status p2 = PS_AUTH_INACTIVE" "p_ipv4 p2 = None" "p_ipv6 p2 = None" "\<not> listed i (ms_table s2)"
      "p_sec_mod_index p2 < length (ms_instances s2)" "ms_heap s2 i = Some p2" "ms_scripts s2 = ms_scripts s" "keeps s s2"
      "\<not> p_applied_iroutes p2" "\<not> p_applied_iroutes p1"
    using s1 s2(3,4,6,7) keeps_trans [OF s1(2) s2(3)] by (simp_all add: part idle_ok_def keeps_def)
  have oldq: "\<exists>q. ms_heap s2 j = Some q \<and> p_status q \<noteq> PS_AUTH_INACTIVE" if "old = Some j" for j
    using core_listed [OF s2(2), of j] old(2) [OF that] s2(6) by simp
  have cs: "core H {i} s1" "core H {i} s2" using core_weaken [OF c1] core_weaken [OF s2(2)] by auto
  show ?thesis
  proof (cases "inv \<or> r2 < 0")
    case True
    then show ?thesis using run cs s1 p2 by (cases inv) simp_all
  next
    case False
    then have cfg: "p_config p2 \<noteq> None" "p_vhost p2 \<noteq> None" using s2(8,9) by auto
    obtain r s' p' where "bind_session env i cookie hostname old s2 = Some (r, s')" "core H {i} s'" "keeps s2 s'"
        "ms_scripts s' = ms_scripts s2" "ms_heap s' i = Some p'" "r \<le> 0" "p_status p' = PS_AUTH_INACTIVE"
        "\<not> p_applied_iroutes p'" "r = 0 \<longrightarrow> p_active_sid p'"
      using bind_session_ok [OF cs(2) p2(6,1-3) cfg p2(5,4,9) env, of old cookie hostname] oldq by blast
    then show ?thesis using run False p2(7) keeps_trans [OF p2(8)] by simp
  qed
qed

section \<open>The tun device\<close>

lemma core_put_leases:
  assumes "core H X s" "ms_heap s i = Some p" "keys p' = keys p" "proc_ok X s i p'"
    and "own db ((mslot (ms_heap s))((i, False) := dtor_only (p_ipv4 p'), (i, True) := dtor_only (p_ipv6 p')))"
  shows "core H X (put_proc i p' (s\<lparr>ms_leases := db\<rparr>))"
proof -
  have "tables_ok H ((ms_heap s)(i \<mapsto> p')) (ms_table s)"
    using assms(1-3) by (auto simp: core_def intro: tables_ok_same)
  then show ?thesis using assms(1,2,4,5) by (auto simp: core_def mslot_upd scripted_def)
qed

lemma os_open_tun_name:
  assumes "os_open_tun env p s = (fd, p')" "menv_ok H env"
  shows "\<exists>n. p' = p\<lparr>p_tun_name := n\<rparr> \<and> (fd \<ge> 0 \<longrightarrow> dev_ok n)"
  using assms menv_okD(3) [OF assms(2)]
  by (auto simp: os_open_tun_def Let_def split: if_splits option.splits)

text \<open>The fields that obtaining leases and a device may change.\<close>

definition with_tun :: "proc_st \<Rightarrow> ip_lease_st option \<Rightarrow> ip_lease_st option \<Rightarrow> string \<Rightarrow> int \<Rightarrow> proc_st" where
  "with_tun p a b n fd = p\<lparr>p_ipv4 := a, p_ipv6 := b, p_tun_name := n, p_tun_fd := fd\<rparr>"

lemma with_tun_simps [simp]:
  "keys (with_tun p a b n fd) = keys p" "p_ipv4 (with_tun p a b n fd) = a" "p_ipv6 (with_tun p a b n fd) = b"
  "p_tun_name (with_tun p a b n fd) = n" "p_status (with_tun p a b n fd) = p_status p"
  "p_active_sid (with_tun p a b n fd) = p_active_sid p" "p_config (with_tun p a b n fd) = p_config p"
  "p_vhost (with_tun p a b n fd) = p_vhost p" "p_applied_iroutes (with_tun p a b n fd) = p_applied_iroutes p"
  "p_username (with_tun p a b n fd) = p_username p" "p_sid (with_tun p a b n fd) = p_sid p"
  "p_sec_mod_index (with_tun p a b n fd) = p_sec_mod_index p" "p_remote (with_tun p a b n fd) = p_remote p"
  "p_dtls_remote (with_tun p a b n fd) = p_dtls_remote p" "p_our (with_tun p a b n fd) = p_our p"
  "(with_tun p a b n fd)\<lparr>p_ipv6 := b'\<rparr> = with_tun p a b' n fd" "(with_tun p a b n fd)\<lparr>p_tun_name := n'\<rparr> = with_tun p a b n' fd"
  "(with_tun p a b n fd)\<lparr>p_tun_fd := fd'\<rparr> = with_tun p a b n fd'"
  by (simp_all add: with_tun_def keys_def)

lemma with_tun_id [simp]: "with_tun p (p_ipv4 p) (p_ipv6 p) (p_tun_name p) (p_tun_fd p) = p"
  by (simp add: with_tun_def)

lemma proc_ok_tun:
  assumes "proc_ok X s i p" "i \<in> X" "\<not> scripted s i" "\<not> p_applied_iroutes p"
  shows "proc_ok X s i (with_tun p a b n fd)"
  using assms by (simp add: proc_ok_def)

text \<open>The parts of the state that setting up a device leaves alone.\<close>

definition rest :: "'s main_server_st \<Rightarrow> _" where
  "rest s = (ms_table s, ms_scripts s, ms_procs s, ms_next s, ms_vconfig s, ms_stats s, ms_instances s, ms_exited s)"

lemma rest_simps [simp]:
  "rest (emit e s) = rest s" "rest (put_proc i p s) = rest s" "rest (s\<lparr>ms_leases := db\<rparr>) = rest s"
  by (simp_all add: rest_def)

lemma rest_keeps: "rest s' = rest s \<Longrightarrow> ms_heap s' = (ms_heap s)(i \<mapsto> p') \<Longrightarrow> ms_heap s i = Some p \<Longrightarrow> keeps s s'"
  by (auto simp: rest_def keeps_def)

lemma rest_core:
  assumes "rest s' = rest s" "ms_heap s' = (ms_heap s)(i \<mapsto> p')" "core H X (put_proc i p' (s\<lparr>ms_leases := ms_leases s'\<rparr>))"
  shows "core H X s'"
proof -
  have "core H X s' \<longleftrightarrow> core H X (put_proc i p' (s\<lparr>ms_leases := ms_leases s'\<rparr>))"
    using assms(1,2) by (intro core_cong) (simp_all add: rest_def)
  then show ?thesis using assms(3) by simp
qed

lemma set_network_info_ok:
  assumes "set_network_info env i p s = (r, s')" "own (ms_leases s) (sl((i, True) := dtor_only (p_ipv6 p)))"
  shows "\<exists>b. ms_heap s' = (ms_heap s)(i \<mapsto> p\<lparr>p_ipv6 := b\<rparr>) \<and> own (ms_leases s') (sl((i, True) := dtor_only b)) \<and>
    rest s' = rest s \<and> r \<le> 0"
proof -
  let ?s1 = "case p_ipv4 p of
      Some l \<Rightarrow> if lease_set (p_ipv4 p) then emit (OutIf4 (p_tun_name p) (il_lip l) (il_rip l)) s else s | None \<Rightarrow> s"
  have s1: "ms_heap ?s1 = ms_heap s" "ms_leases ?s1 = ms_leases s" "rest ?s1 = rest s"
    by (simp_all split: option.split)
  have same: "p\<lparr>p_ipv6 := p_ipv6 p\<rparr> = p" by simp
  consider (keep) "ms_heap s' = (ms_heap s)(i \<mapsto> p)" "ms_leases s' = ms_leases s" "rest s' = rest s" "r \<le> 0"
    | (drop) l where "p_ipv6 p = Some l" "ms_heap s' = (ms_heap s)(i \<mapsto> p\<lparr>p_ipv6 := None\<rparr>)"
        "ms_leases s' = remove_ip_lease (ms_leases s) l" "rest s' = rest s" "r \<le> 0"
    using assms(1) s1 by (auto simp: set_network_info_def Let_def split: if_splits option.splits)
  then show ?thesis
  proof cases
    case keep
    then show ?thesis using assms(2) by (intro exI [of _ "p_ipv6 p"]) simp
  next
    case (drop l)
    have "own (remove_ip_lease (ms_leases s) l) (sl((i, True) := dtor_only (p_ipv6 p), (i, True) := None))"
      using drop(1) by (intro own_remove [OF assms(2)]) (simp add: dtor_only_def)
    then show ?thesis using drop by (intro exI [of _ None]) (simp add: dtor_only_def)
  qed
qed

lemma open_tun_ok:
  assumes c: "core H X s" and p: "ms_heap s i = Some p" "p_config p \<noteq> None" "p_vhost p \<noteq> None"
    "i \<in> X" "\<not> scripted s i" "\<not> p_applied_iroutes p" and env: "menv_ok H env"
  shows "\<exists>r s' a b n fd. open_tun env i s = Some (r, s') \<and> core H X s' \<and> rest s' = rest s \<and>
    ms_heap s' = (ms_heap s)(i \<mapsto> with_tun p a b n fd) \<and> r \<le> 0 \<and> (r = 0 \<longrightarrow> dev_ok n)"
proof -
  obtain gc vi where cfg: "p_config p = Some gc" "p_vhost p = Some vi" using p by auto
  obtain r db lp where g: "get_ip_leases (me_lease env) (ms_leases s) (lease_view (ms_vconfig s ! vi) p gc) = (r, db, lp)"
    using prod_cases3 by blast
  let ?a = "lp_ipv4 lp" and ?b = "lp_ipv6 lp" and ?n = "p_tun_name p" and ?fd = "p_tun_fd p"
  let ?sl = "(mslot (ms_heap s))((i, False) := dtor_only ?a)"
  have own: "own db (?sl((i, True) := dtor_only ?b))"
    using c mslot_own [of "ms_heap s" i p] p(1)
    by (intro own_get_ip_leases [OF _ _ _ _ g]) (auto simp: core_def lease_view_def Let_def)
  have ok: "proc_ok X s i (with_tun p a b n fd)" for a b n fd
    using core_proc [OF c p(1)] p(4-6) by (rule proc_ok_tun)
  have done_: "core H X s' \<and> rest s' = rest s"
    if "rest s' = rest s" "ms_heap s' = (ms_heap s)(i \<mapsto> with_tun p ?a b n fd)" "own (ms_leases s') (?sl((i, True) := dtor_only b))" for s' b n fd
    using that core_put_leases [OF c p(1) _ ok] rest_core [OF that(1,2)] by simp
  have p1: "put_leases lp p = with_tun p ?a ?b ?n ?fd" by (simp add: put_leases_def with_tun_def)
  obtain fd p2 where t: "os_open_tun env (with_tun p ?a ?b ?n ?fd) (s\<lparr>ms_leases := db\<rparr>) = (fd, p2)" by fastforce
  then obtain n where n: "p2 = with_tun p ?a ?b n ?fd" "fd \<ge> 0 \<longrightarrow> dev_ok n"
    using os_open_tun_name [OF t env] by auto
  obtain r3 s3 where s3: "set_network_info env i p2 (s\<lparr>ms_leases := db\<rparr>) = (r3, s3)" by fastforce
  obtain b where b: "ms_heap s3 = (ms_heap s)(i \<mapsto> with_tun p ?a b n ?fd)" "own (ms_leases s3) (?sl((i, True) := dtor_only b))"
      "rest s3 = rest s" "r3 \<le> 0"
    using set_network_info_ok [OF s3, of ?sl] own n(1) by auto
  let ?s1 = "s\<lparr>ms_leases := db\<rparr>"
  have run: "open_tun env i s =
      (if r < 0 then Some (r, put_proc i (with_tun p ?a ?b ?n ?fd) ?s1)
       else if fd < 0 \<or> n = [] then Some (-1, put_proc i (with_tun p ?a ?b n ?fd) ?s1)
       else if r3 < 0 then Some (-1, s3) else Some (0, put_proc i (with_tun p ?a b n fd) s3))"
    using p(1) cfg g t s3 b(1) n(1) by (simp add: open_tun_def Let_def p1 upd_proc_put)
  consider "r < 0" | "\<not> r < 0" "fd < 0 \<or> n = []" | "\<not> r < 0" "\<not> (fd < 0 \<or> n = [])" "r3 < 0"
    | "\<not> r < 0" "\<not> (fd < 0 \<or> n = [])" "\<not> r3 < 0" by blast
  then show ?thesis
  proof cases
    case 1
    then show ?thesis using run done_ [of "put_proc i (with_tun p ?a ?b ?n ?fd) ?s1"] own
      by (intro exI [of _ r] exI [of _ "put_proc i (with_tun p ?a ?b ?n ?fd) ?s1"] exI [of _ ?a] exI [of _ ?b] exI [of _ ?n] exI [of _ ?fd]) simp
  next
    case 2
    then show ?thesis using run done_ [of "put_proc i (with_tun p ?a ?b n ?fd) ?s1"] own
      by (intro exI [of _ "-1"] exI [of _ "put_proc i (with_tun p ?a ?b n ?fd) ?s1"] exI [of _ ?a] exI [of _ ?b] exI [of _ n] exI [of _ ?fd]) simp
  next
    case 3
    then show ?thesis using run done_ [of s3] b
      by (intro exI [of _ "-1"] exI [of _ s3] exI [of _ ?a] exI [of _ b] exI [of _ n] exI [of _ ?fd]) simp
  next
    case 4
    then show ?thesis using run done_ [of "put_proc i (with_tun p ?a b n fd) s3"] b n(2)
      by (intro exI [of _ 0] exI [of _ "put_proc i (with_tun p ?a b n fd) s3"] exI [of _ ?a] exI [of _ b] exI [of _ n] exI [of _ fd]) simp
  qed
qed

section \<open>Accepting the user\<close>

text \<open>The sessions of a user that count against the limit.\<close>

definition counted :: "(nat \<Rightarrow> proc_st option) \<Rightarrow> string \<Rightarrow> nat \<Rightarrow> bool" where
  "counted heap user j =
     (case heap j of None \<Rightarrow> False | Some q \<Rightarrow> p_pid q \<noteq> -1 \<and> \<not> p_pid_killed q \<and> p_username q = user)"

definition others :: "(nat \<Rightarrow> proc_st option) \<Rightarrow> nat \<Rightarrow> string \<Rightarrow> nat list \<Rightarrow> nat" where
  "others heap i user l = length (filter (\<lambda>j. j \<noteq> i \<and> counted heap user j) l)"

lemma count_users_spec:
  assumes "\<And>j. j \<in> set l \<Longrightarrow> heap j \<noteq> None" "n \<le> mx"
  shows "count_users heap i user mx n l = Some (if n + others heap i user l \<le> mx then 0 else -1)"
  using assms
proof (induction l arbitrary: n)
  case (Cons j l)
  obtain q where q: "heap j = Some q" using Cons.prems(1) by fastforce
  show ?case
  proof (cases "j \<noteq> i \<and> p_pid q \<noteq> -1 \<and> \<not> p_pid_killed q \<and> p_username q = user")
    case True
    then have "others heap i user (j # l) = Suc (others heap i user l)" by (simp add: others_def counted_def q)
    then show ?thesis using True Cons.IH [of "n + 1"] Cons.prems q by simp
  next
    case False
    then have "others heap i user (j # l) = others heap i user l" by (auto simp: others_def counted_def q)
    then show ?thesis using False Cons.IH [of n] Cons.prems q by auto
  qed
qed (simp add: others_def)

lemma check_multiple_users_eq:
  assumes "ms_heap s i = Some p" "p_config p = Some gc" "procs_ok s"
  shows "check_multiple_users i s =
    (let mx = (case gc_max_same_clients gc of None \<Rightarrow> 0 | Some m \<Rightarrow> unat m)
     in Some (if mx = 0 \<or> 1 + others (ms_heap s) i (p_username p) (ms_procs s) \<le> mx then 0 else -1))"
proof -
  have "ms_heap s j \<noteq> None" if "j \<in> set (ms_procs s)" for j using that assms(3) by (auto simp: procs_ok_def)
  then have "count_users (ms_heap s) i u mx 1 (ms_procs s) = Some (if 1 + others (ms_heap s) i u (ms_procs s) \<le> mx then 0 else -1)"
    if "mx \<noteq> 0" for mx u using that by (intro count_users_spec) auto
  then show ?thesis using assms(1,2) by (simp add: check_multiple_users_def Let_def)
qed

lemma accept_user_ok:
  assumes c: "core H {i} s" "procs_ok s" and p: "ms_heap s i = Some p" "p_active_sid p" "\<not> scripted s i" "\<not> p_applied_iroutes p"
    and env: "menv_ok H env"
  shows "\<exists>r s' a b n fd. accept_user env i s = Some (r, s') \<and> core H {i} s' \<and> keeps s s' \<and>
    ms_heap s' i = Some (with_tun p a b n fd) \<and> (r \<ge> 0 \<longrightarrow> dev_ok n)"
proof -
  have cfg: "p_config p \<noteq> None" "p_vhost p \<noteq> None" using core_proc [OF c(1) p(1)] p(2) by (auto simp: proc_ok_def)
  obtain r where r: "check_multiple_users i s = Some r"
    using check_multiple_users_eq [OF p(1) _ c(2)] cfg(1) by (auto simp: Let_def)
  obtain r1 s1 a b n fd where s1: "open_tun env i s = Some (r1, s1)" "core H {i} s1" "rest s1 = rest s"
      "ms_heap s1 = (ms_heap s)(i \<mapsto> with_tun p a b n fd)" "r1 \<le> 0" "r1 = 0 \<longrightarrow> dev_ok n"
    using open_tun_ok [OF c(1) p(1) cfg _ p(3,4) env] by blast
  have k1: "keeps s s1" using rest_keeps [OF s1(3,4) p(1)] .
  have sc: "\<not> scripted s1 i" "ms_heap s1 i = Some (with_tun p a b n fd)"
    using p(3) s1(3,4) by (simp_all add: scripted_def rest_def)
  show ?thesis
  proof (cases "r < 0 \<or> r1 < 0")
    case True
    have "with_tun p (p_ipv4 p) (p_ipv6 p) (p_tun_name p) (p_tun_fd p) = p" by simp
    then have "\<exists>a b n fd. ms_heap s i = Some (with_tun p a b n fd)" using p(1) by metis
    then show ?thesis using True r s1(1,2) k1 sc(2) c(1) by (cases "r < 0") (auto simp: accept_user_def)
  next
    case False
    then have n: "dev_ok n" using s1(5,6) by simp
    obtain r2 s2 where "user_connected env i s1 = Some (r2, s2)" "core H {i} s2" "keeps s1 s2" "ms_heap s2 = ms_heap s1"
      using user_connected_ok [OF s1(2) sc(2), of env] p(2) sc(1) n by auto
    then show ?thesis using False r s1(1) sc(2) n keeps_trans [OF k1] by (auto simp: accept_user_def)
  qed
qed

lemma send_cookie_auth_reply_ok:
  assumes "core H X s" "ms_heap s i = Some p" "ok \<longrightarrow> p_active_sid p"
  shows "\<exists>r s'. send_cookie_auth_reply env i ok s = Some (r, s') \<and> core H X s' \<and> keeps s s' \<and>
    ms_heap s' = ms_heap s \<and> ms_scripts s' = ms_scripts s \<and> ms_table s' = ms_table s"
  using assms core_proc [OF assms(1,2)]
  by (auto simp: send_cookie_auth_reply_def proc_ok_def)

lemma replace_cmd_total:
  assumes "str_env_ok env" "route_plain dev route"
  shows "\<exists>r. replace_cmd env pattern route dev = Some r"
proof -
  obtain ret s where s: "str_append_str env str_init (Some pattern) = Some (ret, s)" "ret \<ge> 0 \<longrightarrow> str_inv s"
    using str_append_str_spec [OF assms(1), of str_init pattern] by auto
  show ?thesis
  proof (cases "ret < 0")
    case False
    then obtain ret' s' where "str_replace_str env s (route_tab route dev) = Some (ret', s')"
      using str_replace_str_spec [OF assms(1) _ _ route_tab_plain [OF assms(2)], of s] s(2) by (auto simp: route_tab_def)
    then show ?thesis using False s(1) by (simp add: replace_cmd_def)
  qed (use s in \<open>simp add: replace_cmd_def\<close>)
qed

lemma route_adddel_total:
  "str_env_ok (ro_str env) \<Longrightarrow> route_plain dev route \<Longrightarrow> \<exists>r log'. route_adddel env pattern route dev log = Some (r, log')"
  using replace_cmd_total [of "ro_str env" dev route]
  by (cases pattern) (force simp: route_adddel_def Let_def split: option.split)+

lemma del_routes_total:
  assumes "str_env_ok (ro_str env)"
  shows "list_all (route_plain dev) rs \<Longrightarrow> \<exists>log'. del_routes env rs dev log = Some log'"
proof (induction rs arbitrary: log)
  case (Cons r rs)
  then obtain x log' where "route_del env r dev log = Some (x, log')"
    using route_adddel_total [OF assms, of dev r "ro_del_cmd env" log] by (auto simp: route_del_def)
  then show ?case using Cons by simp
qed simp

lemma add_routes_total:
  assumes "str_env_ok (ro_str env)"
  shows "list_all (route_plain dev) rs \<Longrightarrow> list_all (route_plain dev) acc \<Longrightarrow>
    \<exists>ok added log'. add_routes env rs dev acc log = Some (ok, added, log') \<and> list_all (route_plain dev) added"
proof (induction rs arbitrary: acc log)
  case (Cons r rs)
  then obtain x log' where "route_add env r dev log = Some (x, log')"
    using route_adddel_total [OF assms, of dev r "ro_add_cmd env" log] by (auto simp: route_add_def)
  then show ?case using Cons.IH [of "acc @ [r]" log'] Cons.prems by auto
qed auto

lemma iroutes_plain: "iroutes_ok gc \<Longrightarrow> dev_ok dev \<Longrightarrow> list_all (route_plain dev) (items (gc_iroutes gc))"
  by (auto simp: iroutes_ok_def dev_ok_def route_plain_def list_all_iff)

lemma apply_iroutes_total:
  assumes "str_env_ok (ro_str env)" "p_config p = Some gc" "iroutes_ok gc" "dev_ok (p_tun_name p)"
  shows "\<exists>r ip log'. apply_iroutes env (iroute_view p) log = Some (r, ip, log')"
proof -
  obtain ok added log' where a: "add_routes env (items (gc_iroutes gc)) (p_tun_name p) [] log = Some (ok, added, log')"
      "list_all (route_plain (p_tun_name p)) added"
    using add_routes_total [OF assms(1) iroutes_plain [OF assms(3,4)], of "[]" log] by auto
  then show ?thesis
    using del_routes_total [OF assms(1) a(2), of log'] assms(2) by (auto simp: apply_iroutes_def iroute_view_def)
qed

lemma remove_iroutes_total:
  assumes "str_env_ok (ro_str env)" "\<And>gc. p_config p = Some gc \<Longrightarrow> iroutes_ok gc" "p_applied_iroutes p \<longrightarrow> dev_ok (p_tun_name p)"
  shows "\<exists>ip log'. remove_iroutes env (iroute_view p) log = Some (ip, log')"
proof (cases "p_applied_iroutes p \<and> p_config p \<noteq> None")
  case True
  then obtain gc where gc: "p_config p = Some gc" by blast
  then show ?thesis
    using del_routes_total [OF assms(1) iroutes_plain [OF assms(2) [OF gc]], of "p_tun_name p" log] True assms(3)
    by (auto simp: remove_iroutes_def iroute_view_def)
qed (auto simp: remove_iroutes_def iroute_view_def split: option.split)

lemma put_put [simp]: "put_proc i p (put_proc i q s) = put_proc i p s"
  by (simp add: put_proc_def)

lemma upd_proc_put_proc [simp]: "upd_proc i f (put_proc i p s) = put_proc i (f p) s"
  by (simp add: upd_proc_def)

text \<open>What the end of the login may change.\<close>

definition logged :: "proc_st \<Rightarrow> ps_status \<Rightarrow> bool \<Rightarrow> proc_st" where
  "logged p st ap = p\<lparr>p_tun_fd := -1, p_status := st, p_applied_iroutes := ap\<rparr>"

lemma logged_simps [simp]:
  "p_status (logged p st ap) = st" "p_active_sid (logged p st ap) = p_active_sid p" "keys (logged p st ap) = keys p"
  "p_ipv4 (logged p st ap) = p_ipv4 p" "p_ipv6 (logged p st ap) = p_ipv6 p" "p_tun_name (logged p st ap) = p_tun_name p"
  "p_config (logged p st ap) = p_config p" "p_username (logged p st ap) = p_username p" "p_sid (logged p st ap) = p_sid p"
  "(logged p st ap)\<lparr>p_status := st'\<rparr> = logged p st' ap"
  by (simp_all add: logged_def keys_def)

lemma core_logged:
  assumes "core H X s" "ms_heap s i = Some p" "code = 0 \<longrightarrow> p_active_sid p \<and> dev_ok (p_tun_name p)"
    and "st = p_status p \<or> st = PS_AUTH_FAILED \<or> code = 0 \<and> st = PS_AUTH_COMPLETED" "ap = p_applied_iroutes p \<or> code = 0"
  shows "core H X (put_proc i (logged p st ap) s)"
proof -
  have "proc_ok X s i (logged p st ap)"
    using core_proc [OF assms(1,2)] assms(3-5) by (auto simp: logged_def proc_ok_def idle_ok_def)
  then show ?thesis using assms(1,2) by (intro core_put) simp_all
qed

lemma handle_script_exit_ok:
  assumes c: "core H X s" and p: "ms_heap s i = Some p" "code = (0::int) \<longrightarrow> p_active_sid p \<and> dev_ok (p_tun_name p)"
    and env: "menv_ok H env"
  shows "\<exists>r s' st ap. handle_script_exit env i code s = Some (r, s') \<and> core H X s' \<and> keeps s s' \<and> ms_scripts s' = ms_scripts s \<and>
    ms_heap s' = (ms_heap s)(i \<mapsto> logged p st ap) \<and> r \<le> 0 \<and> (st = p_status p \<or> st = PS_AUTH_COMPLETED)"
proof -
  obtain r1 s1 where s1: "send_cookie_auth_reply env i (code = 0) s = Some (r1, s1)" "core H X s1" "keeps s s1"
      "ms_heap s1 = ms_heap s" "ms_scripts s1 = ms_scripts s"
    using send_cookie_auth_reply_ok [OF c p(1), of "code = 0" env] p(2) by blast
  have q: "p\<lparr>p_tun_fd := -1\<rparr> = logged p (p_status p) (p_applied_iroutes p)" by (simp add: logged_def)
  have q': "p\<lparr>p_applied_iroutes := ap, p_tun_fd := -1\<rparr> = logged p (p_status p) ap" for ap by (simp add: logged_def)
  have q'': "p\<lparr>p_applied_iroutes := ap, p_status := st, p_tun_fd := -1\<rparr> = logged p st ap" for st ap by (simp add: logged_def)
  have live: "ms_heap s1 i = Some p" using s1(4) p(1) by simp
  have fin: "core H X (put_proc i (logged p st ap) (s1\<lparr>ms_route_log := l\<rparr>))" "core H X (put_proc i (logged p st ap) s1)"
    if "st = p_status p \<or> code = 0 \<and> st = PS_AUTH_COMPLETED" "ap = p_applied_iroutes p \<or> code = 0" for st ap l
    using core_logged [OF s1(2) live p(2), of st ap] core_logged [of H X "s1\<lparr>ms_route_log := l\<rparr>" i p code st ap] that s1(2) live p(2) by auto
  show ?thesis
  proof (cases "code = 0 \<and> r1 \<ge> 0")
    case True
    have ok: "proc_ok X s i p" using core_proc [OF c p(1)] .
    then obtain gc where gc: "p_config p = Some gc" "iroutes_ok gc" using p(2) True by (auto simp: proc_ok_def)
    obtain r2 ip l where r2: "apply_iroutes (me_route env) (iroute_view p) (ms_route_log s1) = Some (r2, ip, l)"
      using apply_iroutes_total [OF menv_okD(2) [OF env] gc] p(2) True by blast
    let ?st = "if r2 < 0 then p_status p else PS_AUTH_COMPLETED"
    have "handle_script_exit env i code s = Some (if r2 < 0 then ERR_BAD_COMMAND else 0,
        put_proc i (logged p ?st (ir_applied ip)) (s1\<lparr>ms_route_log := l\<rparr>))"
      using True s1(1) live r2 by (simp add: handle_script_exit_def upd_proc_put q' q'')
    then show ?thesis using fin(1) [of ?st] True s1(3-5) live
      by (intro exI [of _ "if r2 < 0 then ERR_BAD_COMMAND else 0"]
          exI [of _ "put_proc i (logged p ?st (ir_applied ip)) (s1\<lparr>ms_route_log := l\<rparr>)"] exI [of _ ?st] exI [of _ "ir_applied ip"]) simp
  next
    case False
    let ?s = "put_proc i (logged p (p_status p) (p_applied_iroutes p)) s1"
    let ?r = "if r1 < 0 then ERR_BAD_COMMAND else 0"
    have "handle_script_exit env i code s = Some (?r, ?s)"
      using False s1(1) live by (cases "code = 0") (simp_all add: handle_script_exit_def upd_proc_put q)
    then show ?thesis using fin(2) [of "p_status p" "p_applied_iroutes p"] s1(3-5) live
      by (intro exI [of _ ?r] exI [of _ ?s] exI [of _ "p_status p"] exI [of _ "p_applied_iroutes p"]) simp
  qed
qed

lemma core_status:
  assumes "core H X s" "ms_heap s i = Some p" "st = PS_AUTH_FAILED \<or> st = PS_AUTH_COMPLETED \<and> p_active_sid p"
  shows "core H X (put_proc i (p\<lparr>p_status := st\<rparr>) s)"
proof -
  have "proc_ok X s i (p\<lparr>p_status := st\<rparr>)"
    using core_proc [OF assms(1,2)] assms(3) by (auto simp: proc_ok_def)
  then show ?thesis using assms(1,2) by (intro core_put) (simp_all add: keys_def)
qed

lemma set_status_put: "ms_heap s i = Some p \<Longrightarrow> set_status i st s = put_proc i (p\<lparr>p_status := st\<rparr>) s"
  by (simp add: set_status_def upd_proc_put)

lemma cookie_verdict_ok:
  assumes c: "core H {i} s" "procs_ok s" and p: "ms_heap s i = Some p" "\<not> scripted s i"
      "\<not> p_applied_iroutes p" "result = 0 \<longrightarrow> p_active_sid p" "result \<le> 0"
    and env: "menv_ok H env"
  shows "\<exists>r s' p'. cookie_verdict env i result s = Some (r, s') \<and> core H {i} s' \<and> keeps s s' \<and> ms_heap s' i = Some p' \<and>
    p_status p' \<noteq> PS_AUTH_INACTIVE \<and> (r = 0 \<longrightarrow> p_active_sid p' \<and> dev_ok (p_tun_name p'))"
proof (cases "result = 0")
  case True
  then have act: "p_active_sid p" using p(4) by simp
  obtain r s' a b n fd where s': "accept_user env i s = Some (r, s')" "core H {i} s'" "keeps s s'"
      "ms_heap s' i = Some (with_tun p a b n fd)" "r \<ge> 0 \<longrightarrow> dev_ok n"
    using accept_user_ok [OF c p(1) act p(2,3) env] by blast
  let ?st = "if r < 0 then PS_AUTH_FAILED else PS_AUTH_COMPLETED" and ?p = "with_tun p a b n fd"
  have "core H {i} (put_proc i (?p\<lparr>p_status := ?st\<rparr>) s')" using act by (intro core_status [OF s'(2,4)]) simp
  then show ?thesis using True s' act
    by (intro exI [of _ r] exI [of _ "put_proc i (?p\<lparr>p_status := ?st\<rparr>) s'"] exI [of _ "?p\<lparr>p_status := ?st\<rparr>"])
      (simp add: cookie_verdict_def set_status_put)
next
  case False
  let ?p = "p\<lparr>p_status := PS_AUTH_FAILED\<rparr>"
  have "core H {i} (put_proc i ?p s)" by (intro core_status [OF c(1) p(1)]) simp
  then show ?thesis using False p(1,5)
    by (intro exI [of _ result] exI [of _ "put_proc i ?p s"] exI [of _ ?p]) (simp add: cookie_verdict_def set_status_put)
qed

lemma handle_cookie_auth_res_ok:
  assumes c: "core H {i} s" "procs_ok s" and p: "ms_heap s i = Some p" "\<not> scripted s i"
      "\<not> p_applied_iroutes p" "result = 0 \<longrightarrow> p_active_sid p" "result \<le> 0"
    and env: "menv_ok H env"
  shows "\<exists>r s'. handle_cookie_auth_res env i result s = Some (r, s') \<and> core H {} s' \<and> keeps s s' \<and> r \<le> 0"
proof -
  obtain r s1 p1 where s1: "cookie_verdict env i result s = Some (r, s1)" "core H {i} s1" "keeps s s1" "ms_heap s1 i = Some p1"
      "p_status p1 \<noteq> PS_AUTH_INACTIVE" "r = 0 \<longrightarrow> p_active_sid p1 \<and> dev_ok (p_tun_name p1)"
    using cookie_verdict_ok [OF assms] by blast
  obtain r2 s2 st ap where s2: "handle_script_exit env i r s1 = Some (r2, s2)" "core H {i} s2" "keeps s1 s2"
      "ms_heap s2 = (ms_heap s1)(i \<mapsto> logged p1 st ap)" "r2 \<le> 0" "st = p_status p1 \<or> st = PS_AUTH_COMPLETED"
    using handle_script_exit_ok [OF s1(2,4,6) env] by blast
  let ?p3 = "logged p1 PS_AUTH_FAILED ap"
  have c3: "core H {i} (put_proc i ?p3 s2)"
    using core_status [OF s2(2), of i "logged p1 st ap" PS_AUTH_FAILED] s2(4) by simp
  have fin: "core H {} s1" "core H {} s2" "core H {} (put_proc i ?p3 s2)"
    using core_finish [OF s1(2,4,5)] core_finish [OF s2(2), of "logged p1 st ap"] core_finish [OF c3, of ?p3] s1(5) s2(4,6)
    by auto
  show ?thesis
    using s1(1) s2 fin s1(3) keeps_trans [OF s1(3) s2(3)]
    by (simp add: handle_cookie_auth_res_def set_status_put)
qed

end
