(* ===== verification/Main_Events.thy ===== *)
theory Main_Events
  imports Main_Inv
begin

text \<open>
  The main process as a state machine: one step handles one event of the event loop.  The
  theory shows that no event makes main follow a NULL or dangling pointer or read behind a
  message, except three that a worker can send, and the invariants that the steps keep.
\<close>

section \<open>Ending a process\<close>

text \<open>Closing a session changes the statistics only.\<close>

definition stat_upd :: "'s main_server_st \<Rightarrow> 's main_server_st \<Rightarrow> bool" where
  "stat_upd s s' \<longleftrightarrow>
     ms_heap s' = ms_heap s \<and> ms_leases s' = ms_leases s \<and> ms_table s' = ms_table s \<and> ms_scripts s' = ms_scripts s \<and>
     ms_procs s' = ms_procs s \<and> ms_next s' = ms_next s \<and> ms_vconfig s' = ms_vconfig s \<and> ms_exited s' = ms_exited s \<and>
     ms_trace s' = ms_trace s \<and> ms_sec s' = ms_sec s \<and> length (ms_instances s') = length (ms_instances s) \<and>
     st_active_clients (ms_stats s') = st_active_clients (ms_stats s)"

lemma stat_upd_refl: "stat_upd s s"
  by (simp add: stat_upd_def)

lemma stat_upd_reset: "stat_upd s s' \<Longrightarrow> stat_upd s (reset_stats now s')"
  by (simp add: stat_upd_def reset_stats_def)

lemma stat_upd_stats: "stat_upd s s' \<Longrightarrow> st_active_clients st = st_active_clients (ms_stats s') \<Longrightarrow> stat_upd s (s'\<lparr>ms_stats := st\<rparr>)"
  by (simp add: stat_upd_def)

lemma stat_upd_if: "(c \<Longrightarrow> stat_upd s a) \<Longrightarrow> (\<not> c \<Longrightarrow> stat_upd s b) \<Longrightarrow> stat_upd s (if c then a else b)"
  by simp

lemma active_clients_simps [simp]:
  "st_active_clients (count_time x st) = st_active_clients st" "st_active_clients (count_mtu m st) = st_active_clients st"
  "st_active_clients (count_reason r st) = st_active_clients st"
  by (simp_all add: count_time_def count_mtu_def count_reason_def)

lemma update_main_stats_upd: "stat_upd s (update_main_stats now p sc s)"
proof -
  define s1 where "s1 = (if sc_stats_reset_time sc \<noteq> 0 \<and> now - st_last_reset (ms_stats s) > sc_stats_reset_time sc
               then reset_stats now s else s)"
  have 1: "stat_upd s s1" unfolding s1_def by (intro stat_upd_if stat_upd_reset stat_upd_refl)
  show ?thesis
    unfolding update_main_stats_def Let_def s1_def [symmetric]
    by (intro stat_upd_if stat_upd_reset stat_upd_stats 1) simp_all
qed

lemma update_main_stats_frame [simp]:
  "ms_heap (update_main_stats now p sc s) = ms_heap s" "ms_table (update_main_stats now p sc s) = ms_table s"
  "ms_leases (update_main_stats now p sc s) = ms_leases s" "ms_scripts (update_main_stats now p sc s) = ms_scripts s"
  "ms_procs (update_main_stats now p sc s) = ms_procs s" "ms_next (update_main_stats now p sc s) = ms_next s"
  "ms_vconfig (update_main_stats now p sc s) = ms_vconfig s" "ms_exited (update_main_stats now p sc s) = ms_exited s"
  "ms_trace (update_main_stats now p sc s) = ms_trace s" "ms_sec (update_main_stats now p sc s) = ms_sec s"
  "length (ms_instances (update_main_stats now p sc s)) = length (ms_instances s)"
  "st_active_clients (ms_stats (update_main_stats now p sc s)) = st_active_clients (ms_stats s)"
  using update_main_stats_upd [of s now p sc] by (simp_all add: stat_upd_def)

lemma update_main_stats_ok [simp]:
  "core H X (update_main_stats now p sc s) = core H X s" "keeps s0 (update_main_stats now p sc s) = keeps s0 s"
  by (rule core_cong; simp) (simp add: keeps_def)

lemma session_close_ok:
  assumes "core H X s" "ms_heap s i = Some p" "p_vhost p \<noteq> None"
  shows "\<exists>r s' p'. session_close env inst i s = Some (r, s') \<and> core H X s' \<and> keeps s s' \<and>
    ms_heap s' = (ms_heap s)(i \<mapsto> p') \<and> core_part p' = core_part p \<and> ms_scripts s' = ms_scripts s"
proof -
  obtain vi where vi: "p_vhost p = Some vi" using assms(3) by blast
  obtain r sec where o: "me_close env inst (close_req p) (ms_sec s) = (r, sec)" by fastforce
  define s1 where "s1 = (emit (OutSecClose inst (close_req p)) s)\<lparr>ms_sec := sec\<rparr>"
  have s1: "core H X s1" "keeps s s1" "ms_heap s1 = ms_heap s" "ms_scripts s1 = ms_scripts s" using assms(1) by (simp_all add: s1_def)
  have id: "(ms_heap s)(i \<mapsto> p) = ms_heap s" using assms(2) by (simp add: fun_upd_idem)
  show ?thesis
  proof (cases r)
    case CloseSendFail
    then have "session_close env inst i s = Some (-1, s1)" using assms(2) o by (simp add: session_close_def s1_def)
    then show ?thesis using s1 id by (intro exI [of _ "-1"] exI [of _ s1] exI [of _ p]) simp
  next
    case (CloseRecvFail e)
    then have "session_close env inst i s = Some (- 1 - int e, s1)" using assms(2) o by (simp add: session_close_def s1_def)
    then show ?thesis using s1 id by (intro exI [of _ "- 1 - int e"] exI [of _ s1] exI [of _ p]) simp
  next
    case (CloseOk bi bo dr)
    define p1 where "p1 = p\<lparr>p_bytes_in := bi, p_bytes_out := bo, p_discon_reason := (case dr of None \<Rightarrow> p_discon_reason p | Some x \<Rightarrow> x)\<rparr>"
    have p1: "core_part p1 = core_part p" "p_config p1 = p_config p" "p_vhost p1 = p_vhost p"
      by (simp_all add: p1_def core_part_def keys_def)
    have "core H X (put_proc i p1 s1)" using s1(1,3) assms(2) p1 by (intro core_put_part) simp_all
    define s2 where "s2 = update_main_stats (me_now env) p1 (mv_static (ms_vconfig s ! vi)) (put_proc i p1 s1)"
    have "core H X s2" "keeps s s2"
      using \<open>core H X (put_proc i p1 s1)\<close> s1(2,3) assms(2) by (simp_all add: s2_def)
    moreover have "session_close env inst i s = Some (0, s2)"
      using CloseOk assms(2) o vi p1(3) by (simp add: session_close_def s2_def s1_def Let_def flip: p1_def)
    ultimately show ?thesis using p1(1) s1 by (intro exI [of _ 0] exI [of _ s2] exI [of _ p1]) (simp add: s2_def)
  qed
qed

lemma drop_leases_ok:
  assumes "core H X s" "ms_heap s i = Some p"
  shows "core H X (drop_leases i p s) \<and> rest (drop_leases i p s) = rest s \<and>
    ms_heap (drop_leases i p s) = (ms_heap s)(i \<mapsto> p\<lparr>p_ipv4 := None, p_ipv6 := None\<rparr>)"
proof (cases "p_ipv4 p = None \<and> p_ipv6 p = None")
  case True
  then have "p\<lparr>p_ipv4 := None, p_ipv6 := None\<rparr> = p" by (cases p) simp
  then show ?thesis using True assms by (simp add: drop_leases_def fun_upd_idem)
next
  case False
  let ?p = "p\<lparr>p_ipv4 := None, p_ipv6 := None\<rparr>"
  obtain db lp where r: "remove_ip_leases (ms_leases s) (lease_slots p) = (db, lp)" by fastforce
  then have lp: "put_leases lp p = ?p" by (auto simp: remove_ip_leases_def put_leases_def Let_def)
  have "own db ((mslot (ms_heap s))((i, False) := None, (i, True) := None))"
    using own_remove_ip_leases [of "ms_leases s" "mslot (ms_heap s)" "(i, False)" "lease_slots p" "(i, True)"] assms r
      mslot_own [of "ms_heap s" i p]
    by (simp add: core_def lease_slots_def Let_def)
  moreover have "proc_ok X s i ?p" using core_proc [OF assms] by (simp add: proc_ok_def idle_ok_def)
  ultimately have "core H X (put_proc i ?p (s\<lparr>ms_leases := db\<rparr>))"
    using assms by (intro core_put_leases) (simp_all add: keys_def dtor_only_def)
  moreover have "drop_leases i p s = put_proc i ?p (s\<lparr>ms_leases := db\<rparr>)" using False r lp by (auto simp: drop_leases_def)
  ultimately show ?thesis by simp
qed

lemma proc_table_del_listed: "listed j (proc_table_del hash i p t) \<Longrightarrow> listed j t"
  by (auto simp: proc_table_del_def Let_def dest: holds_pt_del split: if_splits)

lemma free_proc_ok:
  assumes "core H {} s" "ms_heap s i = Some p" "p_ipv4 p = None" "p_ipv6 p = None" "\<not> scripted s i" "te_hash (me_table env) = H"
  shows "core H {} (free_proc env i p s)"
proof -
  let ?t = "proc_table_del H i p (ms_table s)"
  let ?s = "free_proc env i p s"
  have s': "ms_heap ?s = (ms_heap s)(i := None)" "ms_table ?s = ?t" "ms_leases ?s = ms_leases s" "ms_scripts ?s = ms_scripts s"
      "ms_vconfig ?s = ms_vconfig s" "ms_instances ?s = ms_instances s"
    using assms(6) by (simp_all add: free_proc_def Let_def split: option.split)
  have t: "tables_ok H ((ms_heap s)(i := None)) ?t"
    using proc_table_del_ok [of H "ms_heap s" "ms_table s" i p] assms(1,2) by (simp add: core_def)
  have "mslot ((ms_heap s)(i := None)) = mslot (ms_heap s)"
    using assms(2-4) by (auto simp: mslot_def dtor_only_def fun_eq_iff)
  moreover have "proc_ok {} ?s j q" if "ms_heap s j = Some q" for j q
    using core_proc [OF assms(1) that] proc_table_del_listed [of j H i p "ms_table s"]
    by (auto simp: proc_ok_def idle_ok_def scripted_def s')
  ultimately show ?thesis
    using assms(1,5) t unfolding core_def s' by (auto simp: scripted_def s')
qed

text \<open>The frame of the removal.\<close>

definition removes :: "nat \<Rightarrow> 's main_server_st \<Rightarrow> 's main_server_st \<Rightarrow> bool" where
  "removes i s s' \<longleftrightarrow>
     ms_procs s' = ms_procs s \<and> dom (ms_heap s') = dom (ms_heap s) - {i} \<and> ms_next s' = ms_next s \<and>
     ms_vconfig s' = ms_vconfig s \<and> st_active_clients (ms_stats s') = st_active_clients (ms_stats s) \<and>
     length (ms_instances s') = length (ms_instances s) \<and> ms_exited s' = ms_exited s"

lemma free_proc_removes: "keeps s s' \<Longrightarrow> removes i s (free_proc env i p s')"
  by (auto simp: removes_def keeps_def free_proc_def Let_def split: option.split)

lemma remove_iroutes_applied: "remove_iroutes env ip log = Some (ip', log') \<Longrightarrow> ir_applied ip' \<Longrightarrow> ir_applied ip"
  by (auto simp: remove_iroutes_def split: option.splits if_splits)

text \<open>The last part of the removal: routes, leases, search tables and the record.\<close>

lemma undo_proc_ok:
  assumes c: "core H {} s" and p: "ms_heap s i = Some p" "\<not> scripted s i" and env: "menv_ok H env"
  obtains ip log p4 s5 p5 where "remove_iroutes (me_route env) (iroute_view p) (ms_route_log s) = Some (ip, log)"
    "p4 = p\<lparr>p_applied_iroutes := ir_applied ip, p_tun_fd := -1\<rparr>"
    "s5 = drop_leases i p4 (put_proc i p4 (s\<lparr>ms_route_log := log\<rparr>))" "ms_heap s5 i = Some p5"
    "core H {} (free_proc env i p5 s5)" "removes i s (free_proc env i p5 s5)"
proof -
  have ok: "proc_ok {} s i p" using core_proc [OF c p(1)] .
  have "\<And>gc. p_config p = Some gc \<Longrightarrow> iroutes_ok gc" "p_applied_iroutes p \<longrightarrow> dev_ok (p_tun_name p)"
    using ok by (simp_all add: proc_ok_def)
  then obtain ip log where r: "remove_iroutes (me_route env) (iroute_view p) (ms_route_log s) = Some (ip, log)"
    using remove_iroutes_total [OF menv_okD(2) [OF env], of p] by blast
  define p4 where "p4 = p\<lparr>p_applied_iroutes := ir_applied ip, p_tun_fd := -1\<rparr>"
  let ?s4 = "put_proc i p4 (s\<lparr>ms_route_log := log\<rparr>)"
  have ap: "ir_applied ip \<longrightarrow> p_applied_iroutes p"
    using remove_iroutes_applied [OF r] by (auto simp: iroute_view_def)
  have "proc_ok {} (s\<lparr>ms_route_log := log\<rparr>) i p4"
    using ok ap by (auto simp: p4_def proc_ok_def idle_ok_def scripted_def)
  then have c4: "core H {} ?s4" using c p(1) by (intro core_put [of _ _ _ _ p]) (simp_all add: p4_def keys_def)
  have p4: "ms_heap ?s4 i = Some p4" by simp
  define s5 where "s5 = drop_leases i p4 ?s4"
  define p5 where "p5 = p4\<lparr>p_ipv4 := None, p_ipv6 := None\<rparr>"
  have s5: "core H {} s5" "rest s5 = rest ?s4" "ms_heap s5 = (ms_heap ?s4)(i \<mapsto> p5)"
    using drop_leases_ok [OF c4 p4] by (simp_all add: s5_def p5_def)
  have k: "keeps s s5" using rest_keeps [OF s5(2,3) p4] p(1) by (simp add: keeps_def insert_absorb domI)
  have live: "ms_heap s5 i = Some p5" using s5(3) by simp
  have "\<not> scripted s5 i" using p(2) s5(2) by (simp add: scripted_def rest_def)
  then have "core H {} (free_proc env i p5 s5)"
    using s5(1) live menv_okD(1) [OF env] by (intro free_proc_ok) (simp_all add: p5_def)
  then show thesis using that [OF r p4_def s5_def live] free_proc_removes [OF k] by simp
qed

lemma remove_proc_rest_ok:
  assumes c: "core H {} s" and p: "ms_heap s i = Some p" and env: "menv_ok H env"
  shows "\<exists>s'. remove_proc_rest env i s = Some s' \<and> core H {} s' \<and> removes i s s'"
proof -
  obtain pid s1 where s1: "remove_from_script_list i s = (pid, s1)" by fastforce
  note ok1 = remove_from_script_list_ok [OF c s1]
  have p1: "ms_heap s1 i = Some p" using ok1 p by simp
  have act: "pid > 0 \<or> p_status p = PS_AUTH_COMPLETED \<Longrightarrow> p_active_sid p"
    using core_proc [OF c p] ok1 by (auto simp: proc_ok_def)
  define d where "d = (if pid > 0 then (case me_wait env of
                                       Some w \<Rightarrow> if WEXITSTATUS w = 0 then user_disconnected env i s1 else Some s1
                                     | None \<Rightarrow> Some s1)
                   else if p_status p = PS_AUTH_COMPLETED then user_disconnected env i s1
                   else Some s1)"
  have "d = Some s1 \<or> d = user_disconnected env i s1 \<and> p_active_sid p"
    using act by (auto simp: d_def split: option.split)
  then obtain s2 where s2: "d = Some s2" "core H {} s2" "keeps s1 s2" "ms_heap s2 = ms_heap s1" "ms_scripts s2 = ms_scripts s1"
    using user_disconnected_ok [of H "{}" s1 i p env] ok1 p1 by auto
  define p3 where "p3 = p\<lparr>p_fd := -1, p_pid := -1\<rparr>"
  define s3 where "s3 = put_proc i p3 s2"
  have "core_part p3 = core_part p" "p_config p3 = p_config p" "p_vhost p3 = p_vhost p"
    by (simp_all add: p3_def core_part_def keys_def)
  then have c3: "core H {} s3" unfolding s3_def using s2(2,4) p1 by (intro core_put_part [of _ _ _ _ p]) simp_all
  have s3: "ms_heap s3 i = Some p3" "\<not> scripted s3 i" "keeps s s3"
    using ok1 s2 p1 keeps_trans by (auto simp: s3_def scripted_def)
  show ?thesis
  proof (rule undo_proc_ok [OF c3 s3(1,2) env])
    fix ip log p4 s5 p5
    assume u: "remove_iroutes (me_route env) (iroute_view p3) (ms_route_log s3) = Some (ip, log)"
      "p4 = p3\<lparr>p_applied_iroutes := ir_applied ip, p_tun_fd := -1\<rparr>"
      "s5 = drop_leases i p4 (put_proc i p4 (s3\<lparr>ms_route_log := log\<rparr>))" "ms_heap s5 i = Some p5"
      "core H {} (free_proc env i p5 s5)" "removes i s3 (free_proc env i p5 s5)"
    have "upd_proc i (\<lambda>p. p\<lparr>p_fd := -1, p_pid := -1\<rparr>) s2 = s3"
      using s2(4) p1 by (simp add: s3_def p3_def upd_proc_put)
    then have "remove_proc_rest env i s = Some (free_proc env i p5 s5)"
      using s1 p1 s2(1) s3(1) u(1,2,4) by (simp add: remove_proc_rest_def u(3) Let_def flip: d_def)
    then show ?thesis using u(5,6) s3(3) by (auto simp: removes_def keeps_def)
  qed
qed

definition leaves :: "nat \<Rightarrow> 's main_server_st \<Rightarrow> 's main_server_st \<Rightarrow> bool" where
  "leaves i s s' \<longleftrightarrow> ms_procs s' = remove1 i (ms_procs s) \<and> ms_next s' = ms_next s \<and> ms_vconfig s' = ms_vconfig s \<and>
     length (ms_instances s') = length (ms_instances s)"

lemma removed_inv:
  assumes "main_inv H s" "ms_heap s i = Some p" "core H {} s'" "removes i s2 s'" "ms_procs s2 = remove1 i (ms_procs s)"
    "ms_heap s2 = ms_heap s" "ms_next s2 = ms_next s" "ms_vconfig s2 = ms_vconfig s" "length (ms_instances s2) = length (ms_instances s)"
    "st_active_clients (ms_stats s2) = st_active_clients (ms_stats s) - 1"
  shows "main_inv H s' \<and> leaves i s s' \<and> dom (ms_heap s') = dom (ms_heap s) - {i}"
proof -
  have ps: "procs_ok s" using assms(1) by (simp add: main_inv_def)
  have i: "i \<in> set (ms_procs s)" "distinct (ms_procs s)" using ps assms(2) by (auto simp: procs_ok_def)
  have len: "length (ms_procs s) = Suc (length (remove1 i (ms_procs s)))"
    using i(1) by (metis One_nat_def Suc_pred length_pos_if_in_set length_remove1)
  have "set (remove1 i (ms_procs s)) = set (ms_procs s) - {i}" using i by simp
  then have "procs_ok s'" using assms(4-10) ps i(2) len unfolding removes_def procs_ok_def by simp
  then show ?thesis using assms(3-10) by (simp add: main_inv_def leaves_def removes_def)
qed

lemma remove_proc_ok:
  assumes inv: "main_inv H s" and p: "ms_heap s i = Some p" and env: "menv_ok H env" and x: "\<not> ms_exited s"
  shows "\<exists>s'. remove_proc env i kill quit s = Some s' \<and> leaves i s s' \<and>
    (ms_exited s' \<or> main_inv H s' \<and> \<not> ms_exited s' \<and> dom (ms_heap s') = dom (ms_heap s) - {i})"
proof -
  have c: "core H {} s" using inv by (simp add: main_inv_def)
  define s1 where "s1 = upd_stats (\<lambda>st. st\<lparr>st_active_clients := st_active_clients st - 1\<rparr>) (s\<lparr>ms_procs := remove1 i (ms_procs s)\<rparr>)"
  define s2 where "s2 = (if kill \<and> p_pid p \<noteq> -1 \<and> p_pid p \<noteq> 0 then emit (OutKill (p_pid p)) s1 else s1)"
  have s2: "core H {} s2" "ms_procs s2 = remove1 i (ms_procs s)" "ms_heap s2 = ms_heap s" "ms_next s2 = ms_next s"
      "ms_vconfig s2 = ms_vconfig s" "length (ms_instances s2) = length (ms_instances s)"
      "st_active_clients (ms_stats s2) = st_active_clients (ms_stats s) - 1" "\<not> ms_exited s2"
    using c x by (simp_all add: s2_def s1_def)
  have p2: "ms_heap s2 i = Some p" using s2(3) p by simp
  have run: "remove_proc env i kill quit s =
     (if p_active_sid p \<and> \<not> quit then
         (if p_sec_mod_index p \<ge> length (ms_instances s) then None
          else do {
            (ret, s3) \<leftarrow> session_close env (p_sec_mod_index p) i s2;
            if ret < 0 then Some (s3\<lparr>ms_exited := True\<rparr>) else remove_proc_rest env i s3
          })
       else remove_proc_rest env i s2)"
    unfolding remove_proc_def Let_def s2_def s1_def p option.simps bind_simps by simp
  show ?thesis
  proof (cases "p_active_sid p \<and> \<not> quit")
    case True
    have ok: "p_vhost p \<noteq> None" "p_sec_mod_index p < length (ms_instances s)"
      using core_proc [OF c p] True by (auto simp: proc_ok_def)
    obtain r s3 p3 where s3: "session_close env (p_sec_mod_index p) i s2 = Some (r, s3)" "core H {} s3" "keeps s2 s3"
        "ms_heap s3 = (ms_heap s2)(i \<mapsto> p3)"
      using session_close_ok [OF s2(1) p2 ok(1)] by blast
    obtain s4 where s4: "remove_proc_rest env i s3 = Some s4" "core H {} s4" "removes i s3 s4"
      using remove_proc_rest_ok [OF s3(2) _ env, of i p3] s3(4) by auto
    have rem: "removes i s2 s4" "\<not> ms_exited s4" using s4(3) s3(3) s2(8) by (simp_all add: removes_def keeps_def)
    have res: "remove_proc env i kill quit s = Some (if r < 0 then s3\<lparr>ms_exited := True\<rparr> else s4)"
      unfolding run using True ok(2) s3(1) s4(1) by simp
    show ?thesis
    proof (cases "r < 0")
      case True
      then show ?thesis using res s3(3) s2 by (simp add: leaves_def keeps_def)
    next
      case False
      then show ?thesis using res removed_inv [OF inv p s4(2) rem(1) s2(2-7)] rem(2) by simp
    qed
  next
    case False
    obtain s4 where s4: "remove_proc_rest env i s2 = Some s4" "core H {} s4" "removes i s2 s4"
      using remove_proc_rest_ok [OF s2(1) p2 env] by blast
    moreover have "remove_proc env i kill quit s = remove_proc_rest env i s2" unfolding run using False by (simp only: if_False)
    ultimately show ?thesis
      using removed_inv [OF inv p s4(2,3) s2(2-7)] s2(8) by (simp add: removes_def)
  qed
qed

section \<open>New processes\<close>

lemma new_proc_ok:
  assumes inv: "main_inv H s" and wf: "saddr_wf remote" "saddr_wf our"
    and new: "new_proc env pid fd remote our s = (Some i, s')"
  shows "main_inv H s' \<and> ms_procs s' = i # ms_procs s \<and> ms_vconfig s' = ms_vconfig s \<and> ms_exited s' = ms_exited s \<and>
    length (ms_instances s') = length (ms_instances s)"
proof -
  have c: "core H {} s" and ps: "procs_ok s" using inv by (simp_all add: main_inv_def)
  have i: "i = ms_next s" using new by (simp add: new_proc_def Let_def split: if_splits)
  define p where "p = proc_zero\<lparr>p_pid := pid, p_tun_fd := -1, p_fd := fd, p_conn_time := me_now env,
                          p_remote := \<lparr>sa_raw = mem_cpy (sa_raw saddr_zero) (sa_raw remote) (sa_len remote),
                                       sa_len = sa_len remote\<rparr>,
                          p_our := \<lparr>sa_raw = mem_cpy (sa_raw saddr_zero) (sa_raw our) (sa_len our),
                                    sa_len = sa_len our\<rparr>\<rparr>"
  have s': "s' = upd_stats (\<lambda>st. st\<lparr>st_active_clients := st_active_clients st + 1\<rparr>)
              (put_proc i p (s\<lparr>ms_next := i + 1, ms_procs := i # ms_procs s\<rparr>))"
    using new by (auto simp: new_proc_def p_def Let_def split: if_splits)
  have none: "ms_heap s i = None" using ps i by (auto simp: procs_ok_def)
  then have free: "\<not> listed i (ms_table s)" "\<not> scripted s i"
    using c tables_ok_listed [of H "ms_heap s" "ms_table s" i] by (auto simp: core_def)
  have "saddr_wf (p_remote p)" "saddr_wf (p_our p)" "saddr_wf (p_dtls_remote p)"
    using wf by (simp_all add: p_def proc_zero_def saddr_wf_def saddr_zero_def)
  then have ok: "proc_ok {} s i p"
    using free by (simp add: proc_ok_def idle_ok_def p_def proc_zero_def)
  have "mslot ((ms_heap s)(i \<mapsto> p)) = mslot (ms_heap s)"
    using none by (auto simp: mslot_def dtor_only_def p_def proc_zero_def fun_eq_iff)
  moreover have "tables_ok H ((ms_heap s)(i \<mapsto> p)) (ms_table s)" using c free(1) by (auto simp: core_def intro: tables_ok_free)
  ultimately have "core H {} (put_proc i p s)" using c ok by (auto simp: core_def scripted_def)
  moreover have "core H {} s' \<longleftrightarrow> core H {} (put_proc i p s)" by (rule core_cong) (simp_all add: s')
  moreover have "procs_ok s'" using ps i none by (auto simp: procs_ok_def s' less_Suc_eq)
  ultimately show ?thesis by (simp add: main_inv_def s')
qed

definition accepts :: "'s main_server_st \<Rightarrow> 's main_server_st \<Rightarrow> bool" where
  "accepts s s' \<longleftrightarrow> ms_vconfig s' = ms_vconfig s \<and> ms_exited s' = ms_exited s \<and> length (ms_instances s') = length (ms_instances s) \<and>
     (ms_procs s' = ms_procs s \<or>
      (rc_max_clients (GETRCONFIG s) > 0 \<longrightarrow> st_active_clients (ms_stats s) < rc_max_clients (GETRCONFIG s)) \<and>
      (\<exists>i. ms_procs s' = i # ms_procs s))"

lemma main_inv_simps [simp]:
  "main_inv H (emit e s) = main_inv H s" "main_inv H (s\<lparr>ms_ban := b\<rparr>) = main_inv H s"
  "main_inv H (s\<lparr>ms_abnormal := a\<rparr>) = main_inv H s" "main_inv H (s\<lparr>ms_sec := x\<rparr>) = main_inv H s"
  by (simp_all add: main_inv_def procs_ok_def)

lemma accept_filter_ok:
  assumes "main_inv H s" "\<And>a. ac_our ac = Some a \<Longrightarrow> saddr_wf a"
    and "(if rc_listen_proxy_proto cfg then (False, s, saddr_zero)
               else (case check_if_banned (me_ban env) (me_ban_now env) (ban_view (ac_remote ac))
                            (sa_ip (ac_remote ac)) (ms_ban s) of
                       (b, ban) \<Rightarrow> (b, s\<lparr>ms_ban := ban\<rparr>, case ac_our ac of None \<Rightarrow> saddr_zero | Some a \<Rightarrow> a))) = (banned, s1, our)"
  shows "main_inv H s1 \<and> saddr_wf our \<and> ms_vconfig s1 = ms_vconfig s \<and> ms_exited s1 = ms_exited s \<and>
    ms_instances s1 = ms_instances s \<and> ms_procs s1 = ms_procs s"
  using assms by (auto simp: saddr_wf_def saddr_zero_def split: if_splits prod.splits option.splits)

lemma listen_accept_ok:
  assumes inv: "main_inv H s" and wf: "saddr_wf (ac_remote ac)" "\<And>a. ac_our ac = Some a \<Longrightarrow> saddr_wf a"
  shows "main_inv H (listen_accept env ac s) \<and> accepts s (listen_accept env ac s)"
proof -
  let ?cfg = "GETRCONFIG s"
  obtain banned s1 our where f: "(if rc_listen_proxy_proto ?cfg then (False, s, saddr_zero)
               else (case check_if_banned (me_ban env) (me_ban_now env) (ban_view (ac_remote ac))
                            (sa_ip (ac_remote ac)) (ms_ban s) of
                       (b, ban) \<Rightarrow> (b, s\<lparr>ms_ban := ban\<rparr>, case ac_our ac of None \<Rightarrow> saddr_zero | Some a \<Rightarrow> a))) = (banned, s1, our)"
    using prod_cases3 by blast
  note s1 = accept_filter_ok [OF inv wf(2) f]
  define full where "full = (rc_max_clients ?cfg > 0 \<and> st_active_clients (ms_stats s) \<ge> rc_max_clients ?cfg)"
  obtain r s2 where n: "new_proc env (ac_pid ac) (ac_cmd_fd ac) (ac_remote ac) our s1 = (r, s2)" by fastforce
  have run: "listen_accept env ac s =
      (if \<not> ac_fd ac \<or> full \<or> \<not> ac_wrapper ac then s
       else if banned \<or> \<not> ac_socketpair ac \<or> ac_pid ac = -1 then s1
       else case r of None \<Rightarrow> emit (OutKill (ac_pid ac)) s2 | Some i \<Rightarrow> s2)"
    unfolding listen_accept_def Let_def f full_def [symmetric] accept_parent_def by (simp add: n)
  have same: "main_inv H s \<and> accepts s s" "main_inv H s1 \<and> accepts s s1" using inv s1 by (simp_all add: accepts_def)
  have made: "main_inv H (case r of None \<Rightarrow> emit (OutKill (ac_pid ac)) s2 | Some i \<Rightarrow> s2) \<and>
      accepts s (case r of None \<Rightarrow> emit (OutKill (ac_pid ac)) s2 | Some i \<Rightarrow> s2)" if "\<not> full"
  proof (cases r)
    case None
    then have "s2 = s1" using n by (auto simp: new_proc_def Let_def split: if_splits)
    then show ?thesis using None s1 by (simp add: accepts_def)
  next
    case (Some i)
    then show ?thesis using new_proc_ok [of H s1 "ac_remote ac" our env "ac_pid ac" "ac_cmd_fd ac" i s2] n s1 wf(1) that
      by (auto simp: accepts_def full_def)
  qed
  show ?thesis unfolding run using same made by (simp split: if_split)
qed

section \<open>Messages of workers\<close>

lemma main_inv_keeps: "main_inv H s \<Longrightarrow> core H {} s' \<Longrightarrow> keeps s s' \<Longrightarrow> main_inv H s'"
  by (auto simp: main_inv_def keeps_procs)

lemma main_put_part:
  assumes "main_inv H s" "ms_heap s i = Some p" "core_part p' = core_part p" "p_config p' = p_config p" "p_vhost p' = p_vhost p"
  shows "main_inv H (put_proc i p' s)"
  using assms core_put_part [of H "{}" s i p p'] by (intro main_inv_keeps [OF assms(1)]) (simp_all add: main_inv_def)

lemma core_put_table:
  assumes "core H X s" "ms_heap s i = Some p" "tables_ok H ((ms_heap s)(i \<mapsto> p')) t"
    and listed: "\<And>j. listed j t \<Longrightarrow> listed j (ms_table s) \<or> j = i"
    and "proc_ok X (s\<lparr>ms_table := t\<rparr>) i p'" "p_ipv4 p' = p_ipv4 p" "p_ipv6 p' = p_ipv6 p"
  shows "core H X (put_proc i p' (s\<lparr>ms_table := t\<rparr>))"
proof -
  have "mslot ((ms_heap s)(i \<mapsto> p')) = mslot (ms_heap s)"
    using assms(2,6,7) by (auto simp: mslot_def fun_eq_iff)
  moreover have "proc_ok X (s\<lparr>ms_table := t\<rparr>) j q" if "ms_heap s j = Some q" "j \<noteq> i" for j q
    using core_proc [OF assms(1) that(1)] listed [of j] that(2) by (auto simp: proc_ok_def idle_ok_def scripted_def)
  ultimately show ?thesis using assms(1,3,5) by (auto simp: core_def scripted_def)
qed

definition addr_len_ok :: "nat \<Rightarrow> bool" where
  "addr_len_ok n = ((n = 16 \<or> 24 \<le> n) \<and> n \<le> 128)"

lemma update_ip_reads:
  assumes "human_addr2 addr n MAX_IP_STR False = Some x" "mem_at addr 0 n = Some m" "sa_in addr n = Some y"
  shows "proc_table_update_ip env i p addr n t \<noteq> None"
  using assms by (auto simp: proc_table_update_ip_def simp del: not_None_eq split: if_splits) (meson prod_cases3)+

lemma proc_table_update_ip_total:
  assumes "addr_len_ok (length addr)"
  shows "\<exists>r p' t'. proc_table_update_ip env i p addr (length addr) t = Some (r, p', t')"
proof -
  obtain x where "human_addr2 addr (length addr) MAX_IP_STR False = Some x"
    using human_addr2_total [of addr "length addr" MAX_IP_STR] assms by (auto simp: addr_len_ok_def)
  moreover have "mem_at addr 0 (length addr) = Some addr" by (simp add: mem_at_def)
  moreover obtain y where "sa_in addr (length addr) = Some y"
    using assms by (auto simp: sa_in_def mem_at_def SA_IN_OFFSET_def SA_IN_SIZE_def addr_len_ok_def)
  ultimately have "proc_table_update_ip env i p addr (length addr) t \<noteq> None" by (rule update_ip_reads)
  then show ?thesis by auto
qed

lemma move_ip_fields:
  assumes "move_ip env i p addr n d t = (r, p', t')"
  shows "p' = p\<lparr>p_remote := \<lparr>sa_raw = mem_cpy (sa_raw (p_remote p)) addr n, sa_len = n\<rparr>\<rparr> \<or>
    p' = p\<lparr>p_remote := \<lparr>sa_raw = mem_cpy (sa_raw (p_remote p)) addr n, sa_len = n\<rparr>, p_dtls_remote := (p_dtls_remote p)\<lparr>sa_len := 0\<rparr>\<rparr>"
proof -
  have "fst (snd (move_ip env i p addr n d t)) = p'" using assms by simp
  then show ?thesis
    by (simp add: move_ip_def Let_def if_distrib [of snd] if_distrib [of fst] cong: if_cong split: if_split_asm)
qed

lemma move_ip_listed:
  assumes "move_ip env i p addr n d t = (r, p', t')" "listed j t'"
  shows "listed j t"
proof -
  have t': "t' = snd (snd (move_ip env i p addr n d t))" using assms(1) by simp
  have "holds j (db_ip t') \<Longrightarrow> holds j (db_ip t)" "holds j (db_dtls_ip t') \<Longrightarrow> holds j (db_dtls_ip t)"
      "db_dtls_id t' = db_dtls_id t" "db_sid t' = db_sid t"
    unfolding t'
    by (auto simp: move_ip_def Let_def if_distrib [of snd] holds_mem cong: if_cong dest: holds_pt_del split: if_split_asm)
  then show ?thesis using assms(2) by auto
qed

lemma update_ip_frame:
  assumes "proc_table_update_ip env i p addr n t = Some (r, p', t')"
  obtains a b where "p' = p\<lparr>p_remote := a, p_dtls_remote := b\<rparr>"
    "a = p_remote p \<or> a = \<lparr>sa_raw = mem_cpy (sa_raw (p_remote p)) addr n, sa_len = n\<rparr>"
    "b = p_dtls_remote p \<or> b = (p_dtls_remote p)\<lparr>sa_len := 0\<rparr>" "\<forall>j. listed j t' \<longrightarrow> listed j t"
  using assms
proof (cases rule: proc_table_update_ip_cases)
  case 1
  show thesis by (rule that [where a = "p_remote p" and b = "p_dtls_remote p"]) (use 1 in simp_all)
next
  case (2 d)
  then have m: "move_ip env i p addr n d t = (r, p', t')" by simp
  show thesis
    by (rule that [where a = "\<lparr>sa_raw = mem_cpy (sa_raw (p_remote p)) addr n, sa_len = n\<rparr>" and b = "p_dtls_remote p'"])
      (use move_ip_fields [OF m] move_ip_listed [OF m] in auto)
qed

lemma proxy_remote_ok:
  assumes inv: "main_inv H s" and p: "ms_heap s i = Some p" and env: "menv_ok H env" and addr: "addr_len_ok (length addr)"
  shows "\<exists>s'. proxy_remote env i addr s = Some s' \<and> main_inv H s' \<and> keeps s s'"
proof -
  have c: "core H {} s" using inv by (simp add: main_inv_def)
  obtain r p1 t where u: "proc_table_update_ip (me_table env) i p addr (length addr) (ms_table s) = Some (r, p1, t)"
    using proc_table_update_ip_total [OF addr] by blast
  obtain a b where p1: "p1 = p\<lparr>p_remote := a, p_dtls_remote := b\<rparr>" and
      ab: "a = p_remote p \<or> a = \<lparr>sa_raw = mem_cpy (sa_raw (p_remote p)) addr (length addr), sa_len = length addr\<rparr>"
      "b = p_dtls_remote p \<or> b = (p_dtls_remote p)\<lparr>sa_len := 0\<rparr>" and li: "\<forall>j. listed j t \<longrightarrow> listed j (ms_table s)"
    by (rule update_ip_frame [OF u]) (rule that)
  have ok: "proc_ok {} s i p" using core_proc [OF c p] .
  then have "saddr_wf (p_remote p)" "saddr_wf (p_dtls_remote p)" by (simp_all add: proc_ok_def)
  then have wf: "saddr_wf a" "saddr_wf b" using ab addr by (auto simp: saddr_wf_def addr_len_ok_def)
  have "\<not> listed i (ms_table s) \<Longrightarrow> \<not> listed i t" using li by blast
  then have "proc_ok {} (s\<lparr>ms_table := t\<rparr>) i p1"
    using ok wf by (simp add: p1 proc_ok_def idle_ok_def scripted_def)
  moreover have "tables_ok H ((ms_heap s)(i \<mapsto> p1)) t"
    using proc_table_update_ip_ok [where heap = "ms_heap s", OF _ p u] c menv_okD(1) [OF env] by (simp add: core_def)
  ultimately have c1: "core H {} (put_proc i p1 (s\<lparr>ms_table := t\<rparr>))"
    using c p li by (intro core_put_table [of _ _ _ _ p]) (simp_all add: p1, blast)
  define s1 where "s1 = put_proc i p1 (s\<lparr>ms_table := t\<rparr>)"
  have k1: "keeps s s1" "main_inv H s1" "ms_heap s1 i = Some p1"
    using p c1 main_inv_keeps [OF inv, of s1] by (simp_all add: s1_def)
  obtain bn ban where bn: "check_if_banned (me_ban env) (me_ban_now env) (ban_view (p_remote p1)) (sa_ip (p_remote p1)) (ms_ban s) = (bn, ban)"
    by fastforce
  let ?s2 = "s1\<lparr>ms_ban := ban\<rparr>" and ?q = "p1\<lparr>p_pid_killed := True\<rparr>"
  have "main_inv H (put_proc i ?q (emit (OutKill (p_pid p1)) ?s2))"
    using k1 by (intro main_put_part [of _ _ _ p1]) (simp_all add: core_part_def keys_def)
  moreover have "proxy_remote env i addr s =
      Some (if bn \<and> p_pid p1 \<noteq> -1 \<and> p_pid p1 \<noteq> 0 then put_proc i ?q (emit (OutKill (p_pid p1)) ?s2) else ?s2)"
    using u bn p by (simp add: proxy_remote_def kill_proc_def Let_def s1_def)
  ultimately show ?thesis using k1 by simp
qed

lemma put_proc_emit: "put_proc i p (emit e s) = emit e (put_proc i p s)"
  by (simp add: put_proc_def emit_def)

lemma main_put:
  assumes "main_inv H s" "ms_heap s i = Some p" "proc_ok {} s i p'" "keys p' = keys p" "p_ipv4 p' = p_ipv4 p" "p_ipv6 p' = p_ipv6 p"
  shows "main_inv H (put_proc i p' s)"
  using assms by (intro main_inv_keeps [OF assms(1)] core_put [of _ _ _ _ p]) (simp_all add: main_inv_def)

lemma main_proc: "main_inv H s \<Longrightarrow> ms_heap s i = Some p \<Longrightarrow> proc_ok {} s i p"
  by (auto simp: main_inv_def intro: core_proc)

lemma proxy_our_ok:
  assumes "main_inv H s" "ms_heap s i = Some p" "length a \<le> SOCKADDR_STORAGE"
  shows "main_inv H (proxy_our i a s) \<and> keeps s (proxy_our i a s)"
proof -
  let ?p = "p\<lparr>p_our := \<lparr>sa_raw = mem_cpy (sa_raw (p_our p)) a (length a), sa_len = length a\<rparr>\<rparr>"
  have ok: "proc_ok {} s i p" using main_proc [OF assms(1,2)] .
  then have "saddr_wf (p_our p)" by (simp add: proc_ok_def)
  then have "saddr_wf (p_our ?p)" using assms(3) by (simp add: saddr_wf_def)
  then have "proc_ok {} s i ?p" using ok by (simp add: proc_ok_def idle_ok_def)
  then have "main_inv H (put_proc i ?p s)" using assms by (intro main_put) (simp_all add: keys_def)
  then show ?thesis using assms(2) by (simp add: proxy_our_def upd_proc_put)
qed

lemma handle_ban_ip_ok:
  assumes inv: "main_inv H s" and p: "ms_heap s i = Some p"
    and fam: "msg \<noteq> None \<Longrightarrow> sa_family (sa_raw (p_remote p)) \<in> {Some AF_INET, Some AF_INET6}"
  shows "\<exists>r s'. handle_ban_ip env i msg s = Some (r, s') \<and> main_inv H s' \<and> keeps s s'"
proof (cases msg)
  case (Some m)
  obtain score dr where m: "m = (score, dr)" by (cases m)
  have "saddr_wf (p_remote p)" using main_proc [OF inv p] by (simp add: proc_ok_def)
  then obtain str where str: "human_addr2 (sa_raw (p_remote p)) (sa_len (p_remote p)) MAX_IP_STR False = Some (Some str)"
    using human_addr2_text fam Some by auto
  obtain r ban where r: "add_str_ip_to_ban_list (me_ban env) (Some str) score (ms_ban s) = (r, ban)" by fastforce
  let ?p = "p\<lparr>p_discon_reason := (case dr of None \<Rightarrow> p_discon_reason p | Some x \<Rightarrow> x)\<rparr>"
  have "main_inv H (put_proc i ?p (s\<lparr>ms_ban := ban\<rparr>))"
    using inv p by (intro main_put_part [of _ _ _ p]) (simp_all add: core_part_def keys_def)
  then show ?thesis using Some m p str r by (simp add: handle_ban_ip_def Let_def)
qed (use inv in \<open>simp add: handle_ban_ip_def\<close>)

lemma handle_tun_mtu_ok:
  assumes inv: "main_inv H s" and p: "ms_heap s i = Some p" "p_vhost p \<noteq> None"
  shows "\<exists>r s'. handle_tun_mtu env i msg s = Some (r, s') \<and> main_inv H s' \<and> keeps s s'"
proof -
  have "main_inv H (put_proc i (p\<lparr>p_mtu := mtu\<rparr>) s)" for mtu
    using inv p by (intro main_put_part [of _ _ _ p]) (simp_all add: core_part_def keys_def)
  then have "\<exists>r s'. set_tun_mtu env i mtu s = Some (r, s') \<and> main_inv H s' \<and> keeps s s'" for mtu
    using inv p by (simp add: set_tun_mtu_def put_proc_emit)
  then show ?thesis
    using p inv by (fastforce simp: handle_tun_mtu_def Let_def split: option.split)
qed

lemma proxy_addrs_ok:
  assumes inv: "main_inv H s" and p: "ms_heap s i = Some p" and env: "menv_ok H env"
    and addr: "\<And>a. sm_remote_addr m = Some a \<Longrightarrow> length a \<le> SOCKADDR_STORAGE \<Longrightarrow> addr_len_ok (length a)"
  shows "\<exists>s'. proxy_addrs env i m s = Some s' \<and> main_inv H s' \<and> keeps s s'"
proof -
  obtain s1 where s1: "(case sm_remote_addr m of
      Some a \<Rightarrow> if length a \<le> SOCKADDR_STORAGE then proxy_remote env i a s else Some s | None \<Rightarrow> Some s) = Some s1"
      "main_inv H s1" "keeps s s1"
  proof (cases "\<exists>a. sm_remote_addr m = Some a \<and> length a \<le> SOCKADDR_STORAGE")
    case True
    then obtain a where a: "sm_remote_addr m = Some a" "length a \<le> SOCKADDR_STORAGE" by blast
    then show thesis using proxy_remote_ok [OF inv p env addr [OF a]] that by auto
  next
    case False
    then show thesis using inv that [of s] by (cases "sm_remote_addr m") auto
  qed
  obtain p1 where p1: "ms_heap s1 i = Some p1" using keeps_live [OF s1(3) p] by blast
  define s2 where "s2 = (case sm_our_addr m of
      Some a \<Rightarrow> if length a \<le> SOCKADDR_STORAGE \<and> length a > 0 then proxy_our i a s1 else s1 | None \<Rightarrow> s1)"
  have "main_inv H s2 \<and> keeps s1 s2"
    using proxy_our_ok [OF s1(2) p1] s1(2) by (auto simp: s2_def split: option.split)
  then show ?thesis using s1(1) keeps_trans [OF s1(3)] by (simp add: proxy_addrs_def flip: s2_def)
qed

lemma host_update_ok:
  assumes "main_inv H s" "ms_heap s i = Some p"
  shows "\<exists>s' p'. (if c then user_hostname_update env i s else Some s) = Some s' \<and> main_inv H s' \<and> keeps s s' \<and> ms_heap s' i = Some p'"
proof -
  have "core H {} s" using assms(1) by (simp add: main_inv_def)
  then obtain s' b where s': "user_hostname_update env i s = Some s'" "core H {} s'" "keeps s s'"
      "ms_heap s' = (ms_heap s)(i \<mapsto> p\<lparr>p_host_updated := b\<rparr>)"
    using user_hostname_update_ok [OF _ assms(2)] by blast
  then show ?thesis using assms main_inv_keeps [OF assms(1) s'(2,3)] by (cases c) simp_all
qed

lemma handle_session_info_ok:
  assumes inv: "main_inv H s" and p: "ms_heap s i = Some p" and env: "menv_ok H env"
    and addr: "\<And>m a. msg = Some m \<Longrightarrow> rc_listen_proxy_proto (GETRCONFIG s) \<Longrightarrow> sm_remote_addr m = Some a \<Longrightarrow>
      length a \<le> SOCKADDR_STORAGE \<Longrightarrow> addr_len_ok (length a)"
  shows "\<exists>r s'. handle_session_info env i msg s = Some (r, s') \<and> main_inv H s' \<and> keeps s s'"
proof (cases msg)
  case (Some m)
  define p1 where "p1 = session_info_fields m p"
  define s1 where "s1 = put_proc i p1 s"
  have s1: "main_inv H s1" "keeps s s1" "ms_heap s1 i = Some p1"
    using inv p main_put_part [of H s i p p1] by (simp_all add: s1_def p1_def session_info_fields_def core_part_def keys_def)
  obtain s2 p2 where s2: "(if p_hostname p1 \<noteq> [] then user_hostname_update env i s1 else Some s1) = Some s2"
      "main_inv H s2" "keeps s1 s2" "ms_heap s2 i = Some p2"
    using host_update_ok [OF s1(1,3)] by blast
  have k2: "keeps s s2" using keeps_trans [OF s1(2) s2(3)] .
  then have cfg: "default_mvhost s2 = default_mvhost s" by (simp add: default_mvhost_def keeps_def)
  obtain s3 where s3: "(if rc_listen_proxy_proto (GETRCONFIG s2) then proxy_addrs env i m s2 else Some s2) = Some s3"
      "main_inv H s3" "keeps s2 s3"
    using proxy_addrs_ok [OF s2(2,4) env, of m] addr [OF Some] s2(2) cfg by (cases "rc_listen_proxy_proto (GETRCONFIG s)") auto
  have "handle_session_info env i msg s = Some (0, s3)"
    unfolding handle_session_info_def Some option.simps p Option.bind_lunit Let_def p1_def [symmetric] s1_def [symmetric] s2(1) s3(1) ..
  then show ?thesis using s3(2) keeps_trans [OF k2 s3(3)] by simp
qed (use inv in \<open>simp add: handle_session_info_def\<close>)

lemma handle_latency_delta_ok:
  assumes "main_inv H s" "ms_heap s i = Some p"
  shows "\<exists>r s'. handle_latency_delta i msg s = Some (r, s') \<and> main_inv H s' \<and> keeps s s'"
proof -
  have "main_inv H (upd_stats f s) \<and> keeps s (upd_stats f s)"
    if "\<And>st. st_active_clients (f st) = st_active_clients st" for f
    using assms that by (simp add: main_inv_def procs_ok_def keeps_def)
  then show ?thesis using assms by (fastforce simp: handle_latency_delta_def split: option.split)
qed


text \<open>The verdict on the cookie, with the instance of the security module that the cookie names.\<close>

lemma cookie_result_ok:
  assumes inv: "main_inv H s" and p: "ms_heap s i = Some p" "p_status p = PS_AUTH_INACTIVE" and env: "menv_ok H env"
  shows "\<exists>r s' p'. (if inst \<ge> length (ms_instances s) then Some (-1, s)
       else handle_auth_cookie_req env inst i cookie hostname (put_proc i (p\<lparr>p_sec_mod_index := inst\<rparr>) s)) = Some (r, s') \<and>
    core H {i} s' \<and> keeps s s' \<and> ms_heap s' i = Some p' \<and> \<not> scripted s' i \<and> \<not> p_applied_iroutes p' \<and>
    (r = 0 \<longrightarrow> p_active_sid p') \<and> r \<le> (0::int)"
proof -
  have c: "core H {} s" using inv by (simp add: main_inv_def)
  have ok: "proc_ok {} s i p" "idle_ok s i p" using core_proc [OF c p(1)] p(2) by (simp_all add: proc_ok_def)
  then have idle: "\<not> scripted s i" "\<not> p_applied_iroutes p" "\<not> p_active_sid p" by (simp_all add: idle_ok_def)
  show ?thesis
  proof (cases "inst \<ge> length (ms_instances s)")
    case True
    then show ?thesis using core_weaken [OF c, of "{i}"] p idle by simp
  next
    case False
    let ?p = "p\<lparr>p_sec_mod_index := inst\<rparr>"
    let ?s = "put_proc i ?p s"
    have "proc_ok {} s i ?p" using ok idle(3) by (simp add: proc_ok_def idle_ok_def)
    then have c1: "core H {} ?s" using c p(1) by (intro core_put) (simp_all add: keys_def)
    obtain r s' p' where r: "handle_auth_cookie_req env inst i cookie hostname ?s = Some (r, s')" "core H {i} s'"
        "keeps ?s s'" "ms_scripts s' = ms_scripts ?s" "ms_heap s' i = Some p'" "r \<le> 0" "p_status p' = PS_AUTH_INACTIVE"
        "\<not> p_applied_iroutes p'" "r = 0 \<longrightarrow> p_active_sid p'"
      using handle_auth_cookie_req_ok [OF c1 _ _ _ env, of i ?p inst cookie hostname] p False by auto
    moreover have "keeps s s'" using keeps_trans [OF keeps_put [OF p(1)] r(3)] .
    ultimately show ?thesis using False idle(1) by (simp add: scripted_def)
  qed
qed

lemma handle_cookie_req_ok:
  assumes inv: "main_inv H s" and p: "ms_heap s i = Some p" and env: "menv_ok H env"
  shows "\<exists>r s'. handle_cookie_req env i msg s = Some (r, s') \<and> main_inv H s' \<and> keeps s s'"
proof (cases "\<exists>cookie host. p_status p = PS_AUTH_INACTIVE \<and> msg = Some (cookie, host) \<and> length cookie = SID_SIZE")
  case False
  then have "handle_cookie_req env i msg s = Some (ERR_BAD_COMMAND, s)"
    using p by (auto simp: handle_cookie_req_def split: option.split)
  then show ?thesis using inv by simp
next
  case True
  then obtain cookie host where m: "p_status p = PS_AUTH_INACTIVE" "msg = Some (cookie, host)" "length cookie = SID_SIZE" by blast
  let ?inst = "sec_mod_instance_index_get cookie"
  obtain r s1 p1 where s1: "(if ?inst \<ge> length (ms_instances s) then Some (-1, s)
       else handle_auth_cookie_req env ?inst i cookie host (put_proc i (p\<lparr>p_sec_mod_index := ?inst\<rparr>) s)) = Some (r, s1)"
      "core H {i} s1" "keeps s s1" "ms_heap s1 i = Some p1" "\<not> scripted s1 i" "\<not> p_applied_iroutes p1"
      "r = 0 \<longrightarrow> p_active_sid p1" "r \<le> 0"
    using cookie_result_ok [OF inv p m(1) env, of ?inst cookie host] by blast
  have "procs_ok s1" using keeps_procs [OF s1(3)] inv by (simp add: main_inv_def)
  then obtain r2 s2 where s2: "handle_cookie_auth_res env i r s1 = Some (r2, s2)" "core H {} s2" "keeps s1 s2"
    using handle_cookie_auth_res_ok [OF s1(2) _ s1(4-8) env] by blast
  have "handle_cookie_req env i msg s = Some (if r2 < 0 then r2 else 0, s2)"
    unfolding handle_cookie_req_def using p m s1(1) s2(1) by (simp add: Let_def)
  moreover have "keeps s s2" using keeps_trans [OF s1(3) s2(3)] .
  ultimately show ?thesis using main_inv_keeps [OF inv s2(2)] by simp
qed

end
