(* ===== verification/Main_Run.thy ===== *)
theory Main_Run
  imports Main_Events
begin

text \<open>
  Runs of the main process.  An event of the event loop carries the environment in which it is
  handled; a run is a sequence of events.  The theory proves that the invariant holds in every
  reachable state and that no event except those that \<open>event_ok\<close> excludes makes main follow a wild
  pointer or read outside a buffer.
\<close>

section \<open>Events\<close>

datatype 's main_event =
    E_Accept "'s main_env" accept_env
  | E_Udp "'s main_env" udp_env
  | E_Cmd "'s main_env" nat worker_msg
  | E_Script "'s main_env" int nat nat bool
  | E_SecMod "'s main_env" nat secmod_msg
  | E_Maintenance "'s main_env"
  | E_Latency
  | E_DisconnectName "'s main_env" string
  | E_DisconnectId "'s main_env" int
  | E_TermUser "'s main_env" string
  | E_TermId "'s main_env" int
  | E_TermSession "'s main_env" string
  | E_Unban bytes
  | E_Terminate "'s main_env"

text \<open>
  A watcher exists only for a live process, a tracked script and a configured instance.  After
  \<^verbatim>\<open>terminate_server\<close> the event loop ends.
\<close>

fun main_step :: "'s main_event \<Rightarrow> 's main_server_st \<Rightarrow> 's main_server_st option" where
  "main_step (E_Accept env ac) s = Some (listen_accept env ac s)"
| "main_step (E_Udp env ud) s = forward_udp_to_owner env ud s"
| "main_step (E_Cmd env i m) s = (if i \<in> set (ms_procs s) then cmd_watcher_cb env i m s else Some s)"
| "main_step (E_Script env pid i st sig) s =
     (if (pid, i) \<in> set (ms_scripts s) then script_child_watcher_cb env pid i st sig s else Some s)"
| "main_step (E_SecMod env k m) s =
     (if k < length (ms_instances s) then Some (sec_mod_watcher_cb env k m s) else Some s)"
| "main_step (E_Maintenance env) s = perform_maintenance env s"
| "main_step E_Latency s = Some (latency_watcher_cb s)"
| "main_step (E_DisconnectName env name) s = method_disconnect_user_name env name s"
| "main_step (E_DisconnectId env pid) s = method_disconnect_user_id env pid s"
| "main_step (E_TermUser env name) s = method_terminate_user env name s"
| "main_step (E_TermId env pid) s = method_terminate_id env pid s"
| "main_step (E_TermSession env safe_id) s = Some (method_terminate_session env safe_id s)"
| "main_step (E_Unban ip) s = Some (method_unban_ip ip s)"
| "main_step (E_Terminate env) s = map_option (\<lambda>s'. s'\<lparr>ms_exited := True\<rparr>) (kill_children env s)"

fun main_run :: "'s main_event list \<Rightarrow> 's main_server_st \<Rightarrow> 's main_server_st option" where
  "main_run [] s = Some s"
| "main_run (ev # evs) s = (if ms_exited s then Some s else do { s1 \<leftarrow> main_step ev s; main_run evs s1 })"

text \<open>The server before its first event: the structure is zeroed and the databases are initialised.\<close>

definition main_stats_zero :: "time_t \<Rightarrow> main_stats_st" where
  "main_stats_zero now =
     (let ls = \<lparr>ls_median_total = 0, ls_rms_total = 0, ls_sample_count = 0\<rparr> in
      \<lparr>st_session_timeouts = 0, st_session_idle_timeouts = 0, st_session_errors = 0, st_sessions_closed = 0,
       st_kbytes_in = 0, st_kbytes_out = 0, st_min_mtu = 0, st_max_mtu = 0, st_active_clients = 0, st_last_reset = now,
       st_avg_session_mins = 0, st_max_session_mins = 0, st_auth_failures = 0, st_total_auth_failures = 0,
       st_total_sessions_closed = 0, st_current_latency = ls, st_delta_latency = ls\<rparr>)"

definition main_init :: "time_t \<Rightarrow> main_vhost list \<Rightarrow> nat \<Rightarrow> ban_server \<Rightarrow> 's \<Rightarrow> 's main_server_st" where
  "main_init now vs n ban sec =
     \<lparr>ms_vconfig = vs, ms_usage = (\<lambda>_. 0), ms_leases = ip_lease_init, ms_ban = main_ban_db_init ban, ms_heap = Map.empty,
      ms_next = 0, ms_procs = [], ms_scripts = [], ms_table = proc_table_init, ms_stats = main_stats_zero now,
      ms_instances = replicate n \<lparr>si_client_entries = 0, si_tlsdb_entries = 0, si_avg_auth_time = 0, si_max_auth_time = 0\<rparr>,
      ms_route_log = [], ms_sec = sec, ms_exited = False, ms_abnormal = False, ms_trace = []\<rparr>"

section \<open>Packets\<close>

lemma update_dtls_ip_fields:
  assumes "proc_table_update_dtls_ip env i p a t = (r, p', t')"
  shows "\<exists>b. p' = p\<lparr>p_dtls_remote := b\<rparr> \<and> (saddr_wf (p_dtls_remote p) \<and> saddr_wf a \<longrightarrow> saddr_wf b)"
proof -
  let ?z = "(p_dtls_remote p)\<lparr>sa_len := 0\<rparr>"
  let ?c = "\<lparr>sa_raw = mem_cpy (sa_raw (p_dtls_remote p)) (sa_raw a) (sa_len a), sa_len = sa_len a\<rparr>"
  have "fst (snd (proc_table_update_dtls_ip env i p a t)) = p'" using assms by simp
  then consider "p' = p" | "p' = p\<lparr>p_dtls_remote := ?z\<rparr>" | "p' = p\<lparr>p_dtls_remote := ?c\<rparr>"
    by (simp add: proc_table_update_dtls_ip_def Let_def if_distrib [of snd] if_distrib [of fst] cong: if_cong split: if_split_asm)
  then show ?thesis
  proof cases
    case 1
    then show ?thesis by (intro exI [of _ "p_dtls_remote p"]) simp
  next
    case 2
    then show ?thesis by (intro exI [of _ ?z]) (simp add: saddr_wf_def)
  next
    case 3
    then show ?thesis by (intro exI [of _ ?c]) (simp add: saddr_wf_def)
  qed
qed

lemma update_dtls_ip_listed:
  assumes "proc_table_update_dtls_ip env i p a t = (r, p', t')" "listed j t'"
  shows "listed j t \<or> j = i"
proof -
  have t': "t' = snd (snd (proc_table_update_dtls_ip env i p a t))" using assms(1) by simp
  have "holds j (db_dtls_ip t') \<Longrightarrow> holds j (db_dtls_ip t) \<or> j = i"
      "db_ip t' = db_ip t" "db_dtls_id t' = db_dtls_id t" "db_sid t' = db_sid t"
    unfolding t'
    by (auto simp: proc_table_update_dtls_ip_def Let_def if_distrib [of snd] cong: if_cong dest: holds_pt_del split: if_split_asm)
  then show ?thesis using assms(2) by auto
qed

lemma dtls_ip_core:
  assumes inv: "main_inv H s" and p: "ms_heap s i = Some p" "p_status p \<noteq> PS_AUTH_INACTIVE"
    and H: "te_hash tenv = H" and wf: "saddr_wf a"
    and u: "proc_table_update_dtls_ip tenv i p a (ms_table s) = (r, p1, t)"
  shows "main_inv H (put_proc i p1 (s\<lparr>ms_table := t\<rparr>)) \<and> core_part p1 = core_part (p1\<lparr>p_udp_fd_receive_time := x\<rparr>)"
proof -
  have c: "core H {} s" using inv by (simp add: main_inv_def)
  have ok: "proc_ok {} s i p" using core_proc [OF c p(1)] .
  then have "saddr_wf (p_dtls_remote p)" by (simp add: proc_ok_def)
  then obtain b where p1: "p1 = p\<lparr>p_dtls_remote := b\<rparr>" "saddr_wf b"
    using update_dtls_ip_fields [OF u] wf by blast
  have "proc_ok {} (s\<lparr>ms_table := t\<rparr>) i p1"
    using ok p(2) p1(2) by (simp add: p1(1) proc_ok_def scripted_def)
  moreover have "tables_ok H ((ms_heap s)(i \<mapsto> p1)) t"
    using proc_table_update_dtls_ip_ok [of tenv "ms_heap s" "ms_table s" i p a r p1 t] c p(1) u H by (simp add: core_def)
  ultimately have "core H {} (put_proc i p1 (s\<lparr>ms_table := t\<rparr>))"
    using c p(1) update_dtls_ip_listed [OF u] by (intro core_put_table [of _ _ _ _ p]) (simp_all add: p1(1))
  then have "main_inv H (put_proc i p1 (s\<lparr>ms_table := t\<rparr>))"
    using p(1) by (intro main_inv_keeps [OF inv]) simp_all
  then show ?thesis by (simp add: core_part_def keys_def)
qed

lemma pass_udp_fd_ok:
  assumes inv: "main_inv H s" and p: "ms_heap s i = Some p" and env: "menv_ok H env" and wf: "saddr_wf (ud_cli ud)"
  shows "\<exists>s'. pass_udp_fd env ud ip_only i s = Some s' \<and> main_inv H s' \<and> keeps s s'"
proof (cases "p_status p = PS_AUTH_COMPLETED")
  case False
  then show ?thesis using inv p by (simp add: pass_udp_fd_def keeps_def)
next
  case st: True
  obtain gc where gc: "p_config p = Some gc" using main_proc [OF inv p] st by (auto simp: proc_ok_def)
  obtain r p1 t where u: "proc_table_update_dtls_ip (me_table env) i p (ud_cli ud) (ms_table s) = (r, p1, t)"
    by (rule prod_cases3)
  define z where "z = (if ip_only then (p, ms_table s) else (p1, t))"
  have 1: "main_inv H (put_proc i (fst z) (s\<lparr>ms_table := snd z\<rparr>))"
  proof (cases ip_only)
    case True
    then show ?thesis using inv p by (simp add: z_def put_proc_def fun_upd_idem)
  next
    case False
    then show ?thesis using dtls_ip_core [OF inv p _ menv_okD(1) [OF env] wf u] st by (simp add: z_def)
  qed
  have 2: "main_inv H (put_proc i ((fst z)\<lparr>p_udp_fd_receive_time := x\<rparr>) (put_proc i (fst z) (s\<lparr>ms_table := snd z\<rparr>)))" for x
    by (rule main_put_part [OF 1]) (simp_all add: core_part_def keys_def)
  have k: "keeps s s" by (simp add: keeps_def)
  show ?thesis
    using inv 1 2 k p st gc u
    by (cases ip_only) (simp_all add: pass_udp_fd_def Let_def z_def put_proc_emit)
qed

lemma get_session_id_total:
  assumes "tot < length buf"
  shows "\<exists>r. get_session_id psk buf tot = Some r"
proof -
  have "\<exists>x. skip_then (SKIP8 buf tot 59) (\<lambda>p1. skip_then (SKIP8 buf tot p1) (\<lambda>p2. skip_then (SKIP16 buf tot p2) (\<lambda>p3.
          skip_then (SKIP8 buf tot p3) (\<lambda>p4. if p4 + 2 > tot then Some Fallback else ext_loop buf tot (p4 + 2))))) = Some x"
    using assms ext_loop_total [OF assms]
    by (intro skip_then_total SKIP8_total SKIP16_total) auto
  then obtain x where x: "(if \<not> psk then Some Fallback else skip_then (SKIP8 buf tot 59) (\<lambda>p1. skip_then (SKIP8 buf tot p1)
      (\<lambda>p2. skip_then (SKIP16 buf tot p2) (\<lambda>p3. skip_then (SKIP8 buf tot p3)
        (\<lambda>p4. if p4 + 2 > tot then Some Fallback else ext_loop buf tot (p4 + 2)))))) = Some x"
    by (cases psk) auto
  show ?thesis
  proof (cases "tot < 93")
    case False
    then have "59 < length buf" using assms by simp
    from byte_at_total [OF this] show ?thesis unfolding get_session_id_def x by (cases x) auto
  qed (simp add: get_session_id_def)
qed

lemma get_session_id_bound:
  assumes "get_session_id psk buf tot = Some (Some (q, n))" "n \<le> GNUTLS_MAX_SESSION_ID"
  shows "q + n \<le> tot"
  using assms
  by (auto simp: get_session_id_def Option.bind_eq_Some_conv skip_then_Some dest: ext_loop_bound split: if_splits scan.splits)

lemma search_single_ip_safe:
  assumes "tables_ok H heap t"
  shows "\<exists>r. proc_search_single_ip H heap t a = Some r \<and> (\<forall>j. r = Some j \<longrightarrow> heap j \<noteq> None)"
proof -
  have inv: "tbl_inv (\<lambda>p. Some (rehash_ip H p)) heap (db_ip t)" "tbl_inv (key_dtls_ip H) heap (db_dtls_ip t)"
    using assms by (simp_all add: tables_ok_def)
  show ?thesis
    using pt_get_safe [OF inv(1), of "H (sa_ip a)" "local_ip_cmp a"] pt_get_safe [OF inv(2), of "H (sa_ip a)" "local_ip_cmp a"]
    by (auto simp: proc_search_single_ip_eq split: option.split)
qed

lemma search_dtls_id_safe:
  assumes "tables_ok H heap t"
  shows "\<exists>r. proc_search_dtls_id H heap t a = Some r \<and> (\<forall>j. r = Some j \<longrightarrow> heap j \<noteq> None)"
proof -
  have "tbl_inv (\<lambda>p. Some (rehash_dtls_id H p)) heap (db_dtls_id t)" using assms by (simp add: tables_ok_def)
  from pt_get_safe [OF this, of "H a" "dtls_id_cmp a"] show ?thesis by (auto simp: proc_search_dtls_id_def)
qed

lemma forward_udp_ok:
  assumes inv: "main_inv H s" and env: "menv_ok H env" and wf: "saddr_wf (ud_cli ud)" "nat (ud_ret ud) < length (ud_buf ud)"
  shows "\<exists>s'. forward_udp_to_owner env ud s = Some s' \<and> main_inv H s' \<and> keeps s s'"
proof -
  let ?n = "nat (ud_ret ud)" and ?H = "te_hash (me_table env)"
  have t: "tables_ok ?H (ms_heap s) (ms_table s)"
    using inv menv_okD(1) [OF env] by (simp add: main_inv_def core_def)
  have same: "\<exists>s'. Some s = Some s' \<and> main_inv H s' \<and> keeps s s'" using inv by (simp add: keeps_def)
  have pass: "\<exists>s'. (case ow of None \<Rightarrow> Some s | Some i \<Rightarrow> pass_udp_fd env ud b i s) = Some s' \<and> main_inv H s' \<and> keeps s s'"
    if ow: "\<forall>i. ow = Some i \<longrightarrow> ms_heap s i \<noteq> None" for b ow
  proof (cases ow)
    case None
    then show ?thesis using same by simp
  next
    case (Some i)
    then obtain p where "ms_heap s i = Some p" using ow by auto
    then show ?thesis using pass_udp_fd_ok [OF inv _ env wf(1)] Some by simp
  qed
  obtain o1 where o1: "proc_search_single_ip ?H (ms_heap s) (ms_table s) (ud_cli ud) = Some o1"
    "\<forall>i. o1 = Some i \<longrightarrow> ms_heap s i \<noteq> None"
    using search_single_ip_safe [OF t] by blast
  obtain r where r: "get_session_id (rc_dtls_psk (GETRCONFIG s)) (ud_buf ud) ?n = Some r"
    using get_session_id_total [OF wf(2)] by blast
  have found: "\<exists>s'. (case r of None \<Rightarrow> Some s | Some (pos, len) \<Rightarrow>
      if len = 0 \<or> len > GNUTLS_MAX_SESSION_ID then Some s
      else do {
        ident \<leftarrow> mem_at (ud_buf ud) pos len;
        owner \<leftarrow> proc_search_dtls_id ?H (ms_heap s) (ms_table s) ident;
        (case owner of None \<Rightarrow> Some s | Some i \<Rightarrow> pass_udp_fd env ud False i s)
      }) = Some s' \<and> main_inv H s' \<and> keeps s s'"
  proof (cases "\<exists>pos len. r = Some (pos, len) \<and> len \<noteq> 0 \<and> len \<le> GNUTLS_MAX_SESSION_ID")
    case True
    then obtain pos len where f: "r = Some (pos, len)" "len \<noteq> 0" "len \<le> GNUTLS_MAX_SESSION_ID" by blast
    then have "pos + len \<le> ?n" using get_session_id_bound r by blast
    then obtain ident where "mem_at (ud_buf ud) pos len = Some ident" using wf(2) by (simp add: mem_at_def)
    moreover obtain o2 where o2: "proc_search_dtls_id ?H (ms_heap s) (ms_table s) ident = Some o2"
      "\<forall>i. o2 = Some i \<longrightarrow> ms_heap s i \<noteq> None"
      using search_dtls_id_safe [OF t] by blast
    ultimately show ?thesis using pass [OF o2(2)] f by simp
  next
    case False
    then show ?thesis using same by (auto split: option.split)
  qed
  then show ?thesis
    using same pass [OF o1(2)] by (simp add: forward_udp_to_owner_def Let_def o1(1) r)
qed

section \<open>Events that may end a process\<close>

text \<open>The state after an event: main has exited, or the invariant holds and no process is new.\<close>

definition settles :: "(bytes \<Rightarrow> nat) \<Rightarrow> 's main_server_st \<Rightarrow> 's main_server_st \<Rightarrow> bool" where
  "settles H s s' \<longleftrightarrow> ms_vconfig s' = ms_vconfig s \<and> length (ms_instances s') = length (ms_instances s) \<and>
     length (ms_procs s') \<le> length (ms_procs s) \<and> (ms_exited s' \<or> main_inv H s')"

lemma settles_refl: "main_inv H s \<Longrightarrow> settles H s s"
  by (simp add: settles_def)

lemma settles_trans: "settles H s s' \<Longrightarrow> settles H s' s'' \<Longrightarrow> settles H s s''"
  by (simp add: settles_def)

lemma settles_keeps: "main_inv H s' \<Longrightarrow> keeps s s' \<Longrightarrow> settles H s s'"
  by (simp add: settles_def keeps_def)

lemma settles_sec: "settles H s s' \<Longrightarrow> settles H s (s'\<lparr>ms_sec := x\<rparr>)"
  by (simp add: settles_def)

lemma remove_proc_settles:
  assumes "main_inv H s" "ms_heap s i = Some p" "menv_ok H env" "\<not> ms_exited s"
  shows "\<exists>s'. remove_proc env i kill quit s = Some s' \<and> settles H s s' \<and>
    (ms_exited s' \<or> dom (ms_heap s') = dom (ms_heap s) - {i})"
proof -
  obtain s' where s': "remove_proc env i kill quit s = Some s'" "leaves i s s'"
    "ms_exited s' \<or> main_inv H s' \<and> \<not> ms_exited s' \<and> dom (ms_heap s') = dom (ms_heap s) - {i}"
    using remove_proc_ok [OF assms] by blast
  then have "settles H s s'" by (auto simp: settles_def leaves_def length_remove1)
  then show ?thesis using s' by blast
qed

lemma keeps_some: "keeps s s' \<Longrightarrow> ms_heap s i = Some p \<Longrightarrow> \<exists>p'. ms_heap s' i = Some p'"
  unfolding keeps_def by (metis domD domI)

text \<open>A handler that keeps the processes, followed by the removal of the process when it fails.\<close>

lemma handled_settles:
  assumes run: "\<exists>r s1. h = Some (r, s1) \<and> main_inv H s1 \<and> keeps s s1"
    and "ms_heap s i = Some p" "menv_ok H env" "\<not> ms_exited s"
  shows "\<exists>s'. do { (r, s1) \<leftarrow> h; if r < (0::int) then remove_proc env i (kill r) False s1 else Some s1 } = Some s' \<and> settles H s s'"
proof -
  obtain r s1 where h: "h = Some (r, s1)" "main_inv H s1" "keeps s s1" using run by blast
  obtain p1 where p1: "ms_heap s1 i = Some p1" using keeps_some [OF h(3) assms(2)] by blast
  have x: "\<not> ms_exited s1" using h(3) assms(4) by (simp add: keeps_def)
  have s1: "settles H s s1" using settles_keeps [OF h(2,3)] .
  obtain s' where "remove_proc env i (kill r) False s1 = Some s'" "settles H s1 s'"
    using remove_proc_settles [OF h(2) p1 assms(3) x] by blast
  then show ?thesis using h(1) s1 settles_trans [OF s1] by (cases "r < 0") simp_all
qed

text \<open>
  The three messages of a worker that make main follow a wild pointer or read an uninitialised
  buffer: a \<^verbatim>\<open>CMD_TUN_MTU\<close> before the process has a virtual host, a \<^verbatim>\<open>CMD_BAN_IP\<close> when the remote
  address of the process is of a family that \<^verbatim>\<open>human_addr2\<close> does not print, and, with the PROXY
  protocol, an address that is too short.
\<close>

definition worker_msg_ok :: "'s main_server_st \<Rightarrow> nat \<Rightarrow> worker_msg \<Rightarrow> bool" where
  "worker_msg_ok s i m \<longleftrightarrow>
     (case wm_cmd m of
        CMD_BAN_IP (Some x) \<Rightarrow>
          (\<exists>p. ms_heap s i = Some p \<and> sa_family (sa_raw (p_remote p)) \<in> {Some AF_INET, Some AF_INET6})
      | CMD_TUN_MTU x \<Rightarrow> (\<exists>p. ms_heap s i = Some p \<and> p_vhost p \<noteq> None)
      | CMD_SESSION_INFO (Some x) \<Rightarrow>
          rc_listen_proxy_proto (GETRCONFIG s) \<longrightarrow>
          (\<forall>a. sm_remote_addr x = Some a \<longrightarrow> length a \<le> SOCKADDR_STORAGE \<longrightarrow> addr_len_ok (length a))
      | _ \<Rightarrow> True)"

lemma if_result:
  "\<exists>r s'. x = Some (r, s') \<and> Q s' \<Longrightarrow> \<exists>r s'. y = Some (r, s') \<and> Q s' \<Longrightarrow>
     \<exists>r s'. (if b then x else y) = Some (r, s') \<and> Q s'"
  by simp

lemma handle_worker_commands_ok:
  assumes inv: "main_inv H s" and p: "ms_heap s i = Some p" and env: "menv_ok H env" and m: "worker_msg_ok s i m"
  shows "\<exists>r s'. handle_worker_commands env i m s = Some (r, s') \<and> main_inv H s' \<and> keeps s s'"
proof -
  have same: "\<exists>r s'. Some (x, s) = Some (r, s') \<and> main_inv H s' \<and> keeps s s'" for x :: int
    using inv by (simp add: keeps_def)
  have "\<exists>r s'. (case wm_cmd m of
              CMD_BAN_IP x \<Rightarrow> handle_ban_ip env i x s
            | CMD_TUN_MTU x \<Rightarrow> handle_tun_mtu env i x s
            | CMD_SESSION_INFO x \<Rightarrow> handle_session_info env i x s
            | AUTH_COOKIE_REQ x \<Rightarrow> handle_cookie_req env i x s
            | CMD_LATENCY_STATS_DELTA x \<Rightarrow> handle_latency_delta i x s
            | W_UNKNOWN \<Rightarrow> Some (ERR_BAD_COMMAND, s)) = Some (r, s') \<and> main_inv H s' \<and> keeps s s'"
  proof (cases "wm_cmd m")
    case (CMD_BAN_IP x)
    show ?thesis unfolding CMD_BAN_IP worker_cmd.case
      by (rule handle_ban_ip_ok [OF inv p]) (use m p in \<open>auto simp: worker_msg_ok_def CMD_BAN_IP\<close>)
  next
    case (CMD_TUN_MTU x)
    then have v: "p_vhost p \<noteq> None" using m p by (simp add: worker_msg_ok_def)
    show ?thesis unfolding CMD_TUN_MTU worker_cmd.case by (rule handle_tun_mtu_ok [OF inv p v])
  next
    case (CMD_SESSION_INFO x)
    show ?thesis unfolding CMD_SESSION_INFO worker_cmd.case
      by (rule handle_session_info_ok [OF inv p env]) (use m in \<open>simp add: worker_msg_ok_def CMD_SESSION_INFO\<close>)
  next
    case (AUTH_COOKIE_REQ x)
    show ?thesis unfolding AUTH_COOKIE_REQ worker_cmd.case by (rule handle_cookie_req_ok [OF inv p env])
  next
    case (CMD_LATENCY_STATS_DELTA x)
    show ?thesis unfolding CMD_LATENCY_STATS_DELTA worker_cmd.case by (rule handle_latency_delta_ok [OF inv p])
  next
    case W_UNKNOWN
    show ?thesis unfolding W_UNKNOWN worker_cmd.case by (rule same)
  qed
  then show ?thesis
    unfolding handle_worker_commands_def by (intro if_result same)
qed

lemma cmd_watcher_ok:
  assumes "main_inv H s" "ms_heap s i = Some p" "menv_ok H env" "worker_msg_ok s i m" "\<not> ms_exited s"
  shows "\<exists>s'. cmd_watcher_cb env i m s = Some s' \<and> settles H s s'"
  unfolding cmd_watcher_cb_def
  by (rule handled_settles [OF handle_worker_commands_ok [OF assms(1-4)] assms(2,3,5)])

lemma owners_mem: "(pid, i) \<in> set l \<Longrightarrow> i \<in> owners l"
  by (force simp: owners_def simp del: owners_simps)

lemma script_list_remove1:
  assumes "distinct (map snd l)" "(pid, i) \<in> set l"
  shows "owners (remove1 (pid, i) l) = owners l - {i} \<and> distinct (map snd (remove1 (pid, i) l))"
  using assms
proof (induction l)
  case (Cons e l)
  show ?case
  proof (cases "e = (pid, i)")
    case True
    then show ?thesis using Cons.prems by auto
  next
    case False
    then have mem: "(pid, i) \<in> set l" using Cons.prems(2) by auto
    have "snd e \<noteq> i" using Cons.prems(1) owners_mem [OF mem] by auto
    then show ?thesis using Cons mem False by auto
  qed
qed simp

lemma script_watcher_ok:
  assumes inv: "main_inv H s" and mem: "(pid, i) \<in> set (ms_scripts s)" and env: "menv_ok H env" and x: "\<not> ms_exited s"
  shows "\<exists>s'. script_child_watcher_cb env pid i st sig s = Some s' \<and> settles H s s'"
proof -
  let ?s = "s\<lparr>ms_scripts := remove1 (pid, i) (ms_scripts s)\<rparr>"
  have c: "core H {} s" using inv by (simp add: main_inv_def)
  have sc: "scripted s i" using owners_mem [OF mem] by (simp add: scripted_def)
  then obtain p where p: "ms_heap s i = Some p" using c by (auto simp: core_def)
  have ok: "p_active_sid p \<and> dev_ok (p_tun_name p)" using core_proc [OF c p] sc by (simp add: proc_ok_def)
  have "distinct (map snd (ms_scripts s))" using c by (simp add: core_def)
  then have "core H {} ?s" using core_del_script [OF c] script_list_remove1 [OF _ mem] by blast
  then have "\<exists>r s1. handle_script_exit env i code ?s = Some (r, s1) \<and> core H {} s1 \<and> keeps ?s s1" for code
    using handle_script_exit_ok [of H "{}" ?s i p code env] p ok env by auto
  moreover have "keeps ?s s1 \<Longrightarrow> keeps s s1" for s1 by (simp add: keeps_def)
  ultimately have "\<exists>r s1. handle_script_exit env i code ?s = Some (r, s1) \<and> main_inv H s1 \<and> keeps s s1" for code
    using main_inv_keeps [OF inv] by metis
  from handled_settles [OF this p env x, where kill = "\<lambda>_. True"] show ?thesis
    by (simp add: script_child_watcher_cb_def Let_def)
qed

lemma sweep_settles:
  assumes act: "\<And>i s p. main_inv H s \<Longrightarrow> ms_heap s i = Some p \<Longrightarrow> \<not> ms_exited s \<Longrightarrow>
      \<exists>s'. act i s = Some s' \<and> settles H s s' \<and> (ms_exited s' \<or> dom (ms_heap s) - {i} \<subseteq> dom (ms_heap s'))"
    and "distinct l" "ms_exited s \<or> main_inv H s \<and> set l \<subseteq> dom (ms_heap s)"
  shows "\<exists>s'. sweep sel act l s = Some s' \<and> settles H s s'"
  using assms(2,3)
proof (induction l arbitrary: s)
  case Nil
  then show ?case by (auto simp: settles_def)
next
  case (Cons i l)
  show ?case
  proof (cases "ms_exited s")
    case False
    then have inv: "main_inv H s" and l: "set l \<subseteq> dom (ms_heap s) - {i}" using Cons.prems by auto
    obtain p where p: "ms_heap s i = Some p" using Cons.prems False by auto
    obtain s1 where s1: "(if sel p then act i s else Some s) = Some s1" "settles H s s1"
      "ms_exited s1 \<or> dom (ms_heap s) - {i} \<subseteq> dom (ms_heap s1)"
      using act [OF inv p False] settles_refl [OF inv] by (cases "sel p") auto
    have "ms_exited s1 \<or> main_inv H s1 \<and> set l \<subseteq> dom (ms_heap s1)"
      using s1(2,3) l by (auto simp: settles_def)
    then obtain s' where "sweep sel act l s1 = Some s'" "settles H s1 s'" using Cons.IH [of s1] Cons.prems(1) by auto
    then show ?thesis using settles_trans [OF s1(2)] s1(1) p False by simp
  qed (simp add: settles_def)
qed

lemma sweep_procs:
  assumes "main_inv H s"
    and "\<And>i s p. main_inv H s \<Longrightarrow> ms_heap s i = Some p \<Longrightarrow> \<not> ms_exited s \<Longrightarrow>
      \<exists>s'. act i s = Some s' \<and> settles H s s' \<and> (ms_exited s' \<or> dom (ms_heap s) - {i} \<subseteq> dom (ms_heap s'))"
  shows "\<exists>s'. sweep sel act (ms_procs s) s = Some s' \<and> settles H s s'"
proof (rule sweep_settles)
  show "distinct (ms_procs s)" "ms_exited s \<or> main_inv H s \<and> set (ms_procs s) \<subseteq> dom (ms_heap s)"
    using assms(1) by (simp_all add: main_inv_def procs_ok_def)
qed (rule assms(2))

lemma sweep_remove:
  assumes "main_inv H s" "menv_ok H env"
  shows "\<exists>s'. sweep sel (\<lambda>i. remove_proc env i kill quit) (ms_procs s) s = Some s' \<and> settles H s s'"
proof (rule sweep_procs [OF assms(1)])
  fix i :: nat and s :: "'a main_server_st" and p
  assume "main_inv H s" "ms_heap s i = Some p" "\<not> ms_exited s"
  from remove_proc_settles [OF this(1,2) assms(2) this(3), where kill = kill and quit = quit]
  show "\<exists>s'. remove_proc env i kill quit s = Some s' \<and> settles H s s' \<and>
      (ms_exited s' \<or> dom (ms_heap s) - {i} \<subseteq> dom (ms_heap s'))" by (metis subset_refl)
qed

lemma disconnect_settles:
  assumes "main_inv H s" "ms_heap s i = Some p" "\<not> ms_exited s" "menv_ok H env"
  shows "\<exists>s'. disconnect_proc env i s = Some s' \<and> settles H s s' \<and> (ms_exited s' \<or> dom (ms_heap s) - {i} \<subseteq> dom (ms_heap s'))"
proof -
  let ?p = "p\<lparr>p_invalidated := True\<rparr>"
  let ?s = "put_proc i ?p s"
  have inv: "main_inv H ?s" by (rule main_put_part [OF assms(1,2)]) (simp_all add: core_part_def keys_def)
  have dom: "dom (ms_heap ?s) = dom (ms_heap s)" using assms(2) by auto
  have s: "settles H s ?s" by (rule settles_keeps [OF inv]) (unfold keeps_def dom, simp)
  then have e: "settles H s (emit o1 ?s)" for o1 by (simp add: settles_def)
  have "\<not> ms_exited ?s" "ms_heap ?s i = Some ?p" using assms(3) by simp_all
  from remove_proc_settles [OF inv this(2) assms(4) this(1), of True False]
  obtain s' where s': "remove_proc env i True False ?s = Some s'" "settles H ?s s'"
    "ms_exited s' \<or> dom (ms_heap s') = dom (ms_heap ?s) - {i}" by blast
  show ?thesis
  proof (cases "p_pid p \<noteq> -1 \<and> p_pid p \<noteq> 0")
    case True
    then have "disconnect_proc env i s = Some (emit (OutKill (p_pid p)) ?s)"
      using assms(2) by (simp add: disconnect_proc_def)
    then show ?thesis using e dom by auto
  next
    case False
    then have "disconnect_proc env i s = Some s'" using assms(2) s'(1) by (auto simp: disconnect_proc_def)
    then show ?thesis using settles_trans [OF s s'(2)] s'(3) dom by auto
  qed
qed

lemma sweep_disconnect:
  assumes "main_inv H s" "menv_ok H env"
  shows "\<exists>s'. sweep sel (disconnect_proc env) (ms_procs s) s = Some s' \<and> settles H s s'"
  by (rule sweep_procs [OF assms(1)]) (rule disconnect_settles [OF _ _ _ assms(2)])

text \<open>The two loops that end at the first match are sweeps with an early end.\<close>

lemma disconnect_pid_settles:
  assumes env: "menv_ok H env" and "distinct l" "ms_exited s \<or> main_inv H s \<and> set l \<subseteq> dom (ms_heap s)"
  shows "\<exists>s'. disconnect_pid env pid l s = Some s' \<and> settles H s s'"
  using assms(2,3)
proof (induction l arbitrary: s)
  case Nil
  then show ?case by (auto simp: settles_def)
next
  case (Cons i l)
  show ?case
  proof (cases "ms_exited s")
    case False
    then have inv: "main_inv H s" and l: "set l \<subseteq> dom (ms_heap s) - {i}" using Cons.prems by auto
    obtain p where p: "ms_heap s i = Some p" using Cons.prems False by auto
    obtain s1 where s1: "disconnect_proc env i s = Some s1" "settles H s s1"
      "ms_exited s1 \<or> dom (ms_heap s) - {i} \<subseteq> dom (ms_heap s1)"
      using disconnect_settles [OF inv p False env] by blast
    have "ms_exited s1 \<or> main_inv H s1 \<and> set l \<subseteq> dom (ms_heap s1)"
      using s1(2,3) l by (auto simp: settles_def)
    then obtain s' where "disconnect_pid env pid l s1 = Some s'" "settles H s1 s'" using Cons.IH [of s1] Cons.prems(1) by auto
    moreover obtain s0 where "disconnect_pid env pid l s = Some s0" "settles H s s0" using Cons.IH [of s] Cons.prems inv l by auto
    ultimately show ?thesis using settles_trans [OF s1(2)] s1(1,2) p False by (cases "pid = -1") simp_all
  qed (simp add: settles_def)
qed

lemma terminate_pid_settles:
  assumes env: "menv_ok H env" and inv: "main_inv H s" "\<not> ms_exited s" and "set l \<subseteq> dom (ms_heap s)"
  shows "\<exists>s'. terminate_pid env pid l s = Some s' \<and> settles H s s'"
  using assms(4)
proof (induction l)
  case Nil
  then show ?case using settles_refl [OF inv(1)] by simp
next
  case (Cons i l)
  then obtain p where p: "ms_heap s i = Some p" by auto
  obtain s1 where "disconnect_proc env i s = Some s1" "settles H s s1"
    using disconnect_settles [OF inv(1) p inv(2) env] by blast
  then show ?case using Cons p settles_sec by (auto simp: terminate_session_in_secmod_def)
qed


lemma main_inv_stats:
  assumes "main_inv H s" "st_active_clients (f (ms_stats s)) = st_active_clients (ms_stats s)"
  shows "main_inv H (upd_stats f s)"
  using assms by (simp add: main_inv_def procs_ok_def upd_stats_def)

lemma main_inv_instances:
  assumes "main_inv H s" "length is = length (ms_instances s)"
  shows "main_inv H (s\<lparr>ms_instances := is\<rparr>)"
proof -
  have "core H {} (s\<lparr>ms_instances := is\<rparr>)"
    using assms core_cong [of "s\<lparr>ms_instances := is\<rparr>" s] by (simp add: main_inv_def)
  then show ?thesis using assms(1) by (simp add: main_inv_def procs_ok_def)
qed

lemma handle_sec_mod_commands_ok:
  assumes "main_inv H s"
  shows "settles H s (snd (handle_sec_mod_commands env k m s))"
proof -
  have same: "settles H s s" using settles_refl [OF assms] .
  have ban: "settles H s (s\<lparr>ms_ban := b\<rparr>)" "settles H s (emit e (s\<lparr>ms_ban := b\<rparr>))" for b e
    using assms by (simp_all add: settles_def)
  have stats: "settles H s (upd_stats (update_auth_failures f) (s\<lparr>ms_instances := (ms_instances s)[k := v]\<rparr>))" for f v
    using main_inv_stats [OF main_inv_instances [OF assms, of "(ms_instances s)[k := v]"], of "update_auth_failures f"]
    by (simp add: settles_def upd_stats_def update_auth_failures_def)
  show ?thesis
  proof (cases "km_cmd m")
    case (CMD_SECM_BAN_IP x)
    then show ?thesis using same ban
      by (simp add: handle_sec_mod_commands_def Let_def split: option.split prod.split)
  next
    case (CMD_SECM_STATS x)
    then show ?thesis using same stats
      by (simp add: handle_sec_mod_commands_def split: option.split prod.split)
  next
    case S_UNKNOWN
    then show ?thesis using same by (simp add: handle_sec_mod_commands_def)
  qed
qed

lemma sec_mod_watcher_ok: "main_inv H s \<Longrightarrow> settles H s (sec_mod_watcher_cb env k m s)"
  using handle_sec_mod_commands_ok [of H s env k m]
  by (cases "handle_sec_mod_commands env k m s") (simp add: sec_mod_watcher_cb_def settles_def)

section \<open>Runs\<close>

fun event_ok :: "(bytes \<Rightarrow> nat) \<Rightarrow> 's main_server_st \<Rightarrow> 's main_event \<Rightarrow> bool" where
  "event_ok H s (E_Accept env ac) \<longleftrightarrow>
     menv_ok H env \<and> saddr_wf (ac_remote ac) \<and> (case ac_our ac of None \<Rightarrow> True | Some a \<Rightarrow> saddr_wf a)"
| "event_ok H s (E_Udp env ud) \<longleftrightarrow> menv_ok H env \<and> saddr_wf (ud_cli ud) \<and> nat (ud_ret ud) < length (ud_buf ud)"
| "event_ok H s (E_Cmd env i m) \<longleftrightarrow> menv_ok H env \<and> worker_msg_ok s i m"
| "event_ok H s (E_Script env pid i st sig) \<longleftrightarrow> menv_ok H env"
| "event_ok H s (E_SecMod env k m) \<longleftrightarrow> menv_ok H env"
| "event_ok H s (E_Maintenance env) \<longleftrightarrow> menv_ok H env"
| "event_ok H s E_Latency \<longleftrightarrow> True"
| "event_ok H s (E_DisconnectName env name) \<longleftrightarrow> menv_ok H env"
| "event_ok H s (E_DisconnectId env pid) \<longleftrightarrow> menv_ok H env"
| "event_ok H s (E_TermUser env name) \<longleftrightarrow> menv_ok H env"
| "event_ok H s (E_TermId env pid) \<longleftrightarrow> menv_ok H env"
| "event_ok H s (E_TermSession env safe_id) \<longleftrightarrow> menv_ok H env"
| "event_ok H s (E_Unban ip) \<longleftrightarrow> True"
| "event_ok H s (E_Terminate env) \<longleftrightarrow> menv_ok H env"

text \<open>After an event: the processes are not more than before, or one more when the limit allows it.\<close>

definition steps_to :: "(bytes \<Rightarrow> nat) \<Rightarrow> 's main_server_st \<Rightarrow> 's main_server_st \<Rightarrow> bool" where
  "steps_to H s s' \<longleftrightarrow> settles H s s' \<or> main_inv H s' \<and> accepts s s'"

lemma inv_procs: "main_inv H s \<Longrightarrow> i \<in> set (ms_procs s) \<Longrightarrow> \<exists>p. ms_heap s i = Some p"
  unfolding main_inv_def procs_ok_def by (metis domD)

lemma settles_steps: "\<exists>s'. r = Some s' \<and> settles H s s' \<Longrightarrow> \<exists>s'. r = Some s' \<and> steps_to H s s'"
  unfolding steps_to_def by blast

lemma settles_self: "main_inv H s \<Longrightarrow> \<exists>s'. Some s = Some s' \<and> settles H s s'"
  by (simp add: settles_refl)

lemma kept_settles: "\<exists>s'. r = Some s' \<and> main_inv H s' \<and> keeps s s' \<Longrightarrow> \<exists>s'. r = Some s' \<and> settles H s s'"
  using settles_keeps by blast

lemma settles_map:
  assumes "\<exists>s'. r = Some s' \<and> settles H s s'" "\<And>s'. settles H s s' \<Longrightarrow> settles H s (f s')"
  shows "\<exists>s'. map_option f r = Some s' \<and> settles H s s'"
  using assms by auto

lemma main_step_ok:
  assumes inv: "main_inv H s" and x: "\<not> ms_exited s" and ok: "event_ok H s ev"
  shows "\<exists>s'. main_step ev s = Some s' \<and> steps_to H s s'"
proof (cases ev)
  case (E_Accept env ac)
  have "main_inv H (listen_accept env ac s) \<and> accepts s (listen_accept env ac s)"
    by (rule listen_accept_ok [OF inv]) (use ok E_Accept in auto)
  then show ?thesis using E_Accept by (simp add: steps_to_def)
next
  case (E_Udp env ud)
  have "\<exists>s'. forward_udp_to_owner env ud s = Some s' \<and> main_inv H s' \<and> keeps s s'"
    by (rule forward_udp_ok [OF inv]) (use ok E_Udp in auto)
  then show ?thesis unfolding E_Udp main_step.simps by (intro settles_steps kept_settles)
next
  case (E_Cmd env i m)
  have "\<exists>s'. cmd_watcher_cb env i m s = Some s' \<and> settles H s s'" if i: "i \<in> set (ms_procs s)"
    using cmd_watcher_ok [OF inv _ _ _ x] inv_procs [OF inv i] ok E_Cmd by auto
  then show ?thesis using settles_self [OF inv] unfolding E_Cmd main_step.simps by (intro settles_steps) simp
next
  case (E_Script env pid i st sig)
  have "\<exists>s'. script_child_watcher_cb env pid i st sig s = Some s' \<and> settles H s s'" if "(pid, i) \<in> set (ms_scripts s)"
    using script_watcher_ok [OF inv that _ x] ok E_Script by auto
  then show ?thesis using settles_self [OF inv] unfolding E_Script main_step.simps by (intro settles_steps) simp
next
  case (E_SecMod env k m)
  then show ?thesis using sec_mod_watcher_ok [OF inv] settles_refl [OF inv]
    unfolding E_SecMod main_step.simps by (intro settles_steps) simp
next
  case (E_Maintenance env)
  let ?s = "s\<lparr>ms_ban := cleanup_banned_entries (me_ban_now env) (ms_ban s)\<rparr>"
  have "\<exists>s'. kill_children_auth_timeout env ?s = Some s' \<and> settles H ?s s'"
    unfolding kill_children_auth_timeout_def Let_def by (rule sweep_remove) (use inv ok E_Maintenance in simp_all)
  then show ?thesis unfolding E_Maintenance main_step.simps perform_maintenance_def
    by (intro settles_steps) (simp add: settles_def)
next
  case E_Latency
  have "main_inv H (latency_watcher_cb s)" unfolding latency_watcher_cb_def by (rule main_inv_stats [OF inv]) simp
  then show ?thesis using E_Latency by (simp add: steps_to_def settles_def latency_watcher_cb_def upd_stats_def)
next
  case (E_DisconnectName env name)
  show ?thesis unfolding E_DisconnectName main_step.simps method_disconnect_user_name_def
    by (rule settles_steps, rule sweep_disconnect [OF inv]) (use ok E_DisconnectName in simp)
next
  case (E_DisconnectId env pid)
  have "distinct (ms_procs s)" "set (ms_procs s) \<subseteq> dom (ms_heap s)" using inv by (simp_all add: main_inv_def procs_ok_def)
  then show ?thesis unfolding E_DisconnectId main_step.simps method_disconnect_user_id_def
    by (intro settles_steps disconnect_pid_settles) (use ok E_DisconnectId inv in simp_all)
next
  case (E_TermUser env name)
  have "\<exists>s1. sweep (\<lambda>p. p_username p = name) (disconnect_proc env) (ms_procs s) s = Some s1 \<and> settles H s s1"
    by (rule sweep_disconnect [OF inv]) (use ok E_TermUser in simp)
  then show ?thesis unfolding E_TermUser main_step.simps method_terminate_user_def
    by (intro settles_steps) (auto simp: terminate_user_sessions_in_secmod_def intro: settles_sec)
next
  case (E_TermId env pid)
  have "set (ms_procs s) \<subseteq> dom (ms_heap s)" using inv by (simp add: main_inv_def procs_ok_def)
  then show ?thesis unfolding E_TermId main_step.simps method_terminate_id_def
    by (intro settles_steps terminate_pid_settles) (use ok E_TermId inv x in simp_all)
next
  case (E_TermSession env safe_id)
  then show ?thesis using settles_refl [OF inv] settles_sec [OF settles_refl [OF inv]]
    by (simp add: steps_to_def method_terminate_session_def terminate_session_in_secmod_def)
next
  case (E_Unban ip)
  then show ?thesis using inv by (simp add: steps_to_def settles_def method_unban_ip_def)
next
  case (E_Terminate env)
  have "\<exists>s'. kill_children env s = Some s' \<and> settles H s s'"
    unfolding kill_children_def by (rule sweep_remove [OF inv]) (use ok E_Terminate in simp)
  then show ?thesis unfolding E_Terminate main_step.simps
    by (intro settles_steps settles_map) (simp_all add: settles_def)
qed

text \<open>The events of a run are acceptable, each in the state in which it occurs.\<close>

fun run_ok :: "(bytes \<Rightarrow> nat) \<Rightarrow> 's main_event list \<Rightarrow> 's main_server_st \<Rightarrow> bool" where
  "run_ok H [] s \<longleftrightarrow> True"
| "run_ok H (ev # evs) s \<longleftrightarrow>
     ms_exited s \<or> event_ok H s ev \<and> (case main_step ev s of None \<Rightarrow> True | Some s1 \<Rightarrow> run_ok H evs s1)"

lemma main_run_ok:
  assumes "ms_exited s \<or> main_inv H s" "run_ok H evs s"
  shows "\<exists>s'. main_run evs s = Some s' \<and> (ms_exited s' \<or> main_inv H s')"
  using assms
proof (induction evs arbitrary: s)
  case (Cons ev evs)
  show ?case
  proof (cases "ms_exited s")
    case False
    then obtain s1 where s1: "main_step ev s = Some s1" "steps_to H s s1"
      using main_step_ok [of H s ev] Cons.prems by auto
    then have "ms_exited s1 \<or> main_inv H s1" by (auto simp: steps_to_def settles_def)
    moreover have "run_ok H evs s1" using Cons.prems(2) s1(1) False by simp
    ultimately show ?thesis using Cons.IH [of s1] s1(1) False by simp
  qed simp
qed simp

lemma mslot_empty [simp]: "mslot (\<lambda>x. None) = Map.empty"
  by (rule ext) (simp add: mslot_def)

lemma main_init_inv: "vs \<noteq> [] \<Longrightarrow> main_inv H (main_init now vs n ban sec)"
  by (simp add: main_inv_def core_def procs_ok_def main_init_def main_stats_zero_def Let_def tables_ok_def tbl_inv_def
      proc_table_init_def ip_lease_init_def own_def scripted_def table_simps)

text \<open>
  C2 Memory safety of the main process.  In every run in which each event satisfies
  \<^const>\<open>event_ok\<close>, main handles every event without following a NULL or dangling pointer,
  without reading outside a buffer or an uninitialised one and without looping forever, and all
  its tables stay consistent with each other.  \<^const>\<open>event_ok\<close> leaves the messages of workers and
  of the administrator and the results of system calls open, but for the three messages of
  \<^const>\<open>worker_msg_ok\<close>, a packet on the shared UDP socket that fills the receive buffer, addresses
  that are not in a \<^verbatim>\<open>sockaddr_storage\<close>, and \<^const>\<open>menv_ok\<close>: the allocator returns blocks of the requested size, the tables are keyed by
  one hash function, the device name and the local routes contain no percent sign.
\<close>

theorem main_memory_safe:
  assumes "vs \<noteq> []" "run_ok H evs (main_init now vs n ban sec)"
  shows "\<exists>s. main_run evs (main_init now vs n ban sec) = Some s \<and> (ms_exited s \<or> main_inv H s)"
  by (rule main_run_ok [OF disjI2 [OF main_init_inv [OF assms(1)]] assms(2)])

lemma steps_procs:
  assumes "steps_to H s s'" "main_inv H s" "mc = rc_max_clients (GETRCONFIG s)" "mc > 0" "length (ms_procs s) \<le> unat mc"
  shows "length (ms_procs s') \<le> unat mc \<and> ms_vconfig s' = ms_vconfig s"
proof (cases "settles H s s'")
  case True
  then show ?thesis using assms(5) by (simp add: settles_def)
next
  case False
  then have acc: "accepts s s'" using assms(1) by (simp add: steps_to_def)
  have "unat mc < 2 ^ LENGTH(32)" by (rule unsigned_less)
  then have "length (ms_procs s) < 2 ^ LENGTH(32)" using assms(5) by simp
  then have "unat (of_nat (length (ms_procs s)) :: u32) = length (ms_procs s)"
    by (simp only: unsigned_of_nat take_bit_nat_eq_self of_nat_id)
  moreover have "st_active_clients (ms_stats s) = of_nat (length (ms_procs s))"
    using assms(2) by (simp add: main_inv_def procs_ok_def)
  ultimately have "st_active_clients (ms_stats s) < mc \<Longrightarrow> length (ms_procs s) < unat mc"
    by (simp add: word_less_nat_alt)
  then show ?thesis using acc assms(3-5) by (auto simp: accepts_def)
qed

lemma main_run_limit:
  assumes "ms_exited s \<or> main_inv H s" "run_ok H evs s" "main_run evs s = Some s'"
    and "mc = rc_max_clients (GETRCONFIG s)" "mc > 0" "length (ms_procs s) \<le> unat mc"
  shows "length (ms_procs s') \<le> unat mc"
  using assms
proof (induction evs arbitrary: s)
  case (Cons ev evs)
  show ?case
  proof (cases "ms_exited s")
    case False
    then have inv: "main_inv H s" using Cons.prems(1) by simp
    obtain s1 where s1: "main_step ev s = Some s1" "steps_to H s s1"
      using main_step_ok [OF inv False] Cons.prems(2) False by auto
    have "ms_exited s1 \<or> main_inv H s1" using s1(2) by (auto simp: steps_to_def settles_def)
    moreover have "length (ms_procs s1) \<le> unat mc" "ms_vconfig s1 = ms_vconfig s"
      using steps_procs [OF s1(2) inv Cons.prems(4-6)] by simp_all
    ultimately show ?thesis
      using Cons.IH [of s1] Cons.prems s1(1) False by (simp add: default_mvhost_def)
  qed (use Cons.prems in simp)
qed simp

text \<open>
  C9 The number of connected clients never exceeds \<^verbatim>\<open>max-clients\<close>, although the counter that is
  compared with the limit is a 32-bit word of its own: it always counts the process list.  The
  events satisfy \<^const>\<open>event_ok\<close>.
\<close>

theorem client_limit:
  assumes "vs \<noteq> []" "run_ok H evs (main_init now vs n ban sec)" "rc_max_clients (mv_config (last vs)) > 0"
    and "main_run evs (main_init now vs n ban sec) = Some s"
  shows "length (ms_procs s) \<le> unat (rc_max_clients (mv_config (last vs)))"
  by (rule main_run_limit [OF _ assms(2,4) _ assms(3)])
    (use main_init_inv [OF assms(1)] in \<open>simp_all add: main_init_def default_mvhost_def\<close>)

lemma main_run_inv:
  assumes "vs \<noteq> []" "run_ok H evs (main_init now vs n ban sec)"
    and "main_run evs (main_init now vs n ban sec) = Some s" "\<not> ms_exited s"
  shows "main_inv H s"
  using main_run_ok [OF disjI2 [OF main_init_inv [OF assms(1)]] assms(2)] assms(3,4) by simp

lemma own_mslot:
  assumes "own db (mslot heap)"
  shows "set db = {l. \<exists>i p. heap i = Some p \<and> il_dtor l \<and> (p_ipv4 p = Some l \<or> p_ipv6 p = Some l)}"
proof -
  have "ran (mslot heap) = {l. \<exists>i p. heap i = Some p \<and> il_dtor l \<and> (p_ipv4 p = Some l \<or> p_ipv6 p = Some l)}" (is "_ = ?R")
  proof (intro equalityI subsetI)
    fix l assume "l \<in> ran (mslot heap)"
    then show "l \<in> ?R"
      by (auto simp: ran_def mslot_def dtor_only_def split: option.splits if_splits)
  next
    fix l assume "l \<in> ?R"
    then obtain i p where l: "heap i = Some p" "il_dtor l" "p_ipv4 p = Some l \<or> p_ipv6 p = Some l" by blast
    then have "mslot heap (i, False) = Some l \<or> mslot heap (i, True) = Some l" by (auto simp: mslot_def dtor_only_def)
    then show "l \<in> ran (mslot heap)" by (auto intro: ranI)
  qed
  then show ?thesis using assms by (simp add: own_def)
qed

lemma own_mslot_differ:
  assumes "own db (mslot heap)" "heap i = Some p" "heap j = Some q" "(i, f) \<noteq> (j, g)"
    and "(if f then p_ipv6 p else p_ipv4 p) = Some l" "(if g then p_ipv6 q else p_ipv4 q) = Some l'" "il_dtor l" "il_dtor l'"
  shows "il_sig l \<noteq> il_sig l'"
proof
  assume sig: "il_sig l = il_sig l'"
  have m: "mslot heap (i, f) = Some l" "mslot heap (j, g) = Some l'"
    using assms(2,3,5-8) by (simp_all add: mslot_def dtor_only_def)
  then have "l \<in> set db" "l' \<in> set db" using assms(1) by (auto simp: own_def intro: ranI)
  then have "l = l'" using sig assms(1) by (auto simp: own_def tbl_ok_def distinct_map inj_on_def)
  then show False using m assms(1,4) unfolding own_def inj_on_def by (metis domI)
qed

lemma own_differ:
  assumes "own db (mslot heap)" "heap i = Some p" "heap j = Some q" "i \<noteq> j"
    and l: "p_ipv4 p = Some l \<or> p_ipv6 p = Some l" "p_ipv4 q = Some l' \<or> p_ipv6 q = Some l'" and "il_dtor l" "il_dtor l'"
  shows "il_sig l \<noteq> il_sig l'"
proof -
  obtain f where f: "(if f then p_ipv6 p else p_ipv4 p) = Some l" using l(1) by (metis (full_types))
  obtain g where g: "(if g then p_ipv6 q else p_ipv4 q) = Some l'" using l(2) by (metis (full_types))
  show ?thesis by (rule own_mslot_differ [OF assms(1-3) _ f g assms(7,8)]) (simp add: assms(4))
qed

text \<open>
  C4 Addresses of clients.  In every state of main reached by events with \<^const>\<open>event_ok\<close> the lease table holds exactly the
  leases that live processes registered, so an address is free again as soon as its process is
  gone, and no two registered addresses of different processes, IPv4 or IPv6, are the same.
\<close>

theorem live_leases:
  assumes "vs \<noteq> []" "run_ok H evs (main_init now vs n ban sec)"
    and "main_run evs (main_init now vs n ban sec) = Some s" "\<not> ms_exited s"
  shows "set (ms_leases s) =
      {l. \<exists>i p. ms_heap s i = Some p \<and> il_dtor l \<and> (p_ipv4 p = Some l \<or> p_ipv6 p = Some l)} \<and>
    (\<forall>i j p q l l'. ms_heap s i = Some p \<longrightarrow> ms_heap s j = Some q \<longrightarrow> i \<noteq> j \<longrightarrow>
       (p_ipv4 p = Some l \<or> p_ipv6 p = Some l) \<longrightarrow> (p_ipv4 q = Some l' \<or> p_ipv6 q = Some l') \<longrightarrow>
       il_dtor l \<longrightarrow> il_dtor l' \<longrightarrow> il_sig l \<noteq> il_sig l')"
proof -
  have o: "own (ms_leases s) (mslot (ms_heap s))"
    using main_run_inv [OF assms] by (simp add: main_inv_def core_def)
  show ?thesis using own_mslot [OF o] own_differ [OF o] by simp
qed

text \<open>
  C11 The limit of sessions per user: when \<^verbatim>\<open>max-same-clients\<close> is set and as many other sessions
  of the user are connected and not about to be killed, a new one is refused before a device
  is opened or a script is started, and nothing has changed.
\<close>

theorem same_user_limit:
  assumes "procs_ok s" "ms_heap s i = Some p" "p_config p = Some gc" "gc_max_same_clients gc = Some mx" "mx \<noteq> 0"
    and "unat mx \<le> length (filter (\<lambda>j. j \<noteq> i \<and> (\<exists>q. ms_heap s j = Some q \<and> p_pid q \<noteq> -1 \<and> \<not> p_pid_killed q \<and>
           p_username q = p_username p)) (ms_procs s))"
  shows "accept_user env i s = Some (-1, s)"
proof -
  have "(\<lambda>j. j \<noteq> i \<and> counted (ms_heap s) (p_username p) j) = (\<lambda>j. j \<noteq> i \<and> (\<exists>q. ms_heap s j = Some q \<and> p_pid q \<noteq> -1 \<and>
      \<not> p_pid_killed q \<and> p_username q = p_username p))"
    by (auto simp: counted_def split: option.split)
  then have "unat mx \<le> others (ms_heap s) i (p_username p) (ms_procs s)"
    using assms(6) by (simp add: others_def)
  moreover have "unat mx \<noteq> 0" using assms(5) by (simp add: unat_eq_zero)
  ultimately have "check_multiple_users i s = Some (-1)"
    using check_multiple_users_eq [OF assms(2,3,1)] assms(4) by simp
  then show ?thesis by (simp add: accept_user_def)
qed

text \<open>
  C29 A worker that has not shown a cookie stops the server: the message \<^verbatim>\<open>CMD_TUN_MTU\<close> of a new
  process, whatever its contents, makes main read the configuration of a virtual host through
  the NULL pointer that the process has before its session is opened.
\<close>

theorem tun_mtu_null_deref:
  assumes "new_proc env pid fd remote our s = (Some i, s')"
    and "0 \<le> wm_ret m" "wm_ret m \<le> 16384" "wm_alloc m" "wm_read m" "wm_cmd m = CMD_TUN_MTU msg"
  shows "i \<in> set (ms_procs s') \<and> main_step (E_Cmd env' i m) s' = None"
proof -
  have i: "i \<in> set (ms_procs s')" and p: "\<exists>p. ms_heap s' i = Some p \<and> p_vhost p = None"
    using assms(1) by (auto simp: new_proc_def Let_def proc_zero_def split: if_splits)
  then have "handle_worker_commands env' i m s' = None"
    using assms(2-6) by (auto simp: handle_worker_commands_def handle_tun_mtu_def)
  then show ?thesis using i by (simp add: cmd_watcher_cb_def)
qed

text \<open>
  C30 With the PROXY protocol, an empty client address in the session information of a worker
  is read through its NULL pointer; the check of the length that guards the server address is
  missing for the client address.
\<close>

theorem empty_address_null_deref:
  assumes "ms_heap s i = Some p" "p_hostname p = []" "rc_listen_proxy_proto (GETRCONFIG s)"
    and "sm_remote_addr x = Some []" "sa_len (p_remote p) \<noteq> 0"
  shows "handle_session_info env i (Some x) s = None"
proof -
  let ?p = "session_info_fields x p"
  have f: "p_hostname ?p = []" "p_remote ?p = p_remote p" using assms(2) by (simp_all add: session_info_fields_def)
  have "human_addr2 [] 0 46 False = None" by (simp add: human_addr2_def sa_family_def mem_at_def)
  then have "proc_table_update_ip (me_table env) i ?p [] (length ([] :: bytes)) t = None" for t
    using assms(5) f(2) by (simp add: proc_table_update_ip_def)
  then have "proxy_remote env i [] (put_proc i ?p s) = None" by (simp add: proxy_remote_def)
  then show ?thesis
    using assms(1,3,4) f(1) by (simp add: handle_session_info_def proxy_addrs_def default_mvhost_def)
qed

end
