(* ===== verification/Main_Auth.thy ===== *)
theory Main_Auth
  imports Main_Run
begin

text \<open>
  Who gets a tunnel.  The main process relies on the security module for the decision whether a
  cookie stands for an authenticated user; this theory states what it relies on as a locale and
  proves, for every run of the main process, that the device of a tunnel is handed only to a
  worker whose cookie was granted.
\<close>

section \<open>Tunnels\<close>

text \<open>The session ids for which main has sent a positive reply with the descriptor of the device.\<close>

fun tunnels :: "main_out list \<Rightarrow> bytes list" where
  "tunnels [] = []"
| "tunnels (OutCookieOk i fd sid user # tr) = sid # tunnels tr"
| "tunnels (_ # tr) = tunnels tr"

lemma tunnels_append [simp]: "tunnels (a @ b) = tunnels a @ tunnels b"
  by (induction a rule: tunnels.induct) simp_all

text \<open>The environment of an event.\<close>

fun event_env :: "'s main_event \<Rightarrow> 's main_env option" where
  "event_env (E_Accept env ac) = Some env"
| "event_env (E_Udp env ud) = Some env"
| "event_env (E_Cmd env i m) = Some env"
| "event_env (E_Script env pid i st sig) = Some env"
| "event_env (E_SecMod env k m) = Some env"
| "event_env (E_Maintenance env) = Some env"
| "event_env E_Latency = None"
| "event_env (E_DisconnectName env name) = Some env"
| "event_env (E_DisconnectId env pid) = Some env"
| "event_env (E_TermUser env name) = Some env"
| "event_env (E_TermId env pid) = Some env"
| "event_env (E_TermSession env safe_id) = Some env"
| "event_env (E_Unban ip) = None"
| "event_env (E_Terminate env) = Some env"

section \<open>What main relies on\<close>

text \<open>
  \<open>good\<close> is an invariant of the security module, \<open>granted\<close> says that a session id is
  authenticated, and \<open>serves\<close> that an environment lets the module answer.
\<close>

locale session_authority =
  fixes good :: "'s \<Rightarrow> bool" and granted :: "'s \<Rightarrow> bytes \<Rightarrow> bool" and serves :: "'s main_env \<Rightarrow> bool"
  assumes open_later: "serves env \<Longrightarrow> good w \<Longrightarrow> me_open env k c a b w = (r, w') \<Longrightarrow> good w' \<and> (\<forall>d. granted w d \<longrightarrow> granted w' d)"
    and open_grants: "serves env \<Longrightarrow> good w \<Longrightarrow> me_open env k c a b w = (OpenOk m, w') \<Longrightarrow> granted w' c"
    and close_later: "serves env \<Longrightarrow> good w \<Longrightarrow> me_close env k q w = (r', w') \<Longrightarrow> good w' \<and> (\<forall>d. granted w d \<longrightarrow> granted w' d)"
    and term_user_later: "serves env \<Longrightarrow> good w \<Longrightarrow> me_term_user env k u w = (n, w') \<Longrightarrow> good w' \<and> (\<forall>d. granted w d \<longrightarrow> granted w' d)"
    and term_sid_later: "serves env \<Longrightarrow> good w \<Longrightarrow> me_term_sid env k u w = (n, w') \<Longrightarrow> good w' \<and> (\<forall>d. granted w d \<longrightarrow> granted w' d)"
begin

definition later :: "'s \<Rightarrow> 's \<Rightarrow> bool" where
  "later w w' \<longleftrightarrow> (good w \<longrightarrow> good w' \<and> (\<forall>d. granted w d \<longrightarrow> granted w' d))"

definition auth_ok :: "'s main_server_st \<Rightarrow> bool" where
  "auth_ok s \<longleftrightarrow> good (ms_sec s) \<and> (\<forall>i p. ms_heap s i = Some p \<longrightarrow> p_active_sid p \<longrightarrow> granted (ms_sec s) (p_sid p)) \<and>
     (\<forall>sid \<in> set (tunnels (ms_trace s)). granted (ms_sec s) sid)"

text \<open>A step that activates no process and sends no positive reply.\<close>

definition quiet :: "'s main_server_st \<Rightarrow> 's main_server_st \<Rightarrow> bool" where
  "quiet s s' \<longleftrightarrow> later (ms_sec s) (ms_sec s') \<and> tunnels (ms_trace s') = tunnels (ms_trace s) \<and>
     (\<forall>i p'. ms_heap s' i = Some p' \<longrightarrow> p_active_sid p' \<longrightarrow> (\<exists>p. ms_heap s i = Some p \<and> p_active_sid p \<and> p_sid p = p_sid p'))"

lemma later_refl [simp]: "later w w"
  by (simp add: later_def)

lemma later_trans: "later w w' \<Longrightarrow> later w' w'' \<Longrightarrow> later w w''"
  by (simp add: later_def)

lemma quiet_refl [simp]: "quiet s s"
  by (simp add: quiet_def)

lemma quiet_trans:
  assumes "quiet s s'" "quiet s' s''"
  shows "quiet s s''"
proof -
  have "later (ms_sec s) (ms_sec s'')" using assms later_trans unfolding quiet_def by blast
  moreover have "\<exists>p. ms_heap s i = Some p \<and> p_active_sid p \<and> p_sid p = p_sid p''"
    if "ms_heap s'' i = Some p''" "p_active_sid p''" for i p''
    using assms that unfolding quiet_def by metis
  ultimately show ?thesis using assms by (simp add: quiet_def)
qed

lemma quiet_auth: "auth_ok s \<Longrightarrow> quiet s s' \<Longrightarrow> auth_ok s'"
  unfolding auth_ok_def quiet_def later_def by metis

lemma quiet_simps [simp]:
  "quiet s (s'\<lparr>ms_ban := b\<rparr>) = quiet s s'" "quiet s (s'\<lparr>ms_usage := u\<rparr>) = quiet s s'"
  "quiet s (s'\<lparr>ms_leases := d\<rparr>) = quiet s s'" "quiet s (s'\<lparr>ms_procs := ps\<rparr>) = quiet s s'"
  "quiet s (s'\<lparr>ms_scripts := c\<rparr>) = quiet s s'" "quiet s (s'\<lparr>ms_table := t\<rparr>) = quiet s s'"
  "quiet s (s'\<lparr>ms_stats := st\<rparr>) = quiet s s'" "quiet s (s'\<lparr>ms_instances := l\<rparr>) = quiet s s'"
  "quiet s (s'\<lparr>ms_route_log := rl\<rparr>) = quiet s s'" "quiet s (s'\<lparr>ms_exited := x\<rparr>) = quiet s s'"
  "quiet s (s'\<lparr>ms_abnormal := x\<rparr>) = quiet s s'" "quiet s (s'\<lparr>ms_next := n\<rparr>) = quiet s s'"
  "quiet s (upd_stats f s') = quiet s s'"
  by (simp_all add: quiet_def upd_stats_def)

lemma quiet_emit [simp]: "tunnels [e] = [] \<Longrightarrow> quiet s (emit e s') = quiet s s'"
  by (simp add: quiet_def)

lemma quiet_left [simp]:
  "quiet (s\<lparr>ms_ban := b\<rparr>) s' = quiet s s'" "quiet (s\<lparr>ms_usage := u\<rparr>) s' = quiet s s'"
  "quiet (s\<lparr>ms_leases := d\<rparr>) s' = quiet s s'" "quiet (s\<lparr>ms_procs := ps\<rparr>) s' = quiet s s'"
  "quiet (s\<lparr>ms_scripts := c\<rparr>) s' = quiet s s'" "quiet (s\<lparr>ms_table := t\<rparr>) s' = quiet s s'"
  "quiet (s\<lparr>ms_route_log := rl\<rparr>) s' = quiet s s'" "quiet (upd_stats f s) s' = quiet s s'"
  "tunnels [e] = [] \<Longrightarrow> quiet (emit e s) s' = quiet s s'"
  by (simp_all add: quiet_def upd_stats_def)

lemma quiet_if: "(b \<Longrightarrow> quiet s x) \<Longrightarrow> (\<not> b \<Longrightarrow> quiet s y) \<Longrightarrow> quiet s (if b then x else y)"
  by simp

lemma quiet_put:
  assumes "quiet s s'" "ms_heap s' i = Some p" "p_active_sid p' \<Longrightarrow> p_active_sid p \<and> p_sid p' = p_sid p"
  shows "quiet s (put_proc i p' s')"
  using assms unfolding quiet_def by auto

lemma quiet_upd:
  assumes "quiet s s'" "\<And>p. p_active_sid (f p) \<Longrightarrow> p_active_sid p \<and> p_sid (f p) = p_sid p"
  shows "quiet s (upd_proc i f s')"
  using assms quiet_put [OF assms(1)] by (auto simp: upd_proc_def split: option.split)

lemma quiet_sec: "quiet s s' \<Longrightarrow> later (ms_sec s') w \<Longrightarrow> quiet s (s'\<lparr>ms_sec := w\<rparr>)"
  by (auto simp: quiet_def intro: later_trans)

lemma quiet_new: "quiet s s' \<Longrightarrow> \<not> p_active_sid p \<Longrightarrow> quiet s (put_proc i p s')"
  by (simp add: quiet_def)

lemma quiet_free: "quiet s s' \<Longrightarrow> quiet s (s'\<lparr>ms_heap := (ms_heap s')(i := None)\<rparr>)"
  by (simp add: quiet_def)

text \<open>All results of a partial operation are quiet.\<close>

definition calm :: "'s main_server_st \<Rightarrow> ('a \<times> 's main_server_st) option \<Rightarrow> bool" where
  "calm s m \<longleftrightarrow> (\<forall>r s'. m = Some (r, s') \<longrightarrow> quiet s s')"

definition calm1 :: "'s main_server_st \<Rightarrow> 's main_server_st option \<Rightarrow> bool" where
  "calm1 s m \<longleftrightarrow> (\<forall>s'. m = Some s' \<longrightarrow> quiet s s')"

lemma calm_simps [simp]:
  "calm s None" "calm s (Some (r, s')) = quiet s s'" "calm1 s None" "calm1 s (Some s') = quiet s s'"
  by (simp_all add: calm_def calm1_def)

lemma calm_bind [intro!]:
  "(\<And>x. m = Some x \<Longrightarrow> calm s (f x)) \<Longrightarrow> calm s (Option.bind m f)"
  "(\<And>x. m = Some x \<Longrightarrow> calm1 s (g x)) \<Longrightarrow> calm1 s (Option.bind m g)"
  by (cases m; simp)+

lemma calm_if [intro!]:
  "(b \<Longrightarrow> calm s x) \<Longrightarrow> (\<not> b \<Longrightarrow> calm s y) \<Longrightarrow> calm s (if b then x else y)"
  "(b \<Longrightarrow> calm1 s x') \<Longrightarrow> (\<not> b \<Longrightarrow> calm1 s y') \<Longrightarrow> calm1 s (if b then x' else y')"
  by simp_all

lemma calmD: "calm s m \<Longrightarrow> m = Some (r, s') \<Longrightarrow> quiet s s'" "calm1 s n \<Longrightarrow> n = Some s' \<Longrightarrow> quiet s s'"
  by (simp_all add: calm_def calm1_def)

lemma calm_trans: "quiet s s' \<Longrightarrow> calm s' m \<Longrightarrow> calm s m" "quiet s s' \<Longrightarrow> calm1 s' n \<Longrightarrow> calm1 s n"
  using quiet_trans by (auto simp: calm_def calm1_def)

lemma later_calls:
  assumes "serves env"
  shows "later w (snd (me_open env k c a b w))" "later w (snd (me_close env k q w))"
    "later w (snd (me_term_user env k u w))" "later w (snd (me_term_sid env k u w))"
  using open_later [OF assms, of w k c a b] close_later [OF assms, of w k q]
    term_user_later [OF assms, of w k u] term_sid_later [OF assms, of w k u]
  unfolding later_def by (metis surjective_pairing)+

end

section \<open>Quiet operations\<close>

context session_authority
begin

lemma call_user_script_calm: "calm s (call_user_script env ty i s)"
  unfolding call_user_script_def Let_def
  by (intro calm_bind) (simp split: option.split)

lemma user_connected_calm: "calm s (user_connected env i s)"
  using call_user_script_calm [of "emit (OutUserUp i) s" env SCRIPT_CONNECT i] by (simp add: user_connected_def calm_def)

lemma user_disconnected_calm: "calm1 s (user_disconnected env i s)"
  using call_user_script_calm [of "emit (OutUserDown i) s" env SCRIPT_DISCONNECT i]
  by (auto simp: user_disconnected_def calm_def calm1_def)

lemma user_hostname_update_calm: "calm1 s (user_hostname_update env i s)"
  unfolding user_hostname_update_def
  using calmD(1) [OF call_user_script_calm] by (auto intro!: quiet_upd)

lemma remove_from_script_list_quiet: "quiet s (snd (remove_from_script_list i s))"
  by (simp add: remove_from_script_list_def Let_def split: prod.split option.split)

lemma update_main_stats_quiet: "quiet s s' \<Longrightarrow> quiet s (update_main_stats now p sc s')"
  by (simp add: quiet_def)

lemma session_accept_calm:
  assumes "ms_heap s i = Some p"
  shows "calm s (session_accept env i p m s)"
proof (cases "om_username m")
  case None
  then show ?thesis using assms by (auto simp: session_accept_def intro!: quiet_put)
next
  case user: (Some user)
  show ?thesis
  proof (cases "om_config m")
    case None
    then show ?thesis using user assms by (auto simp: session_accept_def fill_from_reply_def Let_def intro!: quiet_put)
  next
    case (Some gc)
    then show ?thesis using user assms
      by (auto simp: session_accept_def fill_from_reply_def Let_def intro!: quiet_put)
  qed
qed

lemma session_open_calm:
  assumes "serves env"
  shows "calm s (session_open env k i cookie s)"
proof (cases "ms_heap s i")
  case (Some p)
  let ?a = "lease_ip_str (p_ipv4 p)" and ?b = "lease_ip_str (p_ipv6 p)"
  obtain o1 w where o1: "me_open env k cookie ?a ?b (ms_sec s) = (o1, w)" by fastforce
  let ?s = "(emit (OutSecOpen k cookie ?a ?b) s)\<lparr>ms_sec := w\<rparr>"
  have q: "quiet s ?s" using later_calls(1) [OF assms, of "ms_sec s" k cookie ?a ?b] o1 by (intro quiet_sec) simp_all
  have "calm s (session_accept env i p m ?s)" for m by (rule calm_trans(1) [OF q session_accept_calm]) (simp add: Some)
  then show ?thesis using q Some o1 by (auto simp: session_open_def Let_def split: open_result.split)
qed (simp add: session_open_def)

lemma session_close_calm:
  assumes "serves env"
  shows "calm s (session_close env k i s)"
proof (cases "ms_heap s i")
  case (Some p)
  obtain c w where c: "me_close env k (close_req p) (ms_sec s) = (c, w)" by fastforce
  let ?s = "(emit (OutSecClose k (close_req p)) s)\<lparr>ms_sec := w\<rparr>"
  have q: "quiet s ?s" using later_calls(2) [OF assms, of "ms_sec s" k "close_req p"] c by (intro quiet_sec) simp_all
  have "quiet s (put_proc i (p\<lparr>p_bytes_in := bi, p_bytes_out := bo, p_discon_reason := x\<rparr>) ?s)" for bi bo x
    by (rule quiet_put [OF q, of _ p]) (simp_all add: Some)
  then show ?thesis using q Some c
    by (auto simp: session_close_def Let_def intro!: update_main_stats_quiet split: close_result.split)
qed (simp add: session_close_def)

lemma os_open_tun_auth: "p_active_sid (snd (os_open_tun env p s)) = p_active_sid p" "p_sid (snd (os_open_tun env p s)) = p_sid p"
  by (simp_all add: os_open_tun_def Let_def split: option.split)

lemma set_network_info_quiet:
  assumes "ms_heap s i = Some p" "p_active_sid p' = p_active_sid p" "p_sid p' = p_sid p"
  shows "quiet s (snd (set_network_info env i p' s))"
  using assms
  by (auto simp: set_network_info_def Let_def split: option.split prod.split intro!: quiet_put)

lemma open_tun_calm: "calm s (open_tun env i s)"
proof (cases "ms_heap s i")
  case p: (Some p)
  show ?thesis
    unfolding open_tun_def p Option.bind.bind_lunit
  proof (intro calm_bind)
    fix gc vi
    obtain ret db lp where l: "get_ip_leases (me_lease env) (ms_leases s) (lease_view (ms_vconfig s ! vi) p gc) = (ret, db, lp)"
      by (rule prod_cases3)
    let ?p1 = "put_leases lp p" and ?s1 = "s\<lparr>ms_leases := db\<rparr>"
    obtain fd p2 where o: "os_open_tun env ?p1 ?s1 = (fd, p2)" by fastforce
    have p2: "p_active_sid p2 = p_active_sid p" "p_sid p2 = p_sid p"
      using os_open_tun_auth [of env ?p1 ?s1] o by (simp_all add: put_leases_def)
    have put: "quiet s (put_proc i ?p1 ?s1)" "quiet s (put_proc i p2 ?s1)"
      using p p2 by (auto simp: put_leases_def intro!: quiet_put)
    obtain r s2 where n: "set_network_info env i p2 ?s1 = (r, s2)" by fastforce
    have "quiet ?s1 s2" using set_network_info_quiet [of ?s1 i p p2 env] p p2 n by simp
    then have s2: "quiet s s2" by simp
    moreover have "quiet s (upd_proc i (\<lambda>p. p\<lparr>p_tun_fd := fd\<rparr>) s2)" by (rule quiet_upd [OF s2]) simp
    ultimately show "calm s (case get_ip_leases (me_lease env) (ms_leases s) (lease_view (ms_vconfig s ! vi) p gc) of
          (ret, db, lp) \<Rightarrow>
            let p1 = put_leases lp p; s1 = s\<lparr>ms_leases := db\<rparr> in
            if ret < 0 then Some (ret, put_proc i p1 s1)
            else
              (case os_open_tun env p1 s1 of
                 (fd, p2) \<Rightarrow>
                   if fd < 0 then Some (-1, put_proc i p2 s1)
                   else if p_tun_name p2 = [] then Some (-1, put_proc i p2 s1)
                   else
                     (case set_network_info env i p2 s1 of
                        (r, s2) \<Rightarrow>
                          if r < 0 then Some (-1, s2)
                          else Some (0, upd_proc i (\<lambda>p. p\<lparr>p_tun_fd := fd\<rparr>) s2))))"
      using put by (simp add: l o n Let_def)
  qed
qed (simp add: open_tun_def)

lemma accept_user_calm: "calm s (accept_user env i s)"
  unfolding accept_user_def
  using calmD(1) [OF open_tun_calm] calm_trans(1) [OF _ user_connected_calm] by auto

lemma new_proc_quiet: "quiet s (snd (new_proc env pid fd remote our s))"
  by (simp add: new_proc_def Let_def quiet_new proc_zero_def)

lemma drop_leases_quiet: "ms_heap s i = Some p \<Longrightarrow> quiet s (drop_leases i p s)"
  by (auto simp: drop_leases_def put_leases_def lease_slots_def split: prod.split intro!: quiet_put)

lemma free_proc_quiet: "quiet s s' \<Longrightarrow> quiet s (free_proc env i p s')"
  by (simp add: free_proc_def Let_def quiet_free split: option.split)

lemma remove_proc_rest_calm: "calm1 s (remove_proc_rest env i s)"
proof -
  obtain pid s1 where r: "remove_from_script_list i s = (pid, s1)" by fastforce
  have q1: "quiet s s1" using remove_from_script_list_quiet [of s i] r by simp
  have "calm1 s (user_disconnected env i s1)" by (rule calm_trans(2) [OF q1 user_disconnected_calm])
  then have q2: "quiet s s2" if "user_disconnected env i s1 = Some s2" for s2 using calmD(2) that by blast
  have fin: "quiet s (free_proc env i p5 (drop_leases i p4 (put_proc i p4 (s3\<lparr>ms_route_log := log\<rparr>))))"
    if "quiet s s3" "ms_heap s3 i = Some p3" "p4 = p3\<lparr>p_applied_iroutes := a, p_tun_fd := -1\<rparr>" for s3 p3 p4 a log p5
  proof -
    have "quiet s (put_proc i p4 (s3\<lparr>ms_route_log := log\<rparr>))"
      by (rule quiet_put [of _ _ _ p3]) (use that in simp_all)
    moreover have "quiet (put_proc i p4 (s3\<lparr>ms_route_log := log\<rparr>)) (drop_leases i p4 (put_proc i p4 (s3\<lparr>ms_route_log := log\<rparr>)))"
      by (rule drop_leases_quiet) simp
    ultimately show ?thesis by (intro free_proc_quiet) (rule quiet_trans)
  qed
  show ?thesis
    unfolding remove_proc_rest_def r prod.case Let_def
  proof (intro calm_bind)
    fix p s2 p3 ipl p5
    assume s2: "(if 0 < pid then case me_wait env of None \<Rightarrow> Some s1 | Some w \<Rightarrow> if WEXITSTATUS w = 0 then user_disconnected env i s1 else Some s1
          else if p_status p = PS_AUTH_COMPLETED then user_disconnected env i s1 else Some s1) = Some s2"
      and p3: "ms_heap (upd_proc i (\<lambda>p. p\<lparr>p_fd := - 1, p_pid := - 1\<rparr>) s2) i = Some p3"
    have "quiet s s2" using s2 q1 q2 by (auto split: if_split_asm option.split_asm)
    then have "quiet s (upd_proc i (\<lambda>p. p\<lparr>p_fd := - 1, p_pid := - 1\<rparr>) s2)" by (rule quiet_upd) simp
    from fin [OF this p3 refl]
    show "calm1 s (case ipl of (ip, log) \<Rightarrow> do {
        p5 \<leftarrow> ms_heap (drop_leases i (p3\<lparr>p_applied_iroutes := ir_applied ip, p_tun_fd := - 1\<rparr>)
          (put_proc i (p3\<lparr>p_applied_iroutes := ir_applied ip, p_tun_fd := - 1\<rparr>) (upd_proc i (\<lambda>p. p\<lparr>p_fd := - 1, p_pid := - 1\<rparr>) s2
             \<lparr>ms_route_log := log\<rparr>))) i;
        Some (free_proc env i p5 (drop_leases i (p3\<lparr>p_applied_iroutes := ir_applied ip, p_tun_fd := - 1\<rparr>)
          (put_proc i (p3\<lparr>p_applied_iroutes := ir_applied ip, p_tun_fd := - 1\<rparr>) (upd_proc i (\<lambda>p. p\<lparr>p_fd := - 1, p_pid := - 1\<rparr>) s2
             \<lparr>ms_route_log := log\<rparr>))))})"
      by (auto split: prod.split)
  qed
qed

lemma remove_proc_calm:
  assumes "serves env"
  shows "calm1 s (remove_proc env i kill quit s)"
proof (cases "ms_heap s i")
  case p: (Some p)
  define s1 where "s1 = upd_stats (\<lambda>st. st\<lparr>st_active_clients := st_active_clients st - 1\<rparr>) (s\<lparr>ms_procs := remove1 i (ms_procs s)\<rparr>)"
  define s2 where "s2 = (if kill \<and> p_pid p \<noteq> -1 \<and> p_pid p \<noteq> 0 then emit (OutKill (p_pid p)) s1 else s1)"
  have q: "quiet s s2" by (simp add: s2_def s1_def)
  have rest: "calm1 s (remove_proc_rest env i s')" if "quiet s s'" for s'
    by (rule calm_trans(2) [OF that remove_proc_rest_calm])
  have cl: "quiet s s3" if "session_close env k i s2 = Some (ret, s3)" for k ret s3
    using calmD(1) [OF calm_trans(1) [OF q session_close_calm [OF assms]] that] .
  show ?thesis
    unfolding remove_proc_def p Option.bind.bind_lunit s1_def [symmetric] Let_def s2_def [symmetric]
    using rest [OF q] cl rest by (auto intro!: calm_bind calm_if)
qed (simp add: remove_proc_def)

lemma set_tun_mtu_calm: "calm s (set_tun_mtu env i mtu s)"
  unfolding set_tun_mtu_def by (auto intro!: quiet_put)

lemma handle_ban_ip_calm: "calm s (handle_ban_ip env i msg s)"
  unfolding handle_ban_ip_def Let_def by (auto intro!: quiet_put split: option.split prod.split)

lemma handle_tun_mtu_calm: "calm s (handle_tun_mtu env i msg s)"
proof -
  have "calm s (map_option (\<lambda>(r, s'). (0 :: int, s')) (set_tun_mtu env i mtu s))" for mtu
    using set_tun_mtu_calm [of s env i mtu] by (auto simp: calm_def)
  then show ?thesis unfolding handle_tun_mtu_def Let_def by (cases msg) (auto intro!: calm_bind calm_if)
qed

lemma kill_proc_calm: "calm1 s (kill_proc i s)"
  unfolding kill_proc_def by (auto intro!: quiet_put)

lemma move_ip_auth: "p_active_sid (fst (snd (move_ip env i p addr n d t))) = p_active_sid p" "p_sid (fst (snd (move_ip env i p addr n d t))) = p_sid p"
  by (simp_all add: move_ip_def Let_def)

lemma update_ip_auth:
  assumes "proc_table_update_ip env i p addr n t = Some (r, p', t')"
  shows "p_active_sid p' = p_active_sid p \<and> p_sid p' = p_sid p"
proof -
  obtain a b where "p' = p\<lparr>p_remote := a, p_dtls_remote := b\<rparr>" by (rule update_ip_frame [OF assms])
  then show ?thesis by simp
qed

lemma proxy_remote_calm: "calm1 s (proxy_remote env i addr s)"
  unfolding proxy_remote_def Let_def
proof (intro calm_bind)
  fix p x
  assume p: "ms_heap s i = Some p" and x: "proc_table_update_ip (me_table env) i p addr (length addr) (ms_table s) = Some x"
  obtain r p1 t where x3: "x = (r, p1, t)" by (rule prod_cases3)
  have q: "quiet s (put_proc i p1 (s\<lparr>ms_table := t\<rparr>))"
    by (rule quiet_put [of _ _ _ p]) (use update_ip_auth [OF x [unfolded x3]] p in simp_all)
  then have "calm1 s (kill_proc i ((put_proc i p1 (s\<lparr>ms_table := t\<rparr>))\<lparr>ms_ban := b\<rparr>))" for b
    by (intro calm_trans(2) [OF _ kill_proc_calm]) simp
  then show "calm1 s (case x of (ret, p1, t) \<Rightarrow>
      case check_if_banned (me_ban env) (me_ban_now env) (ban_view (p_remote p1)) (sa_ip (p_remote p1))
             (ms_ban (put_proc i p1 (s\<lparr>ms_table := t\<rparr>))) of
          (banned, ban) \<Rightarrow>
            if banned \<and> p_pid p1 \<noteq> -1 \<and> p_pid p1 \<noteq> 0 then kill_proc i ((put_proc i p1 (s\<lparr>ms_table := t\<rparr>))\<lparr>ms_ban := ban\<rparr>)
            else Some ((put_proc i p1 (s\<lparr>ms_table := t\<rparr>))\<lparr>ms_ban := ban\<rparr>))"
    using q x3 by (simp split: prod.split)
qed

lemma proxy_our_quiet: "quiet s s' \<Longrightarrow> quiet s (proxy_our i a s')"
  unfolding proxy_our_def by (auto intro!: quiet_upd)

lemma proxy_addrs_calm: "calm1 s (proxy_addrs env i m s)"
  unfolding proxy_addrs_def
  using calmD(2) [OF proxy_remote_calm] proxy_our_quiet proxy_remote_calm
  by (auto intro!: calm_bind split: option.split option.split_asm if_split_asm)

lemma handle_session_info_calm: "calm s (handle_session_info env i msg s)"
proof (cases msg)
  case (Some m)
  show ?thesis
    unfolding handle_session_info_def Some option.case Let_def
  proof (intro calm_bind)
    fix p s2 s3
    let ?s1 = "put_proc i (session_info_fields m p) s"
    assume p: "ms_heap s i = Some p"
      and 2: "(if p_hostname (session_info_fields m p) \<noteq> [] then user_hostname_update env i ?s1 else Some ?s1) = Some s2"
      and 3: "(if rc_listen_proxy_proto (GETRCONFIG s2) then proxy_addrs env i m s2 else Some s2) = Some s3"
    have q1: "quiet s ?s1" by (rule quiet_put [of _ _ _ p]) (simp_all add: p session_info_fields_def)
    then have q2: "quiet s s2"
      using 2 calmD(2) [OF calm_trans(2) [OF q1 user_hostname_update_calm]] by (auto split: if_split_asm)
    then have "quiet s s3"
      using 3 calmD(2) [OF calm_trans(2) [OF q2 proxy_addrs_calm]] by (auto split: if_split_asm)
    then show "calm s (Some (0, s3))" by simp
  qed
qed (simp add: handle_session_info_def)

lemma handle_latency_delta_calm: "calm s (handle_latency_delta i msg s)"
  unfolding handle_latency_delta_def by (auto split: option.split)

lemma handle_sec_mod_commands_quiet: "quiet s (snd (handle_sec_mod_commands env k m s))"
  by (simp add: handle_sec_mod_commands_def Let_def split: secmod_cmd.split option.split prod.split)

lemma sec_mod_watcher_quiet: "quiet s (sec_mod_watcher_cb env k m s)"
  using handle_sec_mod_commands_quiet [of s env k m] by (auto simp: sec_mod_watcher_cb_def split: prod.split)

lemma sweep_calm:
  assumes "\<And>i s. calm1 s (act i s)"
  shows "calm1 s (sweep sel act l s)"
proof (induction l arbitrary: s)
  case (Cons i l)
  have "calm1 s (sweep sel act l s1)" if "act i s = Some s1" for s1
    by (rule calm_trans(2) [OF calmD(2) [OF assms that] Cons.IH])
  then show ?case using Cons.IH by (auto intro!: calm_bind split: if_split_asm)
qed simp

lemma disconnect_proc_calm:
  assumes "serves env"
  shows "calm1 s (disconnect_proc env i s)"
  unfolding disconnect_proc_def Let_def
proof (intro calm_bind)
  fix p assume p: "ms_heap s i = Some p"
  have q: "quiet s (put_proc i (p\<lparr>p_invalidated := True\<rparr>) s)" by (rule quiet_put [of _ _ _ p]) (simp_all add: p)
  show "calm1 s (if p_pid p \<noteq> -1 \<and> p_pid p \<noteq> 0 then Some (emit (OutKill (p_pid p)) (put_proc i (p\<lparr>p_invalidated := True\<rparr>) s))
      else remove_proc env i True False (put_proc i (p\<lparr>p_invalidated := True\<rparr>) s))"
    using q calm_trans(2) [OF q remove_proc_calm [OF assms]] by auto
qed

lemma disconnect_pid_calm:
  assumes "serves env"
  shows "calm1 s (disconnect_pid env pid l s)"
proof (induction l arbitrary: s)
  case (Cons i l)
  have d: "quiet s s1" if "disconnect_proc env i s = Some s1" for s1
    using calmD(2) [OF disconnect_proc_calm [OF assms] that] .
  have "calm1 s (disconnect_pid env pid l s1)" if "disconnect_proc env i s = Some s1" for s1
    by (rule calm_trans(2) [OF d [OF that] Cons.IH])
  then show ?case using Cons.IH d by (auto intro!: calm_bind)
qed simp

lemma term_instances_later:
  assumes "\<And>k w. later w (snd (f k w))"
  shows "later w (snd (term_instances f ks w))"
proof (induction ks arbitrary: w)
  case (Cons k ks)
  have "later w (snd (f k w))" by (rule assms)
  then show ?case using later_trans [OF _ Cons.IH] by (auto split: prod.split)
qed simp

lemma terminate_user_quiet: "serves env \<Longrightarrow> quiet s (terminate_user_sessions_in_secmod env name s)"
  unfolding terminate_user_sessions_in_secmod_def
  by (intro quiet_sec quiet_refl term_instances_later later_calls(3))

lemma terminate_session_quiet: "serves env \<Longrightarrow> quiet s (terminate_session_in_secmod env sid s)"
  unfolding terminate_session_in_secmod_def
  by (intro quiet_sec quiet_refl term_instances_later later_calls(4))

lemma terminate_pid_calm:
  assumes "serves env"
  shows "calm1 s (terminate_pid env pid l s)"
proof (induction l)
  case (Cons i l)
  have "quiet s s1" if "disconnect_proc env i s = Some s1" for s1
    using calmD(2) [OF disconnect_proc_calm [OF assms] that] .
  then show ?case using Cons.IH quiet_trans [OF _ terminate_session_quiet [OF assms]] by (auto intro!: calm_bind quiet_if)
qed simp

lemma listen_accept_quiet: "quiet s (listen_accept env ac s)"
proof -
  have "quiet s s1 \<Longrightarrow> quiet s (accept_parent env ac our s1)" for our s1
    using quiet_trans [OF _ new_proc_quiet [of s1 env "ac_pid ac" "ac_cmd_fd ac" "ac_remote ac" our]]
    by (auto simp: accept_parent_def split: prod.split option.split)
  then show ?thesis by (auto simp: listen_accept_def Let_def split: prod.split option.split)
qed

lemma pass_udp_fd_calm: "calm1 s (pass_udp_fd env ud b i s)"
  unfolding pass_udp_fd_def
proof (intro calm_bind calm_if)
  fix p gc
  assume p: "ms_heap s i = Some p"
  obtain r p1 t where u: "proc_table_update_dtls_ip (me_table env) i p (ud_cli ud) (ms_table s) = (r, p1, t)" by (rule prod_cases3)
  have p1: "p_active_sid p1 = p_active_sid p" "p_sid p1 = p_sid p" using update_dtls_ip_fields [OF u] by auto
  have "quiet s (put_proc i p (s\<lparr>ms_table := t'\<rparr>))" "quiet s (put_proc i p1 (s\<lparr>ms_table := t'\<rparr>))" for t'
    by (rule quiet_put [of _ _ _ p]; use p p1 in simp)+
  then show "calm1 s (let (p1, t) = if b then (p, ms_table s) else case proc_table_update_dtls_ip (me_table env) i p (ud_cli ud) (ms_table s) of
             (r, p1, t) \<Rightarrow> (p1, t); s1 = put_proc i p1 (s\<lparr>ms_table := t\<rparr>)
           in if me_send env < 0 then Some s1
              else Some (put_proc i (p1\<lparr>p_udp_fd_receive_time := me_now env\<rparr>)
                          (emit (OutUdpFd i (\<not> b) (take (nat (ud_ret ud)) (ud_buf ud))) s1)))"
    using u p by (cases b) (auto simp: Let_def intro!: quiet_put)
qed simp_all

lemma forward_udp_calm: "calm1 s (forward_udp_to_owner env ud s)"
  unfolding forward_udp_to_owner_def Let_def
  using pass_udp_fd_calm by (auto intro!: calm_bind calm_if split: option.split prod.split)

section \<open>Operations that grant a tunnel\<close>

lemma take_over_calm:
  assumes p: "ms_heap s i = Some p"
  shows "calm s (take_over env i p j s)"
  unfolding take_over_def
proof (intro calm_bind calm_if)
  fix q assume q: "ms_heap s j = Some q"
  obtain lq lp where l: "steal_ip_leases (me_steal4 env) (me_steal6 env) (lease_slots q) (lease_slots p) = (lq, lp)" by fastforce
  let ?q = "(put_leases lq q)\<lparr>p_pid_killed := (p_pid q > 0 \<or> p_pid_killed q)\<rparr>"
  have qj: "quiet s (put_proc j ?q s)" by (rule quiet_put [of _ _ _ q]) (simp_all add: q put_leases_def)
  have "quiet s (put_proc i (put_leases lp p) (put_proc j ?q s))"
    by (rule quiet_put [OF qj, of _ "if i = j then ?q else p"]) (use p q in \<open>auto simp: put_leases_def\<close>)
  then show "calm s (case steal_ip_leases (me_steal4 env) (me_steal6 env) (lease_slots q) (lease_slots p) of
            (lq, lp) \<Rightarrow>
              let q1 = (put_leases lq q)\<lparr>p_pid_killed := (p_pid q > 0 \<or> p_pid_killed q)\<rparr>;
                  s' = put_proc i (put_leases lp p) (put_proc j q1 s)
              in Some (False, if p_pid q > 0 then emit (OutKill (p_pid q)) s' else s'))"
    unfolding l prod.case Let_def calm_simps by (intro quiet_if) (simp_all only: quiet_emit tunnels.simps)
qed simp

text \<open>The process of a bound session is active, its session id is the cookie, and the others are quiet.\<close>

lemma bind_session_auth:
  assumes "bind_session env i cookie hostname old s = Some (r, s')" "auth_ok s" "granted (ms_sec s) cookie"
  shows "auth_ok s'"
proof -
  obtain p where p: "ms_heap s i = Some p" using assms(1) by (auto simp: bind_session_def Option.bind_eq_Some_conv)
  define m where "m = (case old of None \<Rightarrow> Some (False, s) | Some j \<Rightarrow> take_over env i p j s)"
  have "calm s m" using take_over_calm [OF p] by (auto simp: m_def split: option.split)
  moreover obtain b s1 where m: "m = Some (b, s1)"
    using assms(1) by (auto simp: bind_session_def p m_def [symmetric] Option.bind_eq_Some_conv)
  ultimately have q: "quiet s s1" by (simp add: calm_def)
  then have ok: "auth_ok s1" and g: "granted (ms_sec s1) cookie"
    using quiet_auth [OF assms(2)] assms(2,3) by (auto simp: auth_ok_def quiet_def later_def)
  define s2 where "s2 = upd_proc i (\<lambda>p. p\<lparr>p_sid := cookie, p_active_sid := True,
      p_hostname := strlcpy_opt 64 hostname (p_hostname p)\<rparr>) s1"
  have ok2: "auth_ok (s2\<lparr>ms_table := t\<rparr>)" for t
    using ok g by (auto simp: auth_ok_def s2_def upd_proc_def split: option.split)
  have "bind_session env i cookie hostname old s = (if b then Some (-1, s1) else do {
      p2 \<leftarrow> ms_heap s2 i;
      case proc_table_add (me_table env) i p2 (ms_table s2) of (r, t) \<Rightarrow> Some (if r < 0 then -1 else 0, s2\<lparr>ms_table := t\<rparr>) })"
    unfolding bind_session_def p Option.bind.bind_lunit m_def [symmetric] m prod.case s2_def [symmetric] Let_def ..
  then show ?thesis
    using assms(1) ok ok2 by (cases "ms_heap s2 i") (auto split: if_split_asm prod.split_asm)
qed

lemma session_accept_sec:
  assumes "session_accept env i p m s = Some (r, s')"
  shows "ms_sec s' = ms_sec s"
  using assms
  by (cases "om_username m"; cases "om_config m")
    (auto simp: session_accept_def Let_def Option.bind_eq_Some_conv)

lemma session_open_granted:
  assumes "session_open env k i cookie s = Some (r, s')" "0 \<le> r" "serves env" "good (ms_sec s)"
  shows "granted (ms_sec s') cookie"
proof -
  obtain p where p: "ms_heap s i = Some p" using assms(1) by (auto simp: session_open_def Option.bind_eq_Some_conv)
  let ?a = "lease_ip_str (p_ipv4 p)" and ?b = "lease_ip_str (p_ipv6 p)"
  obtain o1 w where o1: "me_open env k cookie ?a ?b (ms_sec s) = (o1, w)" by fastforce
  have "length cookie = SID_SIZE" using assms(1,2) p by (auto simp: session_open_def split: if_split_asm)
  then obtain m where m: "o1 = OpenOk m" "session_accept env i p m ((emit (OutSecOpen k cookie ?a ?b) s)\<lparr>ms_sec := w\<rparr>) = Some (r, s')"
    using assms(1,2) p o1 by (cases o1) (auto simp: session_open_def Let_def)
  have "ms_sec s' = w" using session_accept_sec [OF m(2)] by simp
  then show ?thesis using open_grants [OF assms(3,4) o1 [unfolded m(1)]] by simp
qed

lemma auth_ok_later: "auth_ok s \<Longrightarrow> good (ms_sec s)"
  by (simp add: auth_ok_def)

lemma handle_auth_cookie_req_auth:
  assumes "handle_auth_cookie_req env k i cookie hostname s = Some (r, s')" "auth_ok s" "serves env"
  shows "auth_ok s'"
proof (cases "length cookie = SID_SIZE \<and> me_rnd env \<noteq> None")
  case True
  then obtain d where d: "me_rnd env = Some d" by auto
  define s1 where "s1 = upd_proc i (\<lambda>p. p\<lparr>p_dtls_session_id := d, p_dtls_session_id_size := 32\<rparr>) s"
  have "quiet s s1" unfolding s1_def by (rule quiet_upd) simp_all
  then have ok1: "auth_ok s1" using quiet_auth [OF assms(2)] by blast
  have run: "handle_auth_cookie_req env k i cookie hostname s = do {
      old \<leftarrow> proc_search_sid (te_hash (me_table env)) (ms_heap s1) (ms_table s1) cookie;
      invalid \<leftarrow> (case old of None \<Rightarrow> Some False | Some j \<Rightarrow> map_option p_invalidated (ms_heap s1 j));
      if invalid then Some (-1, s1)
      else do { (ret, s2) \<leftarrow> session_open env k i cookie s1;
                if ret < 0 then Some (-1, s2) else bind_session env i cookie hostname old s2 } }"
    using True by (simp add: handle_auth_cookie_req_def d Let_def s1_def [symmetric])
  have "\<forall>old. (do { (ret, s2) \<leftarrow> session_open env k i cookie s1;
                if ret < 0 then Some (-1, s2) else bind_session env i cookie hostname old s2 }) = Some (r, s') \<longrightarrow> auth_ok s'"
  proof (intro allI impI)
    fix old
    assume run2: "(do { (ret, s2) \<leftarrow> session_open env k i cookie s1;
                if ret < 0 then Some (-1, s2) else bind_session env i cookie hostname old s2 }) = Some (r, s')"
    then obtain ret s2 where s2: "session_open env k i cookie s1 = Some (ret, s2)"
      by (auto simp: Option.bind_eq_Some_conv)
    have ok2: "auth_ok s2" using quiet_auth [OF ok1 calmD(1) [OF session_open_calm [OF assms(3)] s2]] .
    show "auth_ok s'"
    proof (cases "ret < 0")
      case True
      then show ?thesis using run2 s2 ok2 by simp
    next
      case False
      then have "granted (ms_sec s2) cookie"
        using session_open_granted [OF s2 _ assms(3)] auth_ok_later [OF ok1] by simp
      then show ?thesis using bind_session_auth [OF _ ok2] run2 s2 False by simp
    qed
  qed
  then show ?thesis using assms(1) ok1 unfolding run by (auto simp: Option.bind_eq_Some_conv split: if_split_asm)
next
  case False
  then show ?thesis using assms(1,2) by (auto simp: handle_auth_cookie_req_def split: if_split_asm option.split_asm)
qed

lemma send_cookie_auth_reply_auth:
  assumes "send_cookie_auth_reply env i ok s = Some (r, s')" "auth_ok s" "ms_heap s i = Some p" "ok \<longrightarrow> p_active_sid p"
  shows "auth_ok s' \<and> ms_heap s' = ms_heap s"
  using assms by (auto simp: send_cookie_auth_reply_def auth_ok_def split: if_split_asm)

lemma auth_ok_put:
  assumes "auth_ok s" "ms_heap s i = Some p" "p_active_sid p' = p_active_sid p" "p_sid p' = p_sid p"
  shows "auth_ok (put_proc i p' s)"
  by (rule quiet_auth [OF assms(1) quiet_put [of _ _ _ p]]) (use assms in simp_all)

lemma auth_ok_upd:
  assumes "auth_ok s" "\<And>p. p_active_sid (f p) = p_active_sid p" "\<And>p. p_sid (f p) = p_sid p"
  shows "auth_ok (upd_proc i f s)"
  by (rule quiet_auth [OF assms(1) quiet_upd]) (use assms in simp_all)

lemma handle_script_exit_auth:
  assumes run: "handle_script_exit env i code s = Some (r, s')" and ok: "auth_ok s"
    and p: "ms_heap s i = Some p" "code = (0::int) \<longrightarrow> p_active_sid p"
  shows "auth_ok s'"
proof -
  obtain r1 s1 where s1: "send_cookie_auth_reply env i (code = 0) s = Some (r1, s1)"
    using run by (cases "code = 0") (auto simp: handle_script_exit_def Option.bind_eq_Some_conv)
  have ok1: "auth_ok s1" "ms_heap s1 i = Some p" using send_cookie_auth_reply_auth [OF s1 ok p(1)] p by simp_all
  have put: "auth_ok (put_proc i p' (s1\<lparr>ms_route_log := l\<rparr>))" if "p_active_sid p' = p_active_sid p" "p_sid p' = p_sid p" for p' l
    by (rule auth_ok_put [of _ _ p]) (use ok1 that in \<open>simp_all add: auth_ok_def\<close>)
  have fin: "auth_ok x \<Longrightarrow> auth_ok (upd_proc i (\<lambda>p. p\<lparr>p_tun_fd := -1\<rparr>) x)"
    "auth_ok x \<Longrightarrow> auth_ok (upd_proc i (\<lambda>p. p\<lparr>p_status := st\<rparr>) x)" for x st
    by (rule auth_ok_upd; simp)+
  show ?thesis
    using run s1 ok1 put fin
    by (auto simp: handle_script_exit_def Option.bind_eq_Some_conv Let_def split: if_split_asm)
qed

lemma cookie_verdict_calm: "calm s (cookie_verdict env i result s)"
  unfolding cookie_verdict_def set_status_def
  using calmD(1) [OF accept_user_calm] by (auto intro!: calm_bind calm_if quiet_upd)

lemma handle_cookie_auth_res_auth:
  assumes run: "handle_cookie_auth_res env i result s = Some (r, s')" and ok: "auth_ok s"
    and c: "core H {i} s" "procs_ok s" and p: "ms_heap s i = Some p" "\<not> scripted s i"
      "\<not> p_applied_iroutes p" "result = 0 \<longrightarrow> p_active_sid p" "result \<le> 0"
    and env: "menv_ok H env"
  shows "auth_ok s'"
proof -
  obtain r1 s1 p1 where s1: "cookie_verdict env i result s = Some (r1, s1)" "ms_heap s1 i = Some p1" "r1 = 0 \<longrightarrow> p_active_sid p1"
    using cookie_verdict_ok [OF c p env] by blast
  have ok1: "auth_ok s1" using quiet_auth [OF ok calmD(1) [OF cookie_verdict_calm s1(1)]] .
  show ?thesis
  proof (cases "r1 = ERR_WAIT_FOR_SCRIPT")
    case True
    then show ?thesis using run s1(1) ok1 by (simp add: handle_cookie_auth_res_def)
  next
    case False
    then obtain r2 s2 where s2: "handle_script_exit env i r1 s1 = Some (r2, s2)"
      using run s1(1) by (auto simp: handle_cookie_auth_res_def Option.bind_eq_Some_conv)
    have "auth_ok s2" using handle_script_exit_auth [OF s2 ok1 s1(2,3)] .
    then have "auth_ok (set_status i PS_AUTH_FAILED s2)" "auth_ok s2" unfolding set_status_def by (auto intro: auth_ok_upd)
    then show ?thesis using run s1(1) s2 False by (auto simp: handle_cookie_auth_res_def)
  qed
qed

lemma handle_cookie_req_auth:
  assumes run: "handle_cookie_req env i msg s = Some (r, s')" and ok: "auth_ok s" "serves env"
    and inv: "main_inv H s" and p: "ms_heap s i = Some p" and env: "menv_ok H env"
  shows "auth_ok s'"
proof (cases "\<exists>cookie host. p_status p = PS_AUTH_INACTIVE \<and> msg = Some (cookie, host) \<and> length cookie = SID_SIZE")
  case False
  then have "handle_cookie_req env i msg s = Some (ERR_BAD_COMMAND, s)"
    using p by (auto simp: handle_cookie_req_def split: option.split)
  then show ?thesis using run ok by simp
next
  case True
  then obtain cookie host where m: "p_status p = PS_AUTH_INACTIVE" "msg = Some (cookie, host)" "length cookie = SID_SIZE" by blast
  let ?inst = "sec_mod_instance_index_get cookie" and ?s0 = "put_proc i (p\<lparr>p_sec_mod_index := sec_mod_instance_index_get cookie\<rparr>) s"
  obtain r1 s1 p1 where s1: "(if ?inst \<ge> length (ms_instances s) then Some (-1, s)
       else handle_auth_cookie_req env ?inst i cookie host ?s0) = Some (r1, s1)"
      "core H {i} s1" "keeps s s1" "ms_heap s1 i = Some p1" "\<not> scripted s1 i" "\<not> p_applied_iroutes p1"
      "r1 = 0 \<longrightarrow> p_active_sid p1" "r1 \<le> 0"
    using cookie_result_ok [OF inv p m(1) env, of ?inst cookie host] by blast
  have "auth_ok ?s0" by (rule auth_ok_put [OF ok(1) p]) simp_all
  then have ok1: "auth_ok s1"
    using s1(1) ok handle_auth_cookie_req_auth [of env ?inst i cookie host ?s0 r1 s1] by (auto split: if_split_asm)
  have pr: "procs_ok s1" using keeps_procs [OF s1(3)] inv by (simp add: main_inv_def)
  obtain r2 s2 where s2: "handle_cookie_auth_res env i r1 s1 = Some (r2, s2)"
    using handle_cookie_auth_res_ok [OF s1(2) pr s1(4-8) env] by blast
  have "handle_cookie_req env i msg s = Some (if r2 < 0 then r2 else 0, s2)"
    unfolding handle_cookie_req_def using p m s1(1) s2(1) by (simp add: Let_def)
  then show ?thesis using run handle_cookie_auth_res_auth [OF s2 ok1 s1(2) pr s1(4-8) env] by simp
qed

lemma handle_worker_commands_auth:
  assumes run: "handle_worker_commands env i m s = Some (r, s')" and ok: "auth_ok s" "serves env"
    and inv: "main_inv H s" and p: "ms_heap s i = Some p" and env: "menv_ok H env"
  shows "auth_ok s'"
proof (cases "wm_ret m < 0 \<or> wm_ret m > 16384 \<or> \<not> wm_alloc m \<or> \<not> wm_read m")
  case True
  then show ?thesis using run ok by (auto simp: handle_worker_commands_def split: if_split_asm)
next
  case False
  note quiet = quiet_auth [OF ok(1) calmD(1)]
  show ?thesis
    using run False quiet [OF handle_ban_ip_calm] quiet [OF handle_tun_mtu_calm] quiet [OF handle_session_info_calm]
      quiet [OF handle_latency_delta_calm] handle_cookie_req_auth [OF _ ok inv p env] ok
    by (cases "wm_cmd m") (auto simp: handle_worker_commands_def)
qed

lemma removed_auth:
  assumes "do { (r, s1) \<leftarrow> h; if r < (0::int) then remove_proc env i (kill r) False s1 else Some s1 } = Some s'"
    and "\<And>r s1. h = Some (r, s1) \<Longrightarrow> auth_ok s1" "serves env"
  shows "auth_ok s'"
proof -
  obtain r s1 where h: "h = Some (r, s1)" using assms(1) by (auto simp: Option.bind_eq_Some_conv)
  have ok: "auth_ok s1" using assms(2) [OF h] .
  show ?thesis
    using assms(1) h ok quiet_auth [OF ok calmD(2) [OF remove_proc_calm [OF assms(3)]]] by (auto split: if_split_asm)
qed

lemma script_watcher_auth:
  assumes run: "script_child_watcher_cb env pid i st sig s = Some s'" and ok: "auth_ok s" "serves env"
    and inv: "main_inv H s" and mem: "(pid, i) \<in> set (ms_scripts s)"
  shows "auth_ok s'"
proof -
  have c: "core H {} s" using inv by (simp add: main_inv_def)
  have sc: "scripted s i" using owners_mem [OF mem] by (simp add: scripted_def)
  then obtain p where p: "ms_heap s i = Some p" using c by (auto simp: core_def)
  have act: "p_active_sid p" using core_proc [OF c p] sc by (simp add: proc_ok_def)
  let ?s = "s\<lparr>ms_scripts := remove1 (pid, i) (ms_scripts s)\<rparr>"
  have "auth_ok ?s" using ok(1) by (simp add: auth_ok_def)
  then have "auth_ok s1" if "handle_script_exit env i code ?s = Some (r, s1)" for r s1 code
    using handle_script_exit_auth [OF that] p act by simp
  from removed_auth [OF run [unfolded script_child_watcher_cb_def Let_def] this ok(2)] show ?thesis by simp
qed

section \<open>Runs\<close>

lemma main_step_auth:
  assumes run: "main_step ev s = Some s'" and ok: "auth_ok s" "\<And>env. event_env ev = Some env \<Longrightarrow> serves env"
    and inv: "main_inv H s" "event_ok H s ev"
  shows "auth_ok s'"
proof (cases ev)
  case (E_Cmd env i m)
  show ?thesis
  proof (cases "i \<in> set (ms_procs s)")
    case True
    then obtain p where p: "ms_heap s i = Some p" using inv_procs [OF inv(1)] by blast
    have srv: "serves env" and env: "menv_ok H env" using ok(2) inv(2) E_Cmd by simp_all
    have run2: "cmd_watcher_cb env i m s = Some s'" using run True E_Cmd by simp
    show ?thesis
      by (rule removed_auth [OF run2 [unfolded cmd_watcher_cb_def]])
        (use handle_worker_commands_auth [OF _ ok(1) srv inv(1) p env] srv in auto)
  next
    case False
    then show ?thesis using run ok E_Cmd by simp
  qed
next
  case (E_Script env pid i st sig)
  then show ?thesis using run ok script_watcher_auth [OF _ ok(1) _ inv(1)] by (auto split: if_split_asm)
next
  case (E_Udp env ud)
  then show ?thesis using run quiet_auth [OF ok(1) calmD(2) [OF forward_udp_calm]] by simp
next
  case (E_Accept env ac)
  then show ?thesis using run quiet_auth [OF ok(1) listen_accept_quiet] by auto
next
  case (E_SecMod env k m)
  then show ?thesis using run ok quiet_auth [OF ok(1) sec_mod_watcher_quiet] by (auto split: if_split_asm)
next
  case (E_Maintenance env)
  then have "calm1 s (main_step ev s)"
    using calm_trans(2) [of s "s\<lparr>ms_ban := cleanup_banned_entries (me_ban_now env) (ms_ban s)\<rparr>"] sweep_calm remove_proc_calm ok(2)
    by (simp add: perform_maintenance_def kill_children_auth_timeout_def Let_def)
  then show ?thesis using quiet_auth [OF ok(1) calmD(2)] run by blast
next
  case E_Latency
  then show ?thesis using run ok by (auto simp: latency_watcher_cb_def auth_ok_def upd_stats_def)
next
  case (E_DisconnectName env name)
  then have "calm1 s (main_step ev s)" using sweep_calm disconnect_proc_calm ok(2) by (simp add: method_disconnect_user_name_def)
  then show ?thesis using quiet_auth [OF ok(1) calmD(2)] run by blast
next
  case (E_DisconnectId env pid)
  then have "calm1 s (main_step ev s)" using disconnect_pid_calm ok(2) by (simp add: method_disconnect_user_id_def)
  then show ?thesis using quiet_auth [OF ok(1) calmD(2)] run by blast
next
  case (E_TermUser env name)
  then have srv: "serves env" using ok(2) by simp
  have "calm1 s (sweep (\<lambda>p. p_username p = name) (disconnect_proc env) (ms_procs s) s)"
    by (rule sweep_calm) (rule disconnect_proc_calm [OF srv])
  then have "calm1 s (main_step ev s)"
    unfolding E_TermUser main_step.simps method_terminate_user_def
    using calmD(2) quiet_trans [OF _ terminate_user_quiet [OF srv]] by (auto intro!: calm_bind quiet_if)
  then show ?thesis using quiet_auth [OF ok(1) calmD(2)] run by blast
next
  case (E_TermId env pid)
  then have "calm1 s (main_step ev s)" using terminate_pid_calm ok(2) by (simp add: method_terminate_id_def)
  then show ?thesis using quiet_auth [OF ok(1) calmD(2)] run by blast
next
  case (E_TermSession env safe_id)
  then show ?thesis using run ok quiet_auth [OF ok(1) terminate_session_quiet]
    by (auto simp: method_terminate_session_def split: if_split_asm)
next
  case (E_Unban ip)
  then show ?thesis using run ok by (auto simp: method_unban_ip_def auth_ok_def)
next
  case (E_Terminate env)
  then have "calm1 s (kill_children env s)" using sweep_calm remove_proc_calm ok(2) by (simp add: kill_children_def)
  then have "calm1 s (main_step ev s)" using E_Terminate by (auto simp: calm1_def)
  then show ?thesis using quiet_auth [OF ok(1) calmD(2)] run by blast
qed

lemma main_run_auth:
  assumes "main_run evs s = Some s'" "auth_ok s" "\<forall>ev \<in> set evs. \<forall>env. event_env ev = Some env \<longrightarrow> serves env"
    and "ms_exited s \<or> main_inv H s" "run_ok H evs s"
  shows "auth_ok s'"
  using assms
proof (induction evs arbitrary: s)
  case (Cons ev evs)
  show ?case
  proof (cases "ms_exited s")
    case False
    then have inv: "main_inv H s" "event_ok H s ev" using Cons.prems(4,5) by auto
    obtain s1 where s1: "main_step ev s = Some s1" "steps_to H s s1" using main_step_ok [OF inv(1) False inv(2)] by blast
    have "auth_ok s1" by (rule main_step_auth [OF s1(1) Cons.prems(2) _ inv]) (use Cons.prems(3) in auto)
    moreover have "ms_exited s1 \<or> main_inv H s1" using s1(2) by (auto simp: steps_to_def settles_def)
    ultimately show ?thesis using Cons.IH [of s1] Cons.prems s1(1) False by simp
  qed (use Cons.prems in simp)
qed simp

end

end
