(* ===== verification/Main_Witness.thy ===== *)
theory Main_Witness
  imports Main_Run
begin

text \<open>
  Concrete runs of the main process: a virtual host with a small network, clients that connect
  and show a cookie, and a security module that accepts every cookie.  Each property of the
  main process is applied to such a run.
\<close>

section \<open>A server\<close>

definition demo_network :: network_cfg where
  "demo_network =
     \<lparr>nw_name = ''vpns'', nw_routes = [''10.0.0.0/255.0.0.0''], nw_no_routes = [], nw_dns = [''10.1.2.3''], nw_nbns = [],
      nw_ipv4_network = Some ''10.1.2.9'', nw_ipv4_netmask = Some ''255.255.255.0'', nw_ipv6_network = None,
      nw_ipv6_prefix = 0, nw_ipv6_subnet_prefix = 0, nw_mtu = 0\<rparr>"

definition demo_rc :: "bool \<Rightarrow> reloadable_cfg" where
  "demo_rc proxy =
     \<lparr>rc_network = demo_network, rc_no_udp = False, rc_split_dns = [], rc_stats_report_time = 0, rc_session_timeout = 0,
      rc_deny_roaming = False, rc_xml_config_file = None, rc_client_bypass_protocol = 0, rc_rx_per_sec = 0,
      rc_tx_per_sec = 0, rc_net_priority = 0, rc_keepalive = 300, rc_dpd = 90, rc_mobile_dpd = 1800,
      rc_max_same_clients = 2, rc_tunnel_all_dns = 0, rc_restrict_user_to_routes = False, rc_idle_timeout = 1200,
      rc_mobile_idle_timeout = 1800, rc_fw_ports = [], rc_known_iroutes = [''10.5.0.0/255.255.0.0''],
      rc_append_routes = True, rc_default_mtu = 1400, rc_connect_script = None, rc_host_update_script = None,
      rc_disconnect_script = None, rc_listen_proxy_proto = proxy, rc_max_clients = 16, rc_auth_timeout = 240,
      rc_dtls_psk = True\<rparr>"

definition demo_static :: static_cfg_st where
  "demo_static = \<lparr>sc_stats_reset_time = 0, sc_uid = 99, sc_gid = 99, sc_udp_port = 443\<rparr>"

definition demo_vhosts :: "main_vhost list" where
  "demo_vhosts = [\<lparr>mv_name = None, mv_config = demo_rc False, mv_static = demo_static, mv_usage = 0\<rparr>]"

definition demo_group :: group_cfg_st where
  "demo_group =
     \<lparr>gc_interim_update_secs = None, gc_session_timeout_secs = None, gc_no_udp = None, gc_deny_roaming = None,
      gc_routes = None, gc_iroutes = None, gc_dns = None, gc_nbns = None, gc_ipv4_net = None, gc_ipv4_netmask = None,
      gc_ipv6_net = None, gc_ipv6_prefix = None, gc_xml_config_file = None, gc_rx_per_sec = None, gc_tx_per_sec = None,
      gc_net_priority = None, gc_explicit_ipv4 = None, gc_explicit_ipv6 = None, gc_no_routes = None,
      gc_ipv6_subnet_prefix = None, gc_dpd = None, gc_mobile_dpd = None, gc_keepalive = None, gc_max_same_clients = None,
      gc_tunnel_all_dns = None, gc_restrict_user_to_routes = None, gc_mtu = None, gc_idle_timeout = None,
      gc_mobile_idle_timeout = None, gc_fw_ports = [], gc_split_dns = None, gc_client_bypass_protocol = None\<rparr>"

definition demo_cfg_env :: cfg_env where
  "demo_cfg_env = \<lparr>cf_alloc_routes = True, cf_alloc_no_routes = True, cf_dup = (\<lambda>_. True)\<rparr>"

definition demo_tun :: tun_env where
  "demo_tun = \<lparr>tu_fd = 7, tu_open = True, tu_setiff = Some ''vpns0'', tu_persist = True, tu_owner = True, tu_group = None,
     tu_v4_socket = True, tu_v4_addr = True, tu_v4_dstaddr = True, tu_v4_flags = True, tu_v6_socket = True,
     tu_v6_index = True, tu_v6_addr = True, tu_v6_flags = True, tu_v6_route = True\<rparr>"

definition demo_menv ::
  "(nat \<Rightarrow> bytes \<Rightarrow> string option \<Rightarrow> string option \<Rightarrow> 's \<Rightarrow> open_result \<times> 's) \<Rightarrow>
   (nat \<Rightarrow> session_close_req \<Rightarrow> 's \<Rightarrow> close_result \<times> 's) \<Rightarrow> 's main_env" where
  "demo_menv op cl =
     \<lparr>me_now = 1000,
      me_table = \<lparr>te_hash = length, te_add_ip = True, te_add_dtls_id = True, te_add_sid = True, te_add_dtls_ip = True\<rparr>,
      me_cfg = demo_cfg_env, me_lease = demo_lease_env, me_steal4 = True, me_steal6 = True, me_tun = demo_tun,
      me_route = demo_route_env, me_ban = env_at 1000, me_ban_now = 1000, me_rnd = Some (replicate 32 5), me_alloc = True,
      me_open = op, me_close = cl, me_term_user = (\<lambda>_ _ s. (0, s)), me_term_sid = (\<lambda>_ _ s. (0, s)),
      me_safe_id = (\<lambda>_. ''id''), me_send = 0, me_sec_send = 0, me_fork = (\<lambda>_. 55), me_script_alloc = True,
      me_wait = Some 0, me_fw_script = ''/usr/bin/ocserv-fw'', me_mtu_socket = True, me_mtu_ioctl = True\<rparr>"

definition demo_open_msg :: "string \<Rightarrow> u8 \<Rightarrow> open_msg" where
  "demo_open_msg user b =
     \<lparr>om_session_start_time = 990, om_username = Some user, om_groupname = Some [], om_user_agent = None,
      om_device_type = None, om_device_platform = None, om_ip = Some ''192.0.2.7'', om_vhost = None,
      om_ipv4_seed = [b, b, b, b], om_config = Some demo_group\<rparr>"

definition demo_unit_env :: "unit main_env" where
  "demo_unit_env =
     demo_menv (\<lambda>_ cookie _ _ s. (OpenOk (demo_open_msg ''alice'' (last cookie)), s)) (\<lambda>_ _ s. (CloseOk 5000 7000 None, s))"

lemma demo_menv_ok:
  assumes "\<And>i c a b s m s'. op i c a b s = (OpenOk m, s') \<Longrightarrow> \<exists>gc. om_config m = Some gc \<and> gc_iroutes gc = None"
  shows "menv_ok length (demo_menv op cl)"
  using assms demo_str_env_ok
  by (fastforce simp: menv_ok_def demo_menv_def demo_route_env_def demo_tun_def dev_ok_def iroutes_ok_def)

lemma demo_unit_env_ok: "menv_ok length demo_unit_env"
  unfolding demo_unit_env_def
  by (rule demo_menv_ok) (auto simp: demo_open_msg_def demo_group_def)

definition demo_addr :: "u8 \<Rightarrow> saddr" where
  "demo_addr b = \<lparr>sa_raw = [2, 0, 1, 187, 192, 0, 2, b] @ replicate 120 0, sa_len = 16\<rparr>"

lemma demo_addr_wf: "saddr_wf (demo_addr b)"
  by (simp add: saddr_wf_def demo_addr_def)

definition demo_accept :: "u8 \<Rightarrow> accept_env" where
  "demo_accept b = \<lparr>ac_fd = True, ac_remote = demo_addr b, ac_wrapper = True, ac_our = Some (demo_addr 1), ac_socketpair = True,
     ac_pid = 100 + uint b, ac_cmd_fd = 9\<rparr>"

definition demo_msg :: "worker_cmd \<Rightarrow> worker_msg" where
  "demo_msg c = \<lparr>wm_ret = 40, wm_alloc = True, wm_read = True, wm_cmd = c\<rparr>"

definition demo_cookie :: "u8 \<Rightarrow> bytes" where
  "demo_cookie b = [0, 0] @ replicate 30 b"

definition demo_connect :: "'s main_env \<Rightarrow> nat \<Rightarrow> u8 \<Rightarrow> 's main_event list" where
  "demo_connect env i b = [E_Accept env (demo_accept b), E_Cmd env i (demo_msg (AUTH_COOKIE_REQ (Some (demo_cookie b, None))))]"

definition demo_events :: "unit main_event list" where
  "demo_events = demo_connect demo_unit_env 0 7 @ demo_connect demo_unit_env 1 8"

definition demo_main :: "unit main_server_st" where
  "demo_main = main_init 900 demo_vhosts 1 ban_demo ()"

lemma run_ok_all: "list_all (\<lambda>ev. \<forall>s. event_ok H s ev) evs \<Longrightarrow> run_ok H evs s"
  by (induction evs arbitrary: s) (auto split: option.split)

lemma demo_events_ok: "run_ok length demo_events demo_main"
  by (rule run_ok_all)
    (simp add: demo_events_def demo_connect_def demo_unit_env_ok demo_accept_def demo_addr_wf worker_msg_ok_def demo_msg_def)

lemma demo_run:
  "map_option (\<lambda>s. (ms_exited s, ms_procs s, map il_rip (ms_leases s))) (main_run demo_events demo_main) =
     Some (False, [1, 0], [[10, 1, 2, 7], [10, 1, 2, 8]])"
  by code_simp

section \<open>Applications\<close>

theorem session_config_complete_witness:
  "\<exists>gc'. apply_default_config demo_cfg_env (demo_rc False)
       (demo_group\<lparr>gc_routes := Some [''10.7.0.0/255.255.0.0''], gc_no_routes := Some [''10.8.0.0/255.255.0.0''],
          gc_dpd := Some 33\<rparr>) = Some gc' \<and>
     gc_dpd gc' = Some 33 \<and> gc_keepalive gc' \<noteq> None \<and>
     prefix [''10.7.0.0/255.255.0.0''] (items (gc_routes gc')) \<and>
     prefix [''10.8.0.0/255.255.0.0''] (items (gc_no_routes gc'))"
proof -
  let ?gc = "demo_group\<lparr>gc_routes := Some [''10.7.0.0/255.255.0.0''], gc_no_routes := Some [''10.8.0.0/255.255.0.0''],
         gc_dpd := Some 33\<rparr>"
  have env: "cfg_env_ok demo_cfg_env" by (simp add: cfg_env_ok_def demo_cfg_env_def)
  obtain gc' where gc': "apply_default_config demo_cfg_env (demo_rc False) ?gc = Some gc'" "cfg_complete gc'" "cfg_keeps ?gc gc'"
    "prefix (items (gc_routes ?gc)) (items (gc_routes gc'))" "prefix (items (gc_no_routes ?gc)) (items (gc_no_routes gc'))"
    using session_config_complete [of demo_cfg_env "demo_rc False" ?gc] env by blast
  have "gc_dpd gc' = Some 33" using gc'(3) by (simp add: cfg_keeps_def cfg_scalars_def refines_opt_def)
  moreover have "gc_keepalive gc' \<noteq> None" using gc'(2) by (simp add: cfg_complete_def)
  moreover have "prefix [''10.7.0.0/255.255.0.0''] (items (gc_routes gc'))" using gc'(4) by (simp add: items_def)
  moreover have "prefix [''10.8.0.0/255.255.0.0''] (items (gc_no_routes gc'))" using gc'(5) by (simp add: items_def)
  ultimately show ?thesis using gc'(1) by blast
qed

theorem session_routes_witness:
  "\<exists>gc'. apply_default_config demo_cfg_env (demo_rc False) demo_group = Some gc' \<and>
     items (gc_routes gc') = [''10.0.0.0/255.0.0.0'', ''10.5.0.0/255.255.0.0'', ''10.0.0.0/255.0.0.0'']"
  using session_routes [of demo_cfg_env "demo_rc False" demo_group]
  by (simp add: cfg_env_ok_def demo_cfg_env_def demo_group_def demo_rc_def demo_network_def foreign_iroutes_def)

definition demo_closed :: proc_st where
  "demo_closed = proc_zero\<lparr>p_bytes_in := 5999, p_bytes_out := 7000, p_conn_time := 100\<rparr>"

lemma demo_stats_facts:
  "st_sessions_closed (ms_stats demo_main) = 0" "st_kbytes_in (ms_stats demo_main) = 0" "st_kbytes_out (ms_stats demo_main) = 0"
  "sc_stats_reset_time demo_static = 0" "p_bytes_in demo_closed = 5999" "p_bytes_out demo_closed = 7000"
  by (simp_all add: demo_static_def demo_main_def main_init_def main_stats_zero_def demo_closed_def Let_def)

theorem session_counters_exact_witness:
  "unat (st_sessions_closed (ms_stats (update_main_stats 1000 demo_closed demo_static demo_main))) = 1 \<and>
   unat (st_kbytes_in (ms_stats (update_main_stats 1000 demo_closed demo_static demo_main))) = 5"
  using session_counters_exact [of demo_static 1000 demo_main demo_closed]
  by (simp add: demo_stats_facts)

theorem session_average_bounds_witness:
  "min 10 20 \<le> unat (st_avg_session_mins (count_time 20 ((main_stats_zero 0)\<lparr>st_avg_session_mins := 10, st_sessions_closed := 5\<rparr>))) \<and>
   unat (st_avg_session_mins (count_time 20 ((main_stats_zero 0)\<lparr>st_avg_session_mins := 10, st_sessions_closed := 5\<rparr>))) \<le> max 10 20"
  using session_average_bounds [of 20 "(main_stats_zero 0)\<lparr>st_avg_session_mins := 10, st_sessions_closed := 5\<rparr>"] by simp

theorem main_memory_safe_witness:
  "\<exists>s. main_run demo_events demo_main = Some s \<and> (ms_exited s \<or> main_inv length s)"
  unfolding demo_main_def
  by (rule main_memory_safe) (use demo_events_ok in \<open>simp_all add: demo_vhosts_def demo_main_def\<close>)

definition demo_state :: "unit main_server_st" where
  "demo_state = the (main_run demo_events demo_main)"

lemma demo_state_facts:
  "main_run demo_events demo_main = Some demo_state" "\<not> ms_exited demo_state" "ms_procs demo_state = [1, 0]"
  "map il_rip (ms_leases demo_state) = [[10, 1, 2, 7], [10, 1, 2, 8]]"
  using demo_run by (auto simp: demo_state_def)

theorem client_limit_witness: "length (ms_procs demo_state) \<le> 16"
  using client_limit [of demo_vhosts length demo_events 900 1 ban_demo "()" demo_state, folded demo_main_def]
    demo_state_facts(1) demo_events_ok
  by (simp add: demo_vhosts_def demo_rc_def)

theorem live_leases_witness:
  "\<exists>l i p. ms_heap demo_state i = Some p \<and> il_dtor l \<and> (p_ipv4 p = Some l \<or> p_ipv6 p = Some l) \<and> il_rip l = [10, 1, 2, 7]"
proof -
  obtain l where "l \<in> set (ms_leases demo_state)" "il_rip l = [10, 1, 2, 7]"
    using demo_state_facts(4) by (cases "ms_leases demo_state") auto
  then show ?thesis
    using live_leases [of demo_vhosts length demo_events 900 1 ban_demo "()" demo_state, folded demo_main_def]
      demo_state_facts(1,2) demo_events_ok
    by (auto simp: demo_vhosts_def)
qed

text \<open>Two processes of the same client.\<close>

definition demo_twin :: proc_st where
  "demo_twin = proc_zero\<lparr>p_pid := 107, p_remote := demo_addr 7, p_username := ''alice'',
     p_config := Some (demo_group\<lparr>gc_max_same_clients := Some 1\<rparr>)\<rparr>"

definition demo_heap :: "nat \<Rightarrow> proc_st option" where
  "demo_heap = [0 \<mapsto> demo_twin, 1 \<mapsto> demo_twin]"

definition demo_table :: proc_hash_db_st where
  "demo_table = proc_table_init\<lparr>db_ip := [(4, 0), (4, 1)]\<rparr>"

lemma demo_twin_facts:
  "sa_ip (p_remote demo_twin) = [192, 0, 2, 7]" "sa_same_ip (p_remote demo_twin) (demo_addr 7)" "sa_len (demo_addr 7) \<noteq> 0"
  by code_simp+

lemma demo_table_ok: "tables_ok length demo_heap demo_table"
  by (auto simp: tables_ok_def tbl_inv_def demo_table_def proc_table_init_def demo_heap_def rehash_ip_def demo_twin_facts)

theorem search_ip_ignores_duplicates_witness:
  "\<exists>j q. proc_search_single_ip length demo_heap demo_table (demo_addr 7) = Some (Some j) \<and>
     demo_heap j = Some q \<and> local_ip_cmp (demo_addr 7) q"
  by (rule search_ip_ignores_duplicates [OF demo_table_ok, of 0 demo_twin])
    (simp_all add: demo_table_def demo_heap_def demo_twin_facts holds_def)

definition demo_twins :: "unit main_server_st" where
  "demo_twins = upd_stats (\<lambda>st. st\<lparr>st_active_clients := 2\<rparr>) (demo_main\<lparr>ms_heap := demo_heap, ms_procs := [1, 0], ms_next := 2\<rparr>)"

theorem same_user_limit_witness: "accept_user demo_unit_env 0 demo_twins = Some (-1, demo_twins)"
  by (rule same_user_limit [where p = demo_twin and mx = 1])
    (auto simp: demo_twins_def upd_stats_def procs_ok_def demo_heap_def demo_twin_def proc_zero_def)

theorem tun_mtu_null_deref_witness:
  "main_step (E_Cmd demo_unit_env 0 (demo_msg (CMD_TUN_MTU (Some 1400))))
     (snd (new_proc demo_unit_env 107 9 (demo_addr 7) (demo_addr 1) demo_main)) = None"
proof -
  let ?r = "new_proc demo_unit_env 107 9 (demo_addr 7) (demo_addr 1) demo_main"
  have "?r = (Some 0, snd ?r)"
    by (simp add: new_proc_def demo_unit_env_def demo_menv_def demo_main_def main_init_def Let_def)
  from tun_mtu_null_deref [OF this, of "demo_msg (CMD_TUN_MTU (Some 1400))" "Some 1400" demo_unit_env] show ?thesis
    by (simp add: demo_msg_def del: main_step.simps)
qed

definition demo_info :: session_info_msg where
  "demo_info = \<lparr>sm_tls_ciphersuite = None, sm_dtls_ciphersuite = None, sm_cstp_compr = None, sm_dtls_compr = None,
     sm_our_addr = None, sm_remote_addr = Some []\<rparr>"

theorem empty_address_null_deref_witness:
  "handle_session_info demo_unit_env 0 (Some demo_info)
     (demo_twins\<lparr>ms_vconfig := [\<lparr>mv_name = None, mv_config = demo_rc True, mv_static = demo_static, mv_usage = 0\<rparr>]\<rparr>) = None"
  by (rule empty_address_null_deref [where p = demo_twin])
    (simp_all add: demo_twins_def upd_stats_def demo_heap_def demo_info_def default_mvhost_def demo_rc_def demo_twin_def
      proc_zero_def demo_addr_def)

definition demo_hello :: bytes where
  "demo_hello = replicate 59 1 @ vec8 [] @ vec8 [] @ vec16 [192, 1] @ vec8 [0] @ be2 40 @ concat (map extension [(13, [0, 2, 4, 3])]) @
     be2 48018 @ be2 33 @ [of_nat 32]"

theorem client_hello_app_id_witness:
  "get_session_id True (demo_hello @ replicate 32 7 @ replicate 50 0) 120 = Some (Some (length demo_hello, 32))"
  using client_hello_app_id [of "replicate 59 1" "[]" "[]" "[192, 1]" "[0]" "[(13, [0, 2, 4, 3])]" "replicate 32 7" 120 demo_hello 40
      "replicate 50 0"]
  by (simp add: demo_hello_def) (simp add: vec8_def vec16_def be2_def extension_def)

end
