(* ===== verification/Sec_Props.thy ===== *)
theory Sec_Props
  imports Sec_Auth
begin

text \<open>
  Runs of the security module: the requests it serves, one after the other, each with
  the environment it meets, and the invariants of its session database.
\<close>

section \<open>The database as a table keyed by session id\<close>

interpretation sessions: keyed_table ce_sid "tbl_get ce_sid" htable_add "tbl_store ce_sid"
  "tbl_del ce_sid" htable_purge set "tbl_ok ce_sid"
  by (rule list_keyed_table)

abbreviation sec_ok :: "sec_mod_st \<Rightarrow> bool" where
  "sec_ok sec \<equiv> tbl_ok ce_sid (sec_db sec)"

lemma find_client_entry_tbl: "find_client_entry sec sid = tbl_get ce_sid sid (sec_db sec)"
  by (simp add: find_client_entry_def tbl_get_def client_entry_cmp_def [abs_def])

lemma store_entry_tbl: "store_entry e sec = sec\<lparr>sec_db := tbl_store ce_sid e (sec_db sec)\<rparr>"
  by (simp add: store_entry_def tbl_store_def client_entry_cmp_def [abs_def])

lemma del_client_entry_tbl:
  "del_client_entry e sec = (sec\<lparr>sec_db := tbl_del ce_sid (ce_sid e) (sec_db sec)\<rparr>,
     sec_auth_user_deinit sec e False)"
  by (simp add: del_client_entry_def tbl_del_def client_entry_cmp_def [abs_def])

lemma find_store [table_simps]:
  "sec_ok sec \<Longrightarrow> find_client_entry (store_entry e sec) sid =
     (if sid = ce_sid e \<and> find_client_entry sec sid \<noteq> None then Some e else find_client_entry sec sid)"
  by (cases "tbl_get ce_sid (ce_sid e) (sec_db sec)")
    (auto simp: find_client_entry_tbl store_entry_tbl sessions.get_store tbl_store_absent)

lemma store_entry_ok [table_simps]: "sec_ok sec \<Longrightarrow> sec_ok (store_entry e sec)"
  by (simp add: store_entry_tbl sessions.store_ok)

lemma store_entry_fields [simp]:
  "sec_vconfig (store_entry e sec) = sec_vconfig sec" "sec_index (store_entry e sec) = sec_index sec"
  by (simp_all add: store_entry_tbl)

lemma find_sid: "find_client_entry sec sid = Some e \<Longrightarrow> ce_sid e = sid \<and> e \<in> set (sec_db sec)"
  by (auto simp: find_client_entry_tbl dest: tbl_get_SomeD)

lemma find_mem: "sec_ok sec \<Longrightarrow> e \<in> set (sec_db sec) \<longleftrightarrow> find_client_entry sec (ce_sid e) = Some e"
  by (auto simp: find_client_entry_tbl sessions.get_iff)

section \<open>What a round of authentication does to its entry\<close>

text \<open>The fields that identify a session and count its use: no authentication round touches them.\<close>

definition ce_core :: "client_entry_st \<Rightarrow>
    bytes \<times> nat \<times> bool \<times> time_t \<times> time_t \<times> stats_st \<times> stats_st \<times> nat \<times> u32 \<times> bool \<times> string option" where
  "ce_core e = (ce_sid e, ce_in_use e, ce_session_is_open e, ce_created e, ce_exptime e,
     ce_saved_stats e, ce_stats e, ce_discon_reason e, ce_auth_type e, ce_tls_auth_ok e, ce_vhost e)"

text \<open>The parts of the module state that no request changes.\<close>

definition sec_static :: "sec_mod_st \<Rightarrow> vhost_cfg_st list \<times> nat" where
  "sec_static sec = (sec_vconfig sec, sec_index sec)"

lemma check_cert_core: "check_cert_user_group_status sec e = Some e' \<Longrightarrow> ce_core e' = ce_core e"
  by (auto simp: check_cert_user_group_status_def Let_def ce_core_def split: if_splits)

lemma check_cert_tls:
  "check_cert_user_group_status sec e = Some e' \<Longrightarrow> ce_auth_type e AND AUTH_TYPE_CERTIFICATE \<noteq> 0
    \<Longrightarrow> ce_tls_auth_ok e"
  by (auto simp: check_cert_user_group_status_def Let_def split: if_splits)

lemma group_core [simp]:
  "ce_core (module_group env e) = ce_core e" "ce_core (cert_group sec e) = ce_core e"
  "ai_id (ce_acct (module_group env e)) = ai_id (ce_acct e)" "ai_id (ce_acct (cert_group sec e)) = ai_id (ce_acct e)"
  "ce_module (module_group env e) = ce_module e" "ce_module (cert_group sec e) = ce_module e"
  by (simp_all add: module_group_def cert_group_def ce_core_def)

lemma group_tls [simp]:
  "ce_auth_type (module_group env e) = ce_auth_type e" "ce_auth_type (cert_group sec e) = ce_auth_type e"
  "ce_tls_auth_ok (module_group env e) = ce_tls_auth_ok e" "ce_tls_auth_ok (cert_group sec e) = ce_tls_auth_ok e"
  by (simp_all add: module_group_def cert_group_def)

lemma check_group_core: "check_group env sec e = Some e' \<Longrightarrow> ce_core e' = ce_core e"
  by (auto simp: check_group_def Let_def dest!: check_cert_core split: if_splits)

lemma check_group_tls:
  "check_group env sec e = Some e' \<Longrightarrow> ce_auth_type e AND AUTH_TYPE_CERTIFICATE \<noteq> 0 \<Longrightarrow> ce_tls_auth_ok e"
  by (auto simp: check_group_def Let_def dest!: check_cert_tls split: if_splits)

lemma check_group_left_rest [simp]:
  "ce_core (check_group_left env sec e) = ce_core e"
  "ai_id (ce_acct (check_group_left env sec e)) = ai_id (ce_acct e)"
  "ce_module (check_group_left env sec e) = ce_module e"
  by (simp_all add: check_group_left_def Let_def)

lemma send_reply_simps [simp]:
  "sec_db (update_auth_time_stats secs sec) = sec_db sec"
  "sec_static (update_auth_time_stats secs sec) = sec_static sec"
  by (simp_all add: update_auth_time_stats_def Let_def sec_static_def)

text \<open>
  One round stores a new version of its entry.  The version is complete only if the round
  succeeded, was not preceded by a failure, passed the certificate checks and was announced
  to the worker.
\<close>

definition auth_round ::
  "client_entry_st \<Rightarrow> int \<Rightarrow> client_entry_st \<Rightarrow> sec_out list \<Rightarrow> bool" where
  "auth_round e result e' outs \<longleftrightarrow>
     ce_core e' = ce_core e \<and> ai_id (ce_acct e') = ai_id (ce_acct e) \<and> ce_module e' = ce_module e \<and>
     (ce_status e' = PS_AUTH_FAILED \<or>
      (result = ERR_AUTH_CONTINUE \<and> ce_status e' = ce_status e) \<or>
      (result = 0 \<and> ce_status e \<noteq> PS_AUTH_FAILED \<and> ce_status e' = PS_AUTH_COMPLETED \<and>
       (ce_auth_type e AND AUTH_TYPE_CERTIFICATE \<noteq> 0 \<longrightarrow> ce_tls_auth_ok e) \<and>
       (\<exists>u m. OutAuthOk (ce_sid e) u m \<in> set outs))) \<and>
     (\<forall>sid u m. OutAuthOk sid u m \<in> set outs \<longrightarrow>
        sid = ce_sid e \<and> result = 0 \<and> ce_status e' = PS_AUTH_COMPLETED) \<and>
     (\<forall>r. OutSessionOk r \<notin> set outs)"

definition stores_version ::
  "sec_mod_st \<Rightarrow> client_entry_st \<Rightarrow> int \<Rightarrow> sec_res \<Rightarrow> bool" where
  "stores_version sec e result res \<longleftrightarrow>
     (\<exists>e' secm. fst (snd res) = store_entry e' secm \<and> sec_db secm = sec_db sec \<and>
        sec_static secm = sec_static sec \<and> auth_round e result e' (snd (snd res)))"

lemma stores_versionI:
  "fst (snd res) = store_entry e' secm \<Longrightarrow> sec_db secm = sec_db sec \<Longrightarrow> sec_static secm = sec_static sec
    \<Longrightarrow> auth_round e result e' (snd (snd res)) \<Longrightarrow> stores_version sec e result res"
  unfolding stores_version_def by blast

lemma add_score_out: "x \<in> set (sec_mod_add_score_to_ip env sec e ip pts) \<Longrightarrow> \<exists>a b c. x = OutBanIp a b c"
  by (auto simp: sec_mod_add_score_to_ip_def split: if_splits)

lemma ce_core_upd [simp]:
  "ce_core (e\<lparr>ce_status := s\<rparr>) = ce_core e" "ce_core (e\<lparr>ce_msg_str := t\<rparr>) = ce_core e"
  "ce_core (e\<lparr>ce_passwd_counter := n\<rparr>) = ce_core e" "ce_core (e\<lparr>ce_acct := a\<rparr>) = ce_core e"
  by (simp_all add: ce_core_def)

lemma auth_res_continue_shape:
  "stores_version sec e ERR_AUTH_CONTINUE (auth_res_continue env e b sec)"
  unfolding auth_res_continue_def send_sec_auth_reply_msg_def Let_def
  by (rule stores_versionI [where secm = sec and
        e' = "if sv_send env < 0 then e\<lparr>ce_msg_str := None, ce_status := PS_AUTH_FAILED\<rparr>
              else e\<lparr>ce_msg_str := None\<rparr>"])
    (auto simp: auth_round_def dest: add_score_out)

lemma auth_res_failure_shape:
  "result \<noteq> 0 \<or> ce_status e = PS_AUTH_FAILED \<Longrightarrow> stores_version sec e result (auth_res_failure env e result sec)"
  unfolding auth_res_failure_def send_sec_auth_reply_def Let_def
  by (rule stores_versionI [where secm = "sec\<lparr>sec_auth_failures := sec_auth_failures sec + 1\<rparr>" and
        e' = "if sv_send env < 0 then e\<lparr>ce_status := PS_AUTH_FAILED\<rparr>
              else e\<lparr>ce_status := PS_AUTH_FAILED, ce_msg_str := None\<rparr>"])
    (auto simp: auth_round_def sec_static_def dest: add_score_out)

lemma check_cert_rest:
  "check_cert_user_group_status sec e = Some e'
    \<Longrightarrow> ai_id (ce_acct e') = ai_id (ce_acct e) \<and> ce_module e' = ce_module e"
  by (auto simp: check_cert_user_group_status_def Let_def split: if_splits)

lemma check_group_rest:
  "check_group env sec e = Some e' \<Longrightarrow> ai_id (ce_acct e') = ai_id (ce_acct e) \<and> ce_module e' = ce_module e"
  by (auto simp: check_group_def Let_def dest!: check_cert_rest split: if_splits)

lemma auth_res_success_shape:
  assumes "ce_status e \<noteq> PS_AUTH_FAILED"
  shows "stores_version sec e 0 (auth_res_success env e sec)"
proof (cases "check_group env sec e")
  case None
  then show ?thesis
    by (intro stores_versionI [where secm = sec and e' = "(check_group_left env sec e)\<lparr>ce_status := PS_AUTH_FAILED\<rparr>"])
      (simp_all add: auth_res_success_def auth_round_def)
next
  case (Some e1)
  let ?e2 = "e1\<lparr>ce_status := PS_AUTH_COMPLETED\<rparr>"
  let ?e3 = "case (ce_module ?e2, cb_auth_user env) of
      (Some _, Some u) \<Rightarrow> ?e2\<lparr>ce_acct := (ce_acct ?e2)\<lparr>ai_username := strlcpy 128 u\<rparr>\<rparr> | _ \<Rightarrow> ?e2"
  let ?sec1 = "update_auth_time_stats (sv_now2 env - ce_created ?e3) sec"
  have core: "ce_core ?e3 = ce_core e" "ai_id (ce_acct ?e3) = ai_id (ce_acct e)" "ce_module ?e3 = ce_module e"
      "ce_status ?e3 = PS_AUTH_COMPLETED"
    using check_group_core [OF Some] check_group_rest [OF Some] by (auto split: option.split)
  then have sid: "ce_sid ?e3 = ce_sid e" by (simp add: ce_core_def)
  have "auth_res_success env e sec =
      (if sv_send env < 0 then (sv_send env, store_entry (?e3\<lparr>ce_status := PS_AUTH_FAILED\<rparr>) ?sec1, [])
       else (0, store_entry (?e3\<lparr>ce_msg_str := None\<rparr>) ?sec1,
             [OutAuthOk (ce_sid ?e3) (ai_username (ce_acct ?e3)) (ce_msg_str ?e3)]))"
    using Some by (simp add: auth_res_success_def send_sec_auth_reply_def Let_def)
  then show ?thesis
    using core sid assms check_group_tls [OF Some]
    by (intro stores_versionI [where secm = ?sec1 and
          e' = "if sv_send env < 0 then ?e3\<lparr>ce_status := PS_AUTH_FAILED\<rparr> else ?e3\<lparr>ce_msg_str := None\<rparr>"])
      (simp_all add: auth_round_def)
qed

lemma auth_res_msg_Inr:
  "auth_res_msg env e result = Inr (e1, b) \<Longrightarrow>
     ce_core e1 = ce_core e \<and> ce_acct e1 = ce_acct e \<and> ce_module e1 = ce_module e \<and> ce_status e1 = ce_status e"
  by (auto simp: auth_res_msg_def split: if_splits prod.splits)

lemma stores_version_cong:
  assumes "stores_version sec e1 result res" "ce_core e1 = ce_core e" "ce_acct e1 = ce_acct e"
    "ce_module e1 = ce_module e" "ce_status e1 = ce_status e"
  shows "stores_version sec e result res"
proof -
  have "auth_round e1 result e' outs = auth_round e result e' outs" for e' outs
    using assms(2-) by (simp add: auth_round_def ce_core_def)
  then show ?thesis using assms(1) by (simp add: stores_version_def)
qed

lemma handle_sec_auth_res_shape: "stores_version sec e result (handle_sec_auth_res env e result sec)"
proof (cases "auth_res_msg env e result")
  case (Inl ret)
  then show ?thesis
    by (intro stores_versionI [where secm = sec and e' = "e\<lparr>ce_status := PS_AUTH_FAILED\<rparr>"])
      (simp_all add: handle_sec_auth_res_def auth_round_def)
next
  case (Inr p)
  then obtain e1 b where p: "auth_res_msg env e result = Inr (e1, b)" by (cases p) auto
  note same = auth_res_msg_Inr [OF p]
  have "stores_version sec e1 result (handle_sec_auth_res env e result sec)"
    using p auth_res_continue_shape [of sec e1 env b] auth_res_success_shape [of e1 sec env]
      auth_res_failure_shape [of result e1 sec env]
    by (auto simp: handle_sec_auth_res_def)
  then show ?thesis using same by (auto intro: stores_version_cong)
qed

section \<open>Steps of the module\<close>

datatype sec_op =
    OpAuthInit auth_init_req nat
  | OpAuthCont bytes "string option"
  | OpSessionOpen bytes "string option" "string option"
  | OpSessionClose session_close_req
  | OpBanReply bytes bool
  | OpStats cli_stats_req nat
  | OpTermUser "string option"
  | OpTermSession "string option"
  | OpCleanup

fun sec_step :: "sec_env \<Rightarrow> sec_op \<Rightarrow> sec_mod_st \<Rightarrow> sec_mod_st \<times> sec_out list" where
  "sec_step env (OpAuthInit req pid) sec = snd (handle_sec_auth_init env req pid sec)"
| "sec_step env (OpAuthCont sid pass) sec = snd (handle_sec_auth_cont env sid pass sec)"
| "sec_step env (OpSessionOpen sid ip4 ip6) sec = snd (handle_secm_session_open_cmd env sid ip4 ip6 sec)"
| "sec_step env (OpSessionClose req) sec = snd (handle_secm_session_close_cmd env req sec)"
| "sec_step env (OpBanReply sid ok) sec = (handle_sec_auth_ban_ip_reply sid ok sec, [])"
| "sec_step env (OpStats req pid) sec = snd (handle_sec_auth_stats_cmd env req pid sec)"
| "sec_step env (OpTermUser u) sec = snd (terminate_user_sessions u sec)"
| "sec_step env (OpTermSession i) sec = snd (terminate_session_by_sid i sec)"
| "sec_step env OpCleanup sec = cleanup_client_entries (sv_now env) sec"

fun sec_exec :: "(sec_env \<times> sec_op) list \<Rightarrow> sec_mod_st \<Rightarrow> sec_mod_st \<times> sec_out list" where
  "sec_exec [] sec = (sec, [])"
| "sec_exec ((env, op) # ops) sec =
     (case sec_step env op sec of (sec1, out1) \<Rightarrow>
        case sec_exec ops sec1 of (sec2, out2) \<Rightarrow> (sec2, out1 @ out2))"

text \<open>The session ids a step may hand out, and the administrative terminations.\<close>

definition fresh_sids :: "nat \<Rightarrow> sec_env \<Rightarrow> bytes set" where
  "fresh_sids idx env = {sec_mod_instance_index_put r idx | r. Some r \<in> set (sv_sids env)}"

fun is_term :: "sec_op \<Rightarrow> bool" where
  "is_term (OpTermUser u) = True"
| "is_term (OpTermSession i) = True"
| "is_term _ = False"

text \<open>How one entry may change in one step, and what a new entry looks like after it.\<close>

definition announced :: "client_entry_st \<Rightarrow> sec_out list \<Rightarrow> bool" where
  "announced e outs \<longleftrightarrow> (\<exists>u m. OutAuthOk (ce_sid e) u m \<in> set outs) \<and>
     (ce_auth_type e AND AUTH_TYPE_CERTIFICATE \<noteq> 0 \<longrightarrow> ce_tls_auth_ok e)"

definition entry_step :: "client_entry_st \<Rightarrow> client_entry_st \<Rightarrow> sec_out list \<Rightarrow> bool" where
  "entry_step e e' outs \<longleftrightarrow>
     ce_sid e' = ce_sid e \<and> ce_auth_type e' = ce_auth_type e \<and> ce_tls_auth_ok e' = ce_tls_auth_ok e \<and>
     (ce_status e = PS_AUTH_FAILED \<longrightarrow> ce_status e' = PS_AUTH_FAILED \<and> ce_in_use e' = ce_in_use e) \<and>
     (ce_status e' = PS_AUTH_COMPLETED \<longrightarrow> ce_status e = PS_AUTH_COMPLETED \<or> announced e' outs)"

definition entry_new :: "client_entry_st \<Rightarrow> sec_out list \<Rightarrow> bool" where
  "entry_new e' outs \<longleftrightarrow> (ce_status e' = PS_AUTH_COMPLETED \<longrightarrow> announced e' outs)"

definition outs_ok :: "bytes set \<Rightarrow> sec_mod_st \<Rightarrow> sec_out list \<Rightarrow> bool" where
  "outs_ok F sec outs \<longleftrightarrow>
     (\<forall>rep. OutSessionOk rep \<in> set outs \<longrightarrow>
        (\<exists>e. find_client_entry sec (sr_sid rep) = Some e \<and> ce_status e = PS_AUTH_COMPLETED)) \<and>
     (\<forall>sid u m. OutAuthOk sid u m \<in> set outs \<longrightarrow>
        sid \<in> F \<or> (\<exists>e. find_client_entry sec sid = Some e \<and> ce_status e \<noteq> PS_AUTH_FAILED))"

definition sec_trans :: "bool \<Rightarrow> bytes set \<Rightarrow> sec_mod_st \<Rightarrow> sec_mod_st \<times> sec_out list \<Rightarrow> bool" where
  "sec_trans forced F sec res \<longleftrightarrow>
     sec_ok (fst res) \<and> sec_static (fst res) = sec_static sec \<and>
     (\<forall>sid e'. find_client_entry (fst res) sid = Some e' \<longrightarrow>
        (\<exists>e. find_client_entry sec sid = Some e \<and> entry_step e e' (snd res)) \<or>
        (sid \<in> F \<and> entry_new e' (snd res))) \<and>
     (\<forall>sid e. find_client_entry sec sid = Some e \<and> find_client_entry (fst res) sid = None \<longrightarrow>
        forced \<or> ce_in_use e = 0 \<or> ce_status e = PS_AUTH_COMPLETED) \<and>
     outs_ok F sec (snd res)"

lemma sec_trans_entry:
  "sec_trans forced F sec res \<Longrightarrow> find_client_entry (fst res) sid = Some e' \<Longrightarrow> sid \<notin> F
    \<Longrightarrow> \<exists>e. find_client_entry sec sid = Some e \<and> entry_step e e' (snd res)"
  unfolding sec_trans_def by blast

lemma sec_trans_gone:
  "sec_trans forced F sec res \<Longrightarrow> find_client_entry sec sid = Some e \<Longrightarrow> find_client_entry (fst res) sid = None
    \<Longrightarrow> forced \<or> ce_in_use e = 0 \<or> ce_status e = PS_AUTH_COMPLETED"
  unfolding sec_trans_def by blast

lemma sec_trans_session:
  "sec_trans forced F sec res \<Longrightarrow> OutSessionOk rep \<in> set (snd res)
    \<Longrightarrow> \<exists>e. find_client_entry sec (sr_sid rep) = Some e \<and> ce_status e = PS_AUTH_COMPLETED"
  unfolding sec_trans_def outs_ok_def by blast

lemma sec_trans_auth:
  "sec_trans forced F sec res \<Longrightarrow> OutAuthOk sid u m \<in> set (snd res)
    \<Longrightarrow> sid \<in> F \<or> (\<exists>e. find_client_entry sec sid = Some e \<and> ce_status e \<noteq> PS_AUTH_FAILED)"
  unfolding sec_trans_def outs_ok_def by blast

lemma entry_step_refl [simp]: "entry_step e e outs"
  by (simp add: entry_step_def)

lemma trans_id: "sec_ok sec \<Longrightarrow> outs_ok F sec outs \<Longrightarrow> sec_trans forced F sec (sec, outs)"
  by (auto simp: sec_trans_def)

lemma trans_store:
  assumes "sec_ok sec" "sec_db secm = sec_db sec" "sec_static secm = sec_static sec"
    and "find_client_entry sec (ce_sid e') = Some e" "entry_step e e' outs" "outs_ok F sec outs"
  shows "sec_trans forced F sec (store_entry e' secm, outs)"
proof -
  have same: "find_client_entry secm = find_client_entry sec" "sec_ok secm"
    using assms(1,2) by (simp_all add: find_client_entry_def fun_eq_iff)
  show ?thesis
    using assms same by (auto simp: sec_trans_def find_store store_entry_ok sec_static_def)
qed

lemma outs_ok_quiet:
  "(\<forall>x \<in> set outs. \<forall>r. x \<noteq> OutSessionOk r) \<Longrightarrow> (\<forall>x \<in> set outs. \<forall>s u m. x \<noteq> OutAuthOk s u m)
    \<Longrightarrow> outs_ok F sec outs"
  by (auto simp: outs_ok_def)

section \<open>Every request is a step\<close>

lemma auth_round_step:
  assumes "auth_round e0 result e' outs" "ce_core e0 = ce_core e"
    and "ce_status e = PS_AUTH_FAILED \<Longrightarrow> result \<noteq> 0 \<and> result \<noteq> ERR_AUTH_CONTINUE"
    and "ce_status e0 \<noteq> PS_AUTH_COMPLETED \<or> result \<noteq> ERR_AUTH_CONTINUE"
  shows "entry_step e e' outs"
  using assms unfolding auth_round_def entry_step_def announced_def ce_core_def by auto

lemma auth_round_outs:
  assumes "auth_round e0 result e' outs" "find_client_entry sec (ce_sid e0) = Some e"
    and "result = 0 \<Longrightarrow> ce_status e \<noteq> PS_AUTH_FAILED"
  shows "outs_ok F sec outs"
  using assms unfolding auth_round_def outs_ok_def by auto

lemma trans_auth_round:
  assumes "stores_version sec e0 result res" "sec_ok sec" "find_client_entry sec (ce_sid e0) = Some e"
    and "ce_core e0 = ce_core e"
    and "ce_status e = PS_AUTH_FAILED \<Longrightarrow> result \<noteq> 0 \<and> result \<noteq> ERR_AUTH_CONTINUE"
    and "ce_status e0 \<noteq> PS_AUTH_COMPLETED \<or> result \<noteq> ERR_AUTH_CONTINUE"
  shows "sec_trans forced F sec (snd res)"
proof -
  obtain e' secm where v: "fst (snd res) = store_entry e' secm" "sec_db secm = sec_db sec"
      "sec_static secm = sec_static sec" "auth_round e0 result e' (snd (snd res))"
    using assms(1) by (auto simp: stores_version_def)
  then have "ce_sid e' = ce_sid e0" by (simp add: auth_round_def ce_core_def)
  then have "sec_trans forced F sec (store_entry e' secm, snd (snd res))"
    using v assms(2-) auth_round_step [OF v(4) assms(4-6)] auth_round_outs [OF v(4) assms(3)]
    by (intro trans_store) auto
  then show ?thesis using v(1) by (metis prod.collapse)
qed

lemma trans_auth_cont: "sec_ok sec \<Longrightarrow> sec_trans forced F sec (snd (handle_sec_auth_cont env sid pass sec))"
proof (cases "length sid = SID_SIZE")
  case True
  assume ok: "sec_ok sec"
  show ?thesis
  proof (cases "find_client_entry sec sid")
    case (Some e)
    have sid: "ce_sid e = sid" using find_sid [OF Some] by simp
    let ?go = "(ce_status e = PS_AUTH_INIT \<or> ce_status e = PS_AUTH_CONT) \<and> pass \<noteq> None \<and> ce_module e \<noteq> None"
    have "handle_sec_auth_cont env sid pass sec =
        (if ?go then handle_sec_auth_res env (e\<lparr>ce_status := PS_AUTH_CONT\<rparr>) (cb_auth_pass env) sec
         else handle_sec_auth_res env e (-1) sec)"
      using True Some by (simp add: handle_sec_auth_cont_def)
    then show ?thesis
      using ok Some sid
      by (cases ?go) (auto intro!: trans_auth_round [OF handle_sec_auth_res_shape])
  qed (simp add: True handle_sec_auth_cont_def trans_id outs_ok_def ok)
qed (simp add: handle_sec_auth_cont_def trans_id outs_ok_def)

lemma failed_reply_out: "send_failed_session_open_reply env = (r, out) \<Longrightarrow> set out \<subseteq> {OutSessionFailed}"
  by (auto simp: send_failed_session_open_reply_def split: if_splits)

lemma trans_session_open_finish:
  assumes "sec_ok sec" "find_client_entry sec (ce_sid e1) = Some e" "ce_status e = PS_AUTH_COMPLETED"
    and "entry_step e e1 []" "ce_sid e1 = ce_sid e" "out0 = [] \<or> out0 = [OutAcctOpen x]"
  shows "sec_trans forced F sec (snd (session_open_finish env e1 sec out0))"
proof -
  have step: "entry_step e (e1\<lparr>ce_discon_reason := 0, ce_exptime := t, ce_in_use := n\<rparr>) outs"
      "entry_step e e1 outs" for t n outs
    using assms(3,4) by (auto simp: entry_step_def)
  have outs: "outs_ok F sec (out0 @ [OutSessionOk (session_open_reply env e1 sd)])" for sd
    using assms by (auto simp: outs_ok_def session_open_reply_def)
  have quiet: "outs_ok F sec out0" using assms(6) by (auto simp: outs_ok_def)
  have fail: "outs_ok F sec (out0 @ out)" if "send_failed_session_open_reply env = (r, out)" for r out
    using failed_reply_out [OF that] assms(6) by (intro outs_ok_quiet) auto
  show ?thesis
    unfolding session_open_finish_def Let_def
    using assms(1,2) step outs quiet fail
    by (auto split: option.split prod.split intro!: trans_store [where e = e])
qed

lemma trans_session_open:
  "sec_ok sec \<Longrightarrow> sec_trans forced F sec (snd (handle_secm_session_open_cmd env sid ip4 ip6 sec))"
proof -
  assume ok: "sec_ok sec"
  obtain fret fout where f: "send_failed_session_open_reply env = (fret, fout)" by fastforce
  have fquiet: "outs_ok F sec fout" using failed_reply_out [OF f] by (intro outs_ok_quiet) auto
  show ?thesis
  proof (cases "length sid = SID_SIZE \<and> sec_mod_instance_index_get sid = sec_index sec")
    case cond: True
    show ?thesis
    proof (cases "find_client_entry sec sid")
      case (Some e)
      then have sid: "ce_sid e = sid" using find_sid by blast
      show ?thesis
      proof (cases "ce_status e = PS_AUTH_COMPLETED")
        case True
        have step: "entry_step e (e\<lparr>ce_status := PS_AUTH_FAILED\<rparr>) fout"
            "entry_step e (e\<lparr>ce_acct := a, ce_status := PS_AUTH_FAILED\<rparr>) fout"
            "entry_step e (e\<lparr>ce_acct := a, ce_session_is_open := True\<rparr>) []" for a
          using True by (simp_all add: entry_step_def)
        show ?thesis
          using ok cond Some sid f True fquiet step
          by (auto simp: handle_secm_session_open_cmd_def Let_def
              intro!: trans_store [where e = e] trans_session_open_finish [where e = e])
      qed (simp add: cond Some f handle_secm_session_open_cmd_def trans_id ok fquiet)
    qed (simp add: cond f handle_secm_session_open_cmd_def trans_id ok fquiet)
  qed (auto simp: f handle_secm_session_open_cmd_def trans_id ok fquiet)
qed

lemma trans_ban_reply: "sec_ok sec \<Longrightarrow> sec_trans forced F sec (handle_sec_auth_ban_ip_reply sid ok sec, [])"
proof (cases "find_client_entry sec sid")
  case (Some e)
  moreover from this have "ce_sid e = sid" using find_sid by blast
  moreover assume "sec_ok sec"
  ultimately show ?thesis
    by (auto simp: handle_sec_auth_ban_ip_reply_def entry_step_def outs_ok_def
        intro!: trans_id trans_store [where e = e])
qed (auto simp: handle_sec_auth_ban_ip_reply_def outs_ok_def intro!: trans_id)

lemma trans_stats: "sec_ok sec \<Longrightarrow> sec_trans forced F sec (snd (handle_sec_auth_stats_cmd env req pid sec))"
proof (cases "find_client_entry sec (st_sid req)")
  case (Some e)
  moreover from this have "ce_sid e = st_sid req" using find_sid by blast
  moreover assume "sec_ok sec"
  ultimately show ?thesis
    by (auto simp: handle_sec_auth_stats_cmd_def Let_def entry_step_def outs_ok_def
        intro!: trans_id trans_store [where e = e])
qed (auto simp: handle_sec_auth_stats_cmd_def outs_ok_def intro!: trans_id)

lemma deinit_quiet:
  "x \<in> set (sec_auth_user_deinit sec e b) \<Longrightarrow> (\<exists>s t r c. x = OutAcctClose s t r c) \<or> (\<exists>s. x = OutAuthDeinit s)"
  by (auto simp: sec_auth_user_deinit_def split: option.splits if_splits)

lemma deinit_outs_ok: "outs_ok F sec (concat (map (\<lambda>t. sec_auth_user_deinit sec' t b) ts))"
  by (rule outs_ok_quiet) (auto dest: deinit_quiet)

lemma trans_purge:
  assumes "sec_ok sec"
    and "\<And>e. e \<in> set (sec_db sec) \<Longrightarrow> p e \<Longrightarrow> forced \<or> ce_in_use e = 0 \<or> ce_status e = PS_AUTH_COMPLETED"
    and "outs_ok F sec outs"
  shows "sec_trans forced F sec (sec\<lparr>sec_db := htable_purge p (sec_db sec)\<rparr>, outs)"
proof -
  let ?sec = "sec\<lparr>sec_db := htable_purge p (sec_db sec)\<rparr>"
  have find: "find_client_entry ?sec sid =
      (case find_client_entry sec sid of None \<Rightarrow> None | Some e \<Rightarrow> if p e then None else Some e)" for sid
    using assms(1) by (simp add: find_client_entry_tbl sessions.get_purge)
  then show ?thesis
    using assms sessions.purge_ok [OF assms(1)]
    by (auto simp: sec_trans_def sec_static_def split: option.splits if_splits dest: find_sid)
qed

lemma trans_cleanup: "sec_ok sec \<Longrightarrow> sec_trans forced F sec (cleanup_client_entries now sec)"
  unfolding cleanup_client_entries_def
  by (rule trans_purge) (auto simp: IS_CLIENT_ENTRY_EXPIRED_def deinit_outs_ok)

lemma trans_term_user: "sec_ok sec \<Longrightarrow> sec_trans True F sec (snd (terminate_user_sessions u sec))"
  by (auto simp: terminate_user_sessions_def Let_def outs_ok_def [of _ _ "[]"] deinit_outs_ok
      split: option.split intro!: trans_id trans_purge)

lemma htable_del_first:
  "tbl_ok ce_sid db \<Longrightarrow> find p db = Some t \<Longrightarrow> htable_del p db = htable_purge (\<lambda>e. ce_sid e = ce_sid t) db"
proof (induction db)
  case (Cons x xs)
  show ?case
  proof (cases "p x")
    case True
    with Cons.prems have "x = t" "\<forall>y \<in> set xs. ce_sid y \<noteq> ce_sid t" by (auto simp: table_simps)
    then show ?thesis using True by (simp add: htable_purge_def filter_id_conv)
  next
    case False
    with Cons.prems have "t \<in> set xs" "find p xs = Some t" by (auto simp: find_Some_iff)
    then have "ce_sid x \<noteq> ce_sid t" using Cons.prems by (auto simp: table_simps)
    then show ?thesis
      using False Cons by (simp add: table_simps htable_purge_def)
  qed
qed simp

lemma trans_term_session: "sec_ok sec \<Longrightarrow> sec_trans True F sec (snd (terminate_session_by_sid i sec))"
  using deinit_outs_ok [of F sec sec False "[t]" for t]
  by (auto simp: terminate_session_by_sid_def Let_def outs_ok_def [of _ _ "[]"] htable_del_first
      split: option.split intro!: trans_id trans_purge)

lemma trans_expire:
  assumes "sec_ok sec" "find_client_entry sec (ce_sid e2) = Some e" "ce_status e = PS_AUTH_COMPLETED"
    and "entry_step e e2 []" "ce_status e2 = PS_AUTH_COMPLETED" "ce_sid e2 = ce_sid e"
  shows "sec_trans forced F sec
    (case expire_client_entry now e2 (store_entry e2 sec) of (sec', out) \<Rightarrow> (sec', OutCliStats a b c # out))"
proof -
  have step: "entry_step e (e2\<lparr>ce_in_use := n, ce_exptime := t, ce_acct := ac\<rparr>) outs"
      "entry_step e (e2\<lparr>ce_exptime := t, ce_acct := ac\<rparr>) outs"
      "entry_step e (e2\<lparr>ce_in_use := n\<rparr>) outs" "entry_step e e2 outs" for n t ac outs
    using assms(3,4) by (auto simp: entry_step_def)
  have twice: "store_entry e3 (store_entry e2 sec) = store_entry e3 sec" if "ce_sid e3 = ce_sid e" for e3
    using that assms(6) by (simp add: store_entry_tbl tbl_store_twice)
  have kept: "sec_trans forced F sec (store_entry e3 (store_entry e2 sec), [OutCliStats a b c])"
    if "entry_step e e3 [OutCliStats a b c]" "ce_sid e3 = ce_sid e" for e3
    using that assms by (subst twice) (auto simp: outs_ok_def intro!: trans_store [where e = e])
  have del: "sec_trans forced F sec
      (case del_client_entry e1 (store_entry e2 sec) of (sec', out) \<Rightarrow> (sec', OutCliStats a b c # out))"
    if "ce_sid e1 = ce_sid e" for e1
  proof -
    have "outs_ok F sec (OutCliStats a b c # sec_auth_user_deinit (store_entry e2 sec) e1 False)"
      by (rule outs_ok_quiet) (auto dest: deinit_quiet)
    moreover have "tbl_del ce_sid (ce_sid e1) (tbl_store ce_sid e2 (sec_db sec)) =
        htable_purge (\<lambda>x. ce_sid x = ce_sid e) (sec_db sec)"
      using that assms(1,6) by (simp add: tbl_del_store tbl_del_purge)
    moreover have "x = e" if "x \<in> set (sec_db sec)" "ce_sid x = ce_sid e" for x
      using that assms(1,2,6) find_mem [OF assms(1)] by auto
    ultimately show ?thesis
      using that assms by (auto simp: del_client_entry_tbl store_entry_tbl intro!: trans_purge)
  qed
  show ?thesis
    unfolding expire_client_entry_def Let_def
    using kept del step assms(6) by (auto split: prod.split simp del: split_paired_All)
qed

lemma trans_session_close: "sec_ok sec \<Longrightarrow> sec_trans forced F sec (snd (handle_secm_session_close_cmd env req sec))"
proof (cases "find_client_entry sec (cr_sid req)")
  case (Some e)
  assume ok: "sec_ok sec"
  have sid: "ce_sid e = cr_sid req" using find_sid [OF Some] by simp
  have quiet: "outs_ok F sec [OutCliStats a b c]" "outs_ok F sec []" for a b c by (simp_all add: outs_ok_def)
  show ?thesis
  proof (cases "ce_status e = PS_AUTH_COMPLETED")
    case True
    let ?e1 = "e\<lparr>ce_acct := (ce_acct e)\<lparr>ai_uptime := sv_now env - ce_created e\<rparr>,
        ce_stats := \<lparr>bytes_in = raise_to (cr_bytes_in req) (bytes_in (ce_stats e)),
                     bytes_out = raise_to (cr_bytes_out req) (bytes_out (ce_stats e))\<rparr>,
        ce_discon_reason := (if cr_server_disconnected req then REASON_SERVER_DISCONNECT
                             else ce_discon_reason e)\<rparr>"
    let ?e2 = "?e1\<lparr>ce_saved_stats := stats_add_to (ce_saved_stats ?e1) (ce_stats ?e1), ce_stats := stats_zero\<rparr>"
    have step: "entry_step e ?e1 outs" "entry_step e ?e2 outs" for outs
      using True by (simp_all add: entry_step_def)
    have "snd (handle_secm_session_close_cmd env req sec) =
       (if length (cr_sid req) \<noteq> SID_SIZE then (sec, [])
        else if sv_send env < 0 then (store_entry ?e1 sec, [])
        else case expire_client_entry (sv_now2 env) ?e2 (store_entry ?e2 sec) of (sec', out) \<Rightarrow>
          (sec', OutCliStats (bytes_in (ce_stats ?e1)) (bytes_out (ce_stats ?e1))
                   (Some (ce_discon_reason ?e1)) # out))"
      using Some True by (simp add: handle_secm_session_close_cmd_def Let_def split: prod.split)
    moreover have "sec_trans forced F sec
        (case expire_client_entry (sv_now2 env) ?e2 (store_entry ?e2 sec) of (sec', out) \<Rightarrow>
          (sec', OutCliStats (bytes_in (ce_stats ?e1)) (bytes_out (ce_stats ?e1))
                   (Some (ce_discon_reason ?e1)) # out))"
      using ok Some True sid step by (intro trans_expire [where e = e]) simp_all
    moreover have "sec_trans forced F sec (store_entry ?e1 sec, [])"
      using ok Some sid step quiet by (intro trans_store [where e = e]) simp_all
    ultimately show ?thesis using ok quiet by (auto intro: trans_id)
  next
    case False
    then have "ce_status e < PS_AUTH_COMPLETED" by (cases "ce_status e") (simp_all add: less_ps_status_def)
    then show ?thesis
      using ok Some quiet by (auto simp: handle_secm_session_close_cmd_def Let_def intro!: trans_id)
  qed
qed (auto simp: handle_secm_session_close_cmd_def Let_def outs_ok_def intro!: trans_id)

subsection \<open>Creation of an entry\<close>

lemma draw_sid_fresh:
  "draw_sid sec n rs = Some sid \<Longrightarrow>
     find_client_entry sec sid = None \<and> (\<exists>r. Some r \<in> set rs \<and> sid = sec_mod_instance_index_put r (sec_index sec))"
  by (induction sec n rs rule: draw_sid.induct) (auto simp: Let_def split: if_splits)

lemma new_client_entry_facts:
  assumes "new_client_entry env vhost ip pid sec = Some (e, sec2)"
  shows "sec2 = sec\<lparr>sec_db := htable_add e (sec_db sec)\<rparr>" "find_client_entry sec (ce_sid e) = None"
    "ce_sid e \<in> fresh_sids (sec_index sec) env" "ce_status e = PS_AUTH_INACTIVE" "ce_in_use e = 0"
    "ai_id (ce_acct e) = pid" "ce_vhost e = vhost"
  using assms draw_sid_fresh [of sec 3 "sv_sids env"]
  by (auto simp: new_client_entry_def Let_def zero_entry_def fresh_sids_def split: if_splits option.splits)

lemma set_module_same: "set_module sec e ty = Some e1 \<Longrightarrow> \<exists>m t. e1 = e\<lparr>ce_module := m, ce_auth_type := t\<rparr>"
  by (auto simp: set_module_def split: if_splits)

lemma auth_init_start_shape:
  assumes "ce_status e = PS_AUTH_INACTIVE"
  shows "\<exists>e0 result. ce_sid e0 = ce_sid e \<and> ce_status e0 \<noteq> PS_AUTH_COMPLETED \<and>
     ai_id (ce_acct e0) = ai_id (ce_acct e) \<and> stores_version sec e0 result (auth_init_start env req e sec)"
proof -
  have go: ?thesis if "auth_init_start env req e sec = handle_sec_auth_res env e0 result sec"
      "ce_sid e0 = ce_sid e" "ce_status e0 \<noteq> PS_AUTH_COMPLETED" "ai_id (ce_acct e0) = ai_id (ce_acct e)"
    for e0 result using that handle_sec_auth_res_shape [of sec e0 result env] by metis
  show ?thesis
  proof (cases "set_module sec e (rq_auth_type req)")
    case None
    then show ?thesis using assms by (intro go [of e "-1"]) (simp_all add: auth_init_start_def)
  next
    case (Some e1)
    then have e1: "ce_sid e1 = ce_sid e" "ce_status e1 = PS_AUTH_INACTIVE" "ce_acct e1 = ce_acct e"
      using assms by (auto dest: set_module_same)
    have fill: "ce_sid (auth_init_fill env req x) = ce_sid x" "ce_status (auth_init_fill env req x) = PS_AUTH_INIT"
        "ai_id (ce_acct (auth_init_fill env req x)) = ai_id (ce_acct x)" for x
      by (simp_all add: auth_init_fill_def)
    obtain ret ctx where cb: "cb_auth_init env = (ret, ctx)" by fastforce
    let ?e2 = "e1\<lparr>ce_auth_ctx := ctx\<rparr>"
    show ?thesis
    proof (cases "ce_module e1")
      case None
      then show ?thesis using Some e1 fill
        by (intro go [of "auth_init_fill env req e1" 0]) (simp_all add: auth_init_start_def)
    next
      case (Some m)
      note eq = \<open>set_module sec e (rq_auth_type req) = Some e1\<close> Some cb
      consider "ret = -4" | "ret \<noteq> -4" "ret < 0" | "ret \<ge> 0" by linarith
      then show ?thesis
      proof cases
        case 1
        then show ?thesis using eq e1 fill
          by (intro go [of "auth_init_fill env req ?e2" "-4"]) (simp_all add: auth_init_start_def Let_def)
      next
        case 2
        then show ?thesis using eq e1
          by (intro go [of ?e2 ret]) (simp_all add: auth_init_start_def Let_def)
      next
        case 3
        then show ?thesis using eq e1 fill
          by (intro go [of "auth_init_fill env req ?e2" 0]) (simp_all add: auth_init_start_def Let_def)
      qed
    qed
  qed
qed

lemma create_effect:
  assumes "sec_ok sec" "new_client_entry env vhost ip pid sec = Some (e, sec2)"
    and "auth_init_start env req e sec2 = (ret, sec3, out3)"
  obtains e' where "\<And>sid. find_client_entry sec3 sid = (if sid = ce_sid e then Some e' else find_client_entry sec sid)"
    "sec_ok sec3" "sec_static sec3 = sec_static sec" "entry_new e' out3" "ai_id (ce_acct e') = pid"
    "\<And>r. OutSessionOk r \<notin> set out3" "\<And>sid u m. OutAuthOk sid u m \<in> set out3 \<Longrightarrow> sid = ce_sid e"
proof -
  note new = new_client_entry_facts [OF assms(2)]
  have none: "tbl_get ce_sid (ce_sid e) (sec_db sec) = None" using new(2) by (simp add: find_client_entry_tbl)
  have ok2: "sec_ok sec2" using assms(1) none by (simp add: new(1) sessions.add_ok)
  have find2: "find_client_entry sec2 sid = (if sid = ce_sid e then Some e else find_client_entry sec sid)" for sid
    using assms(1) none by (simp add: find_client_entry_tbl new(1) sessions.get_add)
  obtain e0 result where e0: "ce_sid e0 = ce_sid e" "ce_status e0 \<noteq> PS_AUTH_COMPLETED"
      "ai_id (ce_acct e0) = ai_id (ce_acct e)" "stores_version sec2 e0 result (ret, sec3, out3)"
    using auth_init_start_shape [OF new(4), of sec2 env req] assms(3) by auto
  then obtain e' secm where v: "sec3 = store_entry e' secm" "sec_db secm = sec_db sec2"
      "sec_static secm = sec_static sec2" "auth_round e0 result e' out3"
    by (auto simp: stores_version_def)
  have sid: "ce_sid e' = ce_sid e" using v(4) e0(1) by (simp add: auth_round_def ce_core_def)
  have same: "find_client_entry secm = find_client_entry sec2" "sec_ok secm"
    using v(2) ok2 by (simp_all add: find_client_entry_def fun_eq_iff)
  show thesis
  proof (rule that [of e'])
    show "find_client_entry sec3 sid = (if sid = ce_sid e then Some e' else find_client_entry sec sid)" for sid
      using same find2 sid by (simp add: v(1) find_store)
    show "sec_ok sec3" using same by (simp add: v(1) store_entry_ok)
    show "sec_static sec3 = sec_static sec" using v(3) by (simp add: v(1) sec_static_def new(1))
    show "entry_new e' out3" "ai_id (ce_acct e') = pid"
      using v(4) e0 new(6) by (auto simp: entry_new_def announced_def auth_round_def ce_core_def)
    show "OutSessionOk r \<notin> set out3" for r using v(4) by (simp add: auth_round_def)
    show "OutAuthOk s u m \<in> set out3 \<Longrightarrow> s = ce_sid e" for s u m
      using v(4) e0(1) unfolding auth_round_def by blast
  qed
qed

lemma trans_create:
  assumes "sec_ok sec1" "sec_static sec1 = sec_static sec"
    and sub: "\<And>sid e. find_client_entry sec1 sid = Some e \<Longrightarrow> find_client_entry sec sid = Some e"
    and gone: "\<And>sid e. find_client_entry sec sid = Some e \<Longrightarrow> find_client_entry sec1 sid = None \<Longrightarrow> ce_in_use e = 0"
    and out1: "\<And>x. x \<in> set out1 \<Longrightarrow> (\<forall>r. x \<noteq> OutSessionOk r) \<and> (\<forall>s u m. x \<noteq> OutAuthOk s u m)"
  shows "sec_trans forced (fresh_sids (sec_index sec) env) sec
    (snd (case new_client_entry env vhost ip pid sec1 of
       None \<Rightarrow> (-1, sec1, out1)
     | Some (e, sec2) \<Rightarrow>
         (case auth_init_start env req e sec2 of (ret, sec3, out3) \<Rightarrow> (ret, sec3, out1 @ out3))))"
proof (cases "new_client_entry env vhost ip pid sec1")
  case None
  then show ?thesis using assms
    by (auto simp: sec_trans_def outs_ok_def dest!: out1 sub gone intro: entry_step_refl)
next
  case (Some p)
  obtain e sec2 where p: "p = (e, sec2)" by fastforce
  obtain ret sec3 out3 where st: "auth_init_start env req e sec2 = (ret, sec3, out3)"
    by (cases "auth_init_start env req e sec2") auto
  note new = new_client_entry_facts [OF Some [unfolded p]]
  have idx: "sec_index sec1 = sec_index sec" using assms(2) by (simp add: sec_static_def)
  obtain e' where e': "\<And>sid. find_client_entry sec3 sid = (if sid = ce_sid e then Some e' else find_client_entry sec1 sid)"
    "sec_ok sec3" "sec_static sec3 = sec_static sec1" "entry_new e' out3"
    "\<And>r. OutSessionOk r \<notin> set out3" "\<And>sid u m. OutAuthOk sid u m \<in> set out3 \<Longrightarrow> sid = ce_sid e"
    using create_effect [OF assms(1) Some [unfolded p] st] by metis
  have "entry_new e' (out1 @ out3)" using e'(4) by (auto simp: entry_new_def announced_def)
  moreover have "outs_ok (fresh_sids (sec_index sec) env) sec (out1 @ out3)"
    unfolding outs_ok_def using e'(5,6) new(3) idx by (auto dest: out1)
  moreover have "sec_static sec3 = sec_static sec" using e'(3) assms(2) by simp
  ultimately show ?thesis
    using e'(1,2) new(2,3) idx sub gone Some p st unfolding sec_trans_def
    by (auto split: if_splits intro: entry_step_refl)
qed

lemma trans_auth_init:
  assumes "sec_ok sec"
  shows "sec_trans forced (fresh_sids (sec_index sec) env) sec (snd (handle_sec_auth_init env req pid sec))"
proof (cases "auth_init_params_ok env req sec")
  case params: True
  show ?thesis
  proof (cases "find_client_entry_by_pid sec pid")
    case None
    then show ?thesis
      using params trans_create [of sec sec "[]" forced env] assms by (simp add: handle_sec_auth_init_def Let_def)
  next
    case (Some old)
    have mem: "old \<in> set (sec_db sec)"
      using Some by (auto simp: find_client_entry_by_pid_def find_Some_iff split: if_splits)
    show ?thesis
    proof (cases "ce_status old = PS_AUTH_FAILED \<and> ce_in_use old = 0")
      case True
      let ?sec1 = "sec\<lparr>sec_db := tbl_del ce_sid (ce_sid old) (sec_db sec)\<rparr>"
      have find1: "find_client_entry ?sec1 sid = (if sid = ce_sid old then None else find_client_entry sec sid)" for sid
        using assms by (simp add: find_client_entry_tbl sessions.get_del)
      have old: "find_client_entry sec (ce_sid old) = Some old" using mem find_mem [OF assms] by blast
      have "sec_trans forced (fresh_sids (sec_index sec) env) sec
          (snd (case new_client_entry env vhost ip pid ?sec1 of
             None \<Rightarrow> (-1, ?sec1, sec_auth_user_deinit sec old False)
           | Some (e, sec2) \<Rightarrow>
               (case auth_init_start env req e sec2 of (ret, sec3, out3) \<Rightarrow>
                  (ret, sec3, sec_auth_user_deinit sec old False @ out3))))" for vhost ip
      proof (rule trans_create)
        show "sec_ok ?sec1" using assms by (simp add: sessions.del_ok)
        show "sec_static ?sec1 = sec_static sec" by (simp add: sec_static_def)
        show "find_client_entry sec sid = Some e" if "find_client_entry ?sec1 sid = Some e" for sid e
          using that find1 by (simp split: if_splits)
        show "ce_in_use e = 0" if "find_client_entry sec sid = Some e" "find_client_entry ?sec1 sid = None" for sid e
          using that find1 old True by (simp split: if_splits)
      qed (auto dest: deinit_quiet)
      then show ?thesis
        using params Some True by (simp add: handle_sec_auth_init_def Let_def del_client_entry_tbl)
    next
      case False
      then show ?thesis using params Some assms
        by (auto simp: handle_sec_auth_init_def Let_def dest: add_score_out intro!: trans_id outs_ok_quiet)
    qed
  qed
qed (simp add: handle_sec_auth_init_def trans_id outs_ok_def assms)

lemma sec_step_trans:
  assumes "sec_ok sec"
  shows "sec_trans (is_term op) (fresh_sids (sec_index sec) env) sec (sec_step env op sec)"
  using assms
  by (cases op) (simp_all add: trans_auth_init trans_auth_cont trans_session_open trans_session_close
      trans_ban_reply trans_stats trans_term_user trans_term_session trans_cleanup)

section \<open>Runs\<close>

lemma sec_exec_ok: "sec_ok sec \<Longrightarrow> sec_ok (fst (sec_exec ops sec)) \<and> sec_static (fst (sec_exec ops sec)) = sec_static sec"
proof (induction ops arbitrary: sec)
  case (Cons x ops)
  obtain env op where x: "x = (env, op)" by fastforce
  have "sec_trans (is_term op) (fresh_sids (sec_index sec) env) sec (sec_step env op sec)"
    using Cons.prems by (rule sec_step_trans)
  then show ?case using Cons.IH [of "fst (sec_step env op sec)"] x
    by (auto simp: sec_trans_def split: prod.split)
qed simp

text \<open>Every completed entry was announced, and a certificate entry has a verified certificate.\<close>

definition all_announced :: "sec_mod_st \<Rightarrow> sec_out list \<Rightarrow> bool" where
  "all_announced sec hist \<longleftrightarrow>
     (\<forall>sid e. find_client_entry sec sid = Some e \<longrightarrow> ce_status e = PS_AUTH_COMPLETED \<longrightarrow> announced e hist)"

lemma announced_mono: "announced e h \<Longrightarrow> set h \<subseteq> set h' \<Longrightarrow> announced e h'"
  by (auto simp: announced_def)

lemma all_announced_step:
  assumes "sec_ok sec" "all_announced sec hist"
  shows "all_announced (fst (sec_step env op sec)) (hist @ snd (sec_step env op sec))"
  unfolding all_announced_def
proof (intro allI impI)
  fix sid e'
  assume e': "find_client_entry (fst (sec_step env op sec)) sid = Some e'" "ce_status e' = PS_AUTH_COMPLETED"
  let ?outs = "snd (sec_step env op sec)"
  have "(\<exists>e. find_client_entry sec sid = Some e \<and> entry_step e e' ?outs) \<or> entry_new e' ?outs"
    using sec_step_trans [OF assms(1), of op env] e'(1) unfolding sec_trans_def by blast
  moreover have "announced e' hist" if "find_client_entry sec sid = Some e" "entry_step e e' ?outs"
      "ce_status e = PS_AUTH_COMPLETED" for e
  proof -
    have "announced e hist" using that(1,3) assms(2) by (simp add: all_announced_def)
    then show ?thesis using that(2) by (simp add: announced_def entry_step_def)
  qed
  ultimately have "announced e' hist \<or> announced e' ?outs"
    using e'(2) unfolding entry_step_def entry_new_def by blast
  then show "announced e' (hist @ ?outs)" by (auto intro: announced_mono)
qed

lemma all_announced_exec:
  "sec_ok sec \<Longrightarrow> all_announced sec hist \<Longrightarrow>
     all_announced (fst (sec_exec ops sec)) (hist @ snd (sec_exec ops sec))"
proof (induction ops arbitrary: sec hist)
  case (Cons x ops)
  obtain env op where x: "x = (env, op)" by fastforce
  let ?s = "sec_step env op sec"
  have "sec_ok (fst ?s)" using sec_step_trans [OF Cons.prems(1), of op env] by (simp add: sec_trans_def)
  then show ?case
    using Cons.IH [of "fst ?s" "hist @ snd ?s"] all_announced_step [OF Cons.prems, of env op] x
    by (auto split: prod.split)
qed simp

lemma session_ok_announced:
  "sec_ok sec \<Longrightarrow> all_announced sec hist \<Longrightarrow> snd (sec_exec ops sec) = pre @ OutSessionOk rep # post
    \<Longrightarrow> \<exists>u m. OutAuthOk (sr_sid rep) u m \<in> set (hist @ pre)"
proof (induction ops arbitrary: sec hist pre)
  case (Cons x ops)
  obtain env op where x: "x = (env, op)" by fastforce
  obtain sec1 out1 where st: "sec_step env op sec = (sec1, out1)" by fastforce
  have ok1: "sec_ok sec1" and outs: "outs_ok (fresh_sids (sec_index sec) env) sec out1"
    using sec_step_trans [OF Cons.prems(1), of op env] st by (auto simp: sec_trans_def)
  have split: "out1 @ snd (sec_exec ops sec1) = pre @ OutSessionOk rep # post"
    using Cons.prems(3) x st by (simp split: prod.splits)
  show ?case
  proof (cases "OutSessionOk rep \<in> set out1")
    case True
    then obtain e where e: "find_client_entry sec (sr_sid rep) = Some e" "ce_status e = PS_AUTH_COMPLETED"
      using outs by (auto simp: outs_ok_def)
    then have "announced e hist" "ce_sid e = sr_sid rep"
      using Cons.prems(2) by (auto simp: all_announced_def dest: find_sid)
    then show ?thesis by (auto simp: announced_def)
  next
    case False
    then obtain us where us: "pre = out1 @ us" "snd (sec_exec ops sec1) = us @ OutSessionOk rep # post"
      using split by (auto simp: append_eq_append_conv2 append_eq_Cons_conv)
    have "all_announced sec1 (hist @ out1)" using all_announced_step [OF Cons.prems(1,2), of env op] st by simp
    then show ?thesis using Cons.IH [OF ok1 _ us(2), of "hist @ out1"] us(1) by simp
  qed
qed simp

section \<open>Authentication precedes every session\<close>

text \<open>
  C3 Authentication before session.  In any run of the security module that starts with an
  empty database, whatever the modules, the clock and the channels do, a positive session
  reply for a cookie is preceded in the output by a successful authentication reply for that
  same cookie.
\<close>

theorem session_requires_authentication:
  assumes "sec_db sec = []" "snd (sec_exec ops sec) = pre @ OutSessionOk rep # post"
  shows "\<exists>user msg. OutAuthOk (sr_sid rep) user msg \<in> set pre"
  using session_ok_announced [of sec "[]" ops pre rep post] assms
  by (simp add: all_announced_def find_client_entry_def htable_get_def table_simps)

lemma res_verdict:
  "OutAuthOk sid u m \<in> set (snd (snd (handle_sec_auth_res env e result sec))) \<Longrightarrow> sid = ce_sid e \<and> result = 0"
  using handle_sec_auth_res_shape [of sec e result env] unfolding stores_version_def auth_round_def by blast

lemma auth_init_start_verdict:
  assumes "OutAuthOk sid u m \<in> set (snd (snd (auth_init_start env req e sec)))"
  shows "\<exists>slot \<in> set (vh_auth (vhost_of sec e)). as_enabled slot \<and>
    as_type slot AND rq_auth_type req = rq_auth_type req \<and> (as_amod slot = None \<or> 0 \<le> fst (cb_auth_init env))"
proof (cases "set_module sec e (rq_auth_type req)")
  case None
  then show ?thesis using assms by (auto simp: auth_init_start_def dest: res_verdict)
next
  case (Some e1)
  then obtain slot where slot: "slot \<in> set (vh_auth (vhost_of sec e))" "as_enabled slot"
      "as_type slot AND rq_auth_type req = rq_auth_type req" "ce_module e1 = as_amod slot"
    by (auto simp: set_module_def find_Some_iff split: if_splits) (metis nth_mem)
  moreover have "as_amod slot = None \<or> 0 \<le> fst (cb_auth_init env)"
    using assms Some slot(4)
    by (auto simp: auth_init_start_def Let_def split: option.splits prod.splits if_splits dest: res_verdict)
  ultimately show ?thesis by blast
qed

lemma create_verdict:
  assumes "OutAuthOk sid u m \<in> set (snd (snd (case new_client_entry env vhost ip pid secb of
        None \<Rightarrow> (-1, secb, outb)
      | Some (e, sec2) \<Rightarrow>
          (case auth_init_start env req e sec2 of (ret, sec3, out3) \<Rightarrow> (ret, sec3, outb @ out3)))))"
    and "OutAuthOk sid u m \<notin> set outb"
  shows "\<exists>slot \<in> set (vh_auth (find_vhost (sec_vconfig secb) vhost)). as_enabled slot \<and>
    as_type slot AND rq_auth_type req = rq_auth_type req \<and> (as_amod slot = None \<or> 0 \<le> fst (cb_auth_init env))"
proof (cases "new_client_entry env vhost ip pid secb")
  case (Some p)
  obtain e sec2 where p: "p = (e, sec2)" by fastforce
  have "OutAuthOk sid u m \<in> set (snd (snd (auth_init_start env req e sec2)))"
    using assms Some p by (auto split: prod.splits)
  then show ?thesis
    using auth_init_start_verdict [of sid u m env req e sec2] new_client_entry_facts [OF Some [unfolded p]]
    by simp
qed (use assms in simp)

lemma auth_init_verdict:
  assumes "OutAuthOk sid u m \<in> set (snd (snd (handle_sec_auth_init env req pid sec)))"
  shows "auth_init_params_ok env req sec \<and>
    (\<exists>slot \<in> set (vh_auth (find_vhost (sec_vconfig sec) (vh_name (find_vhost (sec_vconfig sec) (rq_vhost req))))).
       as_enabled slot \<and> as_type slot AND rq_auth_type req = rq_auth_type req \<and>
       (as_amod slot = None \<or> 0 \<le> fst (cb_auth_init env)))"
proof
  show params: "auth_init_params_ok env req sec"
    using assms by (auto simp: handle_sec_auth_init_def split: if_splits)
  let ?vh = "vh_name (find_vhost (sec_vconfig sec) (rq_vhost req))"
  show "\<exists>slot \<in> set (vh_auth (find_vhost (sec_vconfig sec) ?vh)). as_enabled slot \<and>
      as_type slot AND rq_auth_type req = rq_auth_type req \<and> (as_amod slot = None \<or> 0 \<le> fst (cb_auth_init env))"
  proof (cases "find_client_entry_by_pid sec pid")
    case None
    then show ?thesis
      using assms params create_verdict [where vhost = ?vh and ip = "rq_remote_ip req" and secb = sec and outb = "[]"]
      by (simp add: handle_sec_auth_init_def Let_def)
  next
    case (Some old)
    let ?out = "sec_auth_user_deinit sec old False"
    let ?s1 = "sec\<lparr>sec_db := htable_del (client_entry_cmp (ce_sid old)) (sec_db sec)\<rparr>"
    have "OutAuthOk sid u m \<notin> set ?out" by (auto dest: deinit_quiet)
    moreover have "OutAuthOk sid u m \<in> set (snd (snd (case new_client_entry env ?vh (rq_remote_ip req) pid ?s1 of
        None \<Rightarrow> (-1, ?s1, ?out)
      | Some (e, sec2) \<Rightarrow>
          (case auth_init_start env req e sec2 of (ret, sec3, out3) \<Rightarrow> (ret, sec3, ?out @ out3)))))"
      using assms params Some
      by (auto simp: handle_sec_auth_init_def Let_def del_client_entry_def dest: add_score_out split: if_splits)
    ultimately show ?thesis using create_verdict by fastforce
  qed
qed

lemma auth_cont_verdict:
  "OutAuthOk sid u m \<in> set (snd (snd (handle_sec_auth_cont env s pass sec)))
    \<Longrightarrow> s = sid \<and> pass \<noteq> None \<and> cb_auth_pass env = 0"
  by (auto simp: handle_sec_auth_cont_def split: option.splits if_splits dest!: res_verdict find_sid)

lemma no_auth_ok_elsewhere:
  assumes "OutAuthOk sid u m \<in> set (snd (sec_step env op sec))"
  shows "(\<exists>req pid. op = OpAuthInit req pid) \<or> (\<exists>s pass. op = OpAuthCont s pass)"
proof (cases op)
  case (OpSessionOpen s ip4 ip6)
  then show ?thesis using assms failed_reply_out
    by (fastforce simp: handle_secm_session_open_cmd_def session_open_finish_def Let_def
        split: option.splits prod.splits if_splits)
next
  case (OpSessionClose req)
  then show ?thesis using assms
    by (auto simp: handle_secm_session_close_cmd_def expire_client_entry_def del_client_entry_def Let_def
        split: option.splits prod.splits if_splits dest: deinit_quiet)
next
  case (OpStats req pid)
  then show ?thesis using assms
    by (auto simp: handle_sec_auth_stats_cmd_def Let_def split: option.splits if_splits)
next
  case (OpTermUser x)
  then show ?thesis using assms
    by (auto simp: terminate_user_sessions_def Let_def split: option.splits if_splits dest: deinit_quiet)
next
  case (OpTermSession x)
  then show ?thesis using assms
    by (auto simp: terminate_session_by_sid_def Let_def split: option.splits if_splits dest: deinit_quiet)
next
  case OpCleanup
  then show ?thesis using assms by (auto simp: cleanup_client_entries_def dest: deinit_quiet)
qed (use assms in auto)

text \<open>
  C7 Who decides.  A successful authentication reply is only ever produced by an
  authentication request: either a password round for which the module of the entry
  returned success, or an initial request with authentic and fresh parameters, for an
  enabled method of its virtual host that covers the requested type and whose module, if it
  has one, accepted at once.  Authentic means that the request carries the keyed digest of its
  address and start time, fresh that it is not older than the authentication timeout of the
  virtual host it names.
\<close>

theorem auth_ok_verdict:
  assumes "OutAuthOk sid user msg \<in> set (snd (sec_step env op sec))"
  shows "(\<exists>pass. op = OpAuthCont sid (Some pass) \<and> cb_auth_pass env = 0) \<or>
    (\<exists>req pid ip. op = OpAuthInit req pid \<and>
       rq_orig_remote_ip req = Some ip \<and>
       rq_hmac req = Some (sv_hmac env ip (rq_our_ip req) (rq_session_start_time req)) \<and>
       length (sv_hmac env ip (rq_our_ip req) (rq_session_start_time req)) = HMAC_DIGEST_SIZE \<and>
       sv_now env - rq_session_start_time req \<le> vh_auth_timeout (find_vhost (sec_vconfig sec) (rq_vhost req)) \<and>
       (\<exists>slot \<in> set (vh_auth (find_vhost (sec_vconfig sec)
                        (vh_name (find_vhost (sec_vconfig sec) (rq_vhost req))))).
          as_enabled slot \<and> as_type slot AND rq_auth_type req = rq_auth_type req \<and>
          (as_amod slot = None \<or> 0 \<le> fst (cb_auth_init env))))"
  using no_auth_ok_elsewhere [OF assms]
proof (elim disjE exE)
  fix req pid assume op: "op = OpAuthInit req pid"
  then have "OutAuthOk sid user msg \<in> set (snd (snd (handle_sec_auth_init env req pid sec)))" using assms by simp
  from auth_init_verdict [OF this] have params: "auth_init_params_ok env req sec"
    and slot: "\<exists>slot \<in> set (vh_auth (find_vhost (sec_vconfig sec) (vh_name (find_vhost (sec_vconfig sec) (rq_vhost req))))).
       as_enabled slot \<and> as_type slot AND rq_auth_type req = rq_auth_type req \<and>
       (as_amod slot = None \<or> 0 \<le> fst (cb_auth_init env))" by auto
  from params obtain ip where "rq_orig_remote_ip req = Some ip"
    "rq_hmac req = Some (sv_hmac env ip (rq_our_ip req) (rq_session_start_time req))"
    "length (sv_hmac env ip (rq_our_ip req) (rq_session_start_time req)) = HMAC_DIGEST_SIZE"
    "sv_now env - rq_session_start_time req \<le> vh_auth_timeout (find_vhost (sec_vconfig sec) (rq_vhost req))"
    by (auto simp: auth_init_params_ok_def not_less split: option.splits)
  with op slot show ?thesis by blast
qed (use assms auth_cont_verdict [of sid user msg env] in auto)

section \<open>Revocation\<close>

text \<open>A cookie is dead when its entry is gone or has failed.\<close>

definition dead :: "bytes \<Rightarrow> sec_mod_st \<Rightarrow> bool" where
  "dead sid sec \<longleftrightarrow> (\<forall>e. find_client_entry sec sid = Some e \<longrightarrow> ce_status e = PS_AUTH_FAILED)"

lemma dead_step:
  assumes "sec_ok sec" "dead sid sec" "sid \<notin> fresh_sids (sec_index sec) env"
  shows "dead sid (fst (sec_step env op sec)) \<and>
    (\<forall>rep. OutSessionOk rep \<in> set (snd (sec_step env op sec)) \<longrightarrow> sr_sid rep \<noteq> sid) \<and>
    (\<forall>s u m. OutAuthOk s u m \<in> set (snd (sec_step env op sec)) \<longrightarrow> s \<noteq> sid)"
proof -
  let ?s = "sec_step env op sec" and ?F = "fresh_sids (sec_index sec) env"
  have trans: "sec_trans (is_term op) ?F sec ?s" using assms(1) by (rule sec_step_trans)
  have "ce_status e' = PS_AUTH_FAILED" if e': "find_client_entry (fst ?s) sid = Some e'" for e'
  proof -
    obtain e where "find_client_entry sec sid = Some e" "entry_step e e' (snd ?s)"
      using sec_trans_entry [OF trans e' assms(3)] by blast
    then show ?thesis using assms(2) by (simp add: dead_def entry_step_def)
  qed
  moreover have "sr_sid rep \<noteq> sid" if "OutSessionOk rep \<in> set (snd ?s)" for rep
    using sec_trans_session [OF trans that] assms(2) by (auto simp: dead_def)
  moreover have "s \<noteq> sid" if "OutAuthOk s u m \<in> set (snd ?s)" for s u m
    using sec_trans_auth [OF trans that] assms(2,3) by (auto simp: dead_def)
  ultimately show ?thesis by (simp add: dead_def)
qed

lemma dead_exec:
  "sec_ok sec \<Longrightarrow> dead sid sec \<Longrightarrow> list_all (\<lambda>(env, op). sid \<notin> fresh_sids (sec_index sec) env) ops \<Longrightarrow>
     dead sid (fst (sec_exec ops sec)) \<and>
     (\<forall>rep. OutSessionOk rep \<in> set (snd (sec_exec ops sec)) \<longrightarrow> sr_sid rep \<noteq> sid) \<and>
     (\<forall>s u m. OutAuthOk s u m \<in> set (snd (sec_exec ops sec)) \<longrightarrow> s \<noteq> sid)"
proof (induction ops arbitrary: sec)
  case (Cons x ops)
  obtain env op where x: "x = (env, op)" by fastforce
  let ?s = "sec_step env op sec"
  have fresh: "sid \<notin> fresh_sids (sec_index sec) env" using Cons.prems(3) x by simp
  have ok: "sec_ok (fst ?s)" "sec_index (fst ?s) = sec_index sec"
    using sec_step_trans [OF Cons.prems(1), of op env] by (auto simp: sec_trans_def sec_static_def)
  note step = dead_step [OF Cons.prems(1,2) fresh, of op]
  have IH: "dead sid (fst (sec_exec ops (fst ?s))) \<and>
     (\<forall>rep. OutSessionOk rep \<in> set (snd (sec_exec ops (fst ?s))) \<longrightarrow> sr_sid rep \<noteq> sid) \<and>
     (\<forall>s u m. OutAuthOk s u m \<in> set (snd (sec_exec ops (fst ?s))) \<longrightarrow> s \<noteq> sid)"
    using Cons.IH [OF ok(1) conjunct1 [OF step]] Cons.prems(3) ok(2) by simp
  have "sec_exec (x # ops) sec = (fst (sec_exec ops (fst ?s)), snd ?s @ snd (sec_exec ops (fst ?s)))"
    by (simp add: x split: prod.split)
  then show ?case using IH step by simp blast
qed simp

lemma ban_reply_dead:
  "sec_ok sec \<Longrightarrow> length sid = SID_SIZE \<Longrightarrow> dead sid (handle_sec_auth_ban_ip_reply sid False sec)"
  by (auto simp: dead_def handle_sec_auth_ban_ip_reply_def find_store split: option.splits dest: find_sid)

lemma term_user_dead:
  assumes "sec_ok sec" "u \<noteq> []" "find_client_entry sec sid = Some e" "ai_username (ce_acct e) = u"
  shows "dead sid (fst (snd (terminate_user_sessions (Some u) sec)))"
  using assms by (simp add: dead_def terminate_user_sessions_def find_client_entry_tbl sessions.get_purge Let_def)

text \<open>
  C8 Revocation.  After the main process has answered that the address of a session is banned,
  or after the sessions of its user have been terminated, no later sequence of requests makes
  the module grant a session or an authentication for that cookie, unless the random
  generator draws the same session id again.
\<close>

theorem revoked_cookie_is_useless:
  assumes "sec_ok sec" "length sid = SID_SIZE"
    and "sec' = handle_sec_auth_ban_ip_reply sid False sec \<or>
      (\<exists>u e. u \<noteq> [] \<and> find_client_entry sec sid = Some e \<and> ai_username (ce_acct e) = u \<and>
        sec' = fst (snd (terminate_user_sessions (Some u) sec)))"
    and "list_all (\<lambda>(env, op). sid \<notin> fresh_sids (sec_index sec) env) ops"
  shows "(\<forall>rep. OutSessionOk rep \<in> set (snd (sec_exec ops sec')) \<longrightarrow> sr_sid rep \<noteq> sid) \<and>
         (\<forall>s u m. OutAuthOk s u m \<in> set (snd (sec_exec ops sec')) \<longrightarrow> s \<noteq> sid)"
proof -
  have "sec_ok sec' \<and> sec_index sec' = sec_index sec"
    using assms(3) trans_ban_reply [OF assms(1), of True "{}" sid False] trans_term_user [OF assms(1), of "{}"]
    by (auto simp: sec_trans_def sec_static_def)
  moreover have "dead sid sec'"
    using assms(1-3) by (auto intro: ban_reply_dead term_user_dead)
  ultimately show ?thesis using dead_exec [of sec' sid ops] assms(4) by simp
qed

section \<open>Sessions that are never reclaimed\<close>

lemma failed_in_use_step:
  assumes "sec_ok sec" "\<not> is_term op" "sid \<notin> fresh_sids (sec_index sec) env"
    and e: "find_client_entry sec sid = Some e" "ce_status e = PS_AUTH_FAILED" "ce_in_use e > 0"
  shows "\<exists>e'. find_client_entry (fst (sec_step env op sec)) sid = Some e' \<and>
    ce_status e' = PS_AUTH_FAILED \<and> ce_in_use e' = ce_in_use e"
proof -
  let ?s = "sec_step env op sec"
  have trans: "sec_trans (is_term op) (fresh_sids (sec_index sec) env) sec ?s"
    using assms(1) by (rule sec_step_trans)
  then obtain e' where e': "find_client_entry (fst ?s) sid = Some e'"
    using sec_trans_gone [OF trans e(1)] e(2,3) assms(2) by (cases "find_client_entry (fst ?s) sid") auto
  then obtain e0 where "find_client_entry sec sid = Some e0" "entry_step e0 e' (snd ?s)"
    using sec_trans_entry [OF trans _ assms(3)] by blast
  then show ?thesis using e e' by (simp add: entry_step_def)
qed

lemma failed_in_use_exec:
  "sec_ok sec \<Longrightarrow> list_all (\<lambda>(env, op). \<not> is_term op \<and> sid \<notin> fresh_sids (sec_index sec) env) ops \<Longrightarrow>
   find_client_entry sec sid = Some e \<Longrightarrow> ce_status e = PS_AUTH_FAILED \<Longrightarrow> ce_in_use e > 0 \<Longrightarrow>
   \<exists>e'. find_client_entry (fst (sec_exec ops sec)) sid = Some e' \<and>
     ce_status e' = PS_AUTH_FAILED \<and> ce_in_use e' = ce_in_use e"
proof (induction ops arbitrary: sec e)
  case (Cons x ops)
  obtain env op where x: "x = (env, op)" by fastforce
  let ?s = "sec_step env op sec"
  have ok: "sec_ok (fst ?s)" "sec_index (fst ?s) = sec_index sec"
    using sec_step_trans [OF Cons.prems(1), of op env] by (auto simp: sec_trans_def sec_static_def)
  obtain e' where e': "find_client_entry (fst ?s) sid = Some e'" "ce_status e' = PS_AUTH_FAILED" "ce_in_use e' = ce_in_use e"
    using failed_in_use_step [OF Cons.prems(1), of op sid env e] Cons.prems(2-5) x by auto
  have "fst (sec_exec (x # ops) sec) = fst (sec_exec ops (fst ?s))"
    by (simp add: x split: prod.split)
  then show ?case using Cons.IH [OF ok(1) _ e'(1,2)] Cons.prems(2,5) ok(2) e'(3) x by simp
qed simp

text \<open>
  C27 A banned open session is never reclaimed.  When the ban reply arrives for an entry that has
  an open session, the entry is marked as failed with its use count unchanged; since the close
  request is ignored for a failed entry, no sequence of requests without an administrative
  termination, close requests and clean-ups included, ever lowers the count or removes the
  entry.
\<close>

theorem banned_open_session_leaks:
  assumes "sec_ok sec" "length sid = SID_SIZE" "find_client_entry sec sid = Some e" "ce_in_use e > 0"
    and "list_all (\<lambda>(env, op). \<not> is_term op \<and> sid \<notin> fresh_sids (sec_index sec) env) ops"
  shows "\<exists>e'. find_client_entry (fst (sec_exec ops (handle_sec_auth_ban_ip_reply sid False sec))) sid = Some e' \<and>
    ce_in_use e' = ce_in_use e"
proof -
  let ?sec = "handle_sec_auth_ban_ip_reply sid False sec"
  have "sec_ok ?sec" "sec_index ?sec = sec_index sec"
    using trans_ban_reply [OF assms(1), of True "{}" sid False] by (auto simp: sec_trans_def sec_static_def)
  moreover have "find_client_entry ?sec sid = Some (e\<lparr>ce_status := PS_AUTH_FAILED\<rparr>)"
    using assms(1-3) find_sid [OF assms(3)] by (simp add: handle_sec_auth_ban_ip_reply_def find_store)
  ultimately show ?thesis
    using failed_in_use_exec [of ?sec sid ops "e\<lparr>ce_status := PS_AUTH_FAILED\<rparr>"] assms(4,5) by auto
qed

text \<open>
  C17 Certificates.  In every state reached from an empty database, a completed entry whose
  method includes certificate authentication had its certificate verified.
\<close>

theorem completed_certificate_verified:
  assumes "sec_db sec = []" "e \<in> set (sec_db (fst (sec_exec ops sec)))"
    and "ce_status e = PS_AUTH_COMPLETED" "ce_auth_type e AND AUTH_TYPE_CERTIFICATE \<noteq> 0"
  shows "ce_tls_auth_ok e"
proof -
  have ok: "sec_ok sec" using assms(1) by (simp add: table_simps)
  have "all_announced sec []"
    using assms(1) by (simp add: all_announced_def find_client_entry_def htable_get_def)
  then have "all_announced (fst (sec_exec ops sec)) (snd (sec_exec ops sec))"
    using all_announced_exec [OF ok, of "[]" ops] by simp
  moreover have "find_client_entry (fst (sec_exec ops sec)) (ce_sid e) = Some e"
    using assms(2) sec_exec_ok [OF ok, of ops] find_mem by blast
  ultimately show ?thesis using assms(3,4) by (auto simp: all_announced_def announced_def)
qed

end
