(* ===== verification/Sec_Witness.thy ===== *)
theory Sec_Witness
  imports Sec_Props
begin

text \<open>
  Concrete runs of the security module: one user of a password-authenticated virtual host
  logs in, opens a session, and is banned.  Each property of \<open>Sec_Props\<close> is applied to such
  a run.
\<close>

definition demo_vhost :: vhost_cfg_st where
  "demo_vhost = \<lparr>vh_name = None,
     vh_auth = [\<lparr>as_enabled = True, as_type = 5,
                 as_amod = Some \<lparr>am_allows_retries = True, am_auth_group = False, am_sso = False\<rparr>\<rparr>,
                \<lparr>as_enabled = True, as_type = 8, as_amod = None\<rparr>],
     vh_acct = None, vh_sup_config = False, vh_cookie_timeout = 300, vh_auth_timeout = 240,
     vh_persistent_cookies = False, vh_predictable_ips = False, vh_max_ban_score = 80,
     vh_ban_points_wrong_password = 10, vh_cert_user_oid = Some ''0.9.2342.19200300.100.1.1'',
     vh_cert_group_oid = None\<rparr>"

definition demo_sec :: sec_mod_st where
  "demo_sec = \<lparr>sec_db = [], sec_vconfig = [demo_vhost], sec_auth_failures = 0,
     sec_max_auth_time = 0, sec_avg_auth_time = 0, sec_total_auth = 0, sec_index = 0\<rparr>"

definition demo_env :: "time_t \<Rightarrow> bytes option list \<Rightarrow> int \<Rightarrow> sec_env" where
  "demo_env now sids ini = \<lparr>sv_now = now, sv_now2 = now, sv_alloc = True, sv_htadd = True,
     sv_sids = sids, sv_send = 0, sv_ban_send = 0, sv_safe_id = (\<lambda>_. ''safe''),
     sv_hmac = (\<lambda>_ _ _. replicate 32 7), sv_seed = Some 42, sv_hash = (\<lambda>_. 1),
     sv_dup_groups = True, cb_auth_init = (ini, True), cb_auth_msg = (0, None, 0),
     cb_auth_pass = 0, cb_auth_group = (0, []), cb_auth_user = None,
     cb_open_session = 0, cb_sup_config = 0\<rparr>"

definition demo_req :: "u32 \<Rightarrow> bool \<Rightarrow> auth_init_req" where
  "demo_req ty tls = \<lparr>rq_hmac = Some (replicate 32 7), rq_session_start_time = 990,
     rq_orig_remote_ip = Some ''192.0.2.7'', rq_our_ip = None, rq_vhost = None,
     rq_remote_ip = Some ''192.0.2.7'', rq_auth_type = ty, rq_user_name = Some ''alice'',
     rq_tls_auth_ok = tls, rq_device_platform = None, rq_device_type = None,
     rq_user_agent = None, rq_group_name = None, rq_cert_user_name = Some ''alice'',
     rq_cert_group_names = []\<rparr>"

definition demo_sid :: bytes where
  "demo_sid = [0, 0] @ replicate 30 9"

definition demo_login :: "(sec_env \<times> sec_op) list" where
  "demo_login =
     [(demo_env 1000 [Some (replicate 32 9)] (-4), OpAuthInit (demo_req 5 False) 77),
      (demo_env 1001 [] 0, OpAuthCont demo_sid (Some ''secret''))]"

definition demo_session :: "(sec_env \<times> sec_op) list" where
  "demo_session = demo_login @ [(demo_env 1002 [] 0, OpSessionOpen demo_sid None None)]"

definition demo_rep :: session_rep where
  "demo_rep = \<lparr>sr_sid = demo_sid, sr_username = ''alice'', sr_groupname = [], sr_user_agent = [],
     sr_device_platform = [], sr_device_type = [], sr_ip = ''192.0.2.7'', sr_tls_auth_ok = False, sr_vhost = None, sr_ipv4_seed = 42,
     sr_session_start_time = 1000\<rparr>"

lemma demo_session_outs:
  "snd (sec_exec demo_session demo_sec) =
     [OutAuthMsg demo_sid None 0, OutAuthOk demo_sid ''alice'' None] @ OutSessionOk demo_rep # []"
  by code_simp

theorem session_requires_authentication_witness:
  "\<exists>user msg. OutAuthOk (sr_sid demo_rep) user msg \<in>
     set [OutAuthMsg demo_sid None 0, OutAuthOk demo_sid ''alice'' None]"
  by (rule session_requires_authentication [OF _ demo_session_outs]) (simp add: demo_sec_def)

text \<open>The state after the login, and after the session is opened.\<close>

definition demo_open :: sec_mod_st where
  "demo_open = fst (sec_exec demo_session demo_sec)"

lemma demo_open_facts:
  "list_all (\<lambda>e. ce_sid e = demo_sid \<and> ce_status e = PS_AUTH_COMPLETED \<and> ce_in_use e = 1) (sec_db demo_open)"
  "map_option ce_in_use (find_client_entry demo_open demo_sid) = Some 1"
  "sec_ok demo_open" "sec_index demo_open = 0" "length demo_sid = 32"
  by code_simp+

theorem auth_ok_verdict_witness:
  "rq_hmac (demo_req 8 True) = Some (sv_hmac (demo_env 1000 [Some (replicate 32 9)] 0) ''192.0.2.7'' None 990) \<and>
   sv_now (demo_env 1000 [Some (replicate 32 9)] 0) - 990 \<le> vh_auth_timeout (find_vhost (sec_vconfig demo_sec) None)"
proof -
  have "OutAuthOk demo_sid ''alice'' None \<in>
      set (snd (sec_step (demo_env 1000 [Some (replicate 32 9)] 0) (OpAuthInit (demo_req 8 True) 77) demo_sec))"
    by code_simp
  from auth_ok_verdict [OF this] show ?thesis by (auto simp: demo_req_def)
qed

lemma no_fresh: "sid \<notin> fresh_sids idx (demo_env t [] r)"
  by (simp add: fresh_sids_def demo_env_def)

theorem revoked_cookie_is_useless_witness:
  "demo_sid \<notin> {sr_sid rep |rep. OutSessionOk rep \<in> set (snd (sec_exec
       [(demo_env 1003 [] 0, OpSessionOpen demo_sid None None)]
       (handle_sec_auth_ban_ip_reply demo_sid False demo_open)))}"
  using revoked_cookie_is_useless [of demo_open demo_sid "handle_sec_auth_ban_ip_reply demo_sid False demo_open"
      "[(demo_env 1003 [] 0, OpSessionOpen demo_sid None None)]"]
  by (auto simp: demo_open_facts no_fresh simp del: sec_exec.simps)

definition demo_close :: session_close_req where
  "demo_close = \<lparr>cr_sid = demo_sid, cr_bytes_in = Some 10, cr_bytes_out = Some 20, cr_server_disconnected = False\<rparr>"

theorem banned_open_session_leaks_witness:
  "\<exists>e'. find_client_entry (fst (sec_exec [(demo_env 1010 [] 0, OpSessionClose demo_close),
       (demo_env 9999999 [] 0, OpCleanup)]
       (handle_sec_auth_ban_ip_reply demo_sid False demo_open))) demo_sid = Some e' \<and> ce_in_use e' = 1"
proof -
  obtain e where "find_client_entry demo_open demo_sid = Some e" "ce_in_use e = 1"
    using demo_open_facts(2) by auto
  then show ?thesis
    using banned_open_session_leaks [of demo_open demo_sid e "[(demo_env 1010 [] 0, OpSessionClose demo_close),
       (demo_env 9999999 [] 0, OpCleanup)]"]
    by (simp add: demo_open_facts no_fresh del: sec_exec.simps)
qed

definition demo_cert_login :: sec_mod_st where
  "demo_cert_login = fst (sec_exec [(demo_env 1000 [Some (replicate 32 9)] 0, OpAuthInit (demo_req 8 True) 77)] demo_sec)"

lemma demo_cert_facts:
  "map_option ce_status (find_client_entry demo_cert_login demo_sid) = Some PS_AUTH_COMPLETED"
  "map_option ce_auth_type (find_client_entry demo_cert_login demo_sid) = Some 8"
  "list_ex (\<lambda>e. find_client_entry demo_cert_login demo_sid = Some e) (sec_db demo_cert_login)"
  by code_simp+

theorem completed_certificate_verified_witness:
  "\<exists>e. find_client_entry demo_cert_login demo_sid = Some e \<and> ce_status e = PS_AUTH_COMPLETED \<and> ce_tls_auth_ok e"
proof -
  obtain e where e: "find_client_entry demo_cert_login demo_sid = Some e" "e \<in> set (sec_db demo_cert_login)"
    using demo_cert_facts(3) by (auto simp: list_ex_iff)
  then have "ce_status e = PS_AUTH_COMPLETED" "ce_auth_type e = 8" using demo_cert_facts(1,2) by auto
  moreover from this have "ce_tls_auth_ok e"
    by (intro completed_certificate_verified [OF _ e(2) [unfolded demo_cert_login_def]]) (simp_all add: demo_sec_def)
  ultimately show ?thesis using e(1) by blast
qed

end
