(* ===== verification/Vpn_System.thy ===== *)
theory Vpn_System
  imports Main_Auth Main_Witness Sec_Witness
begin

text \<open>
  The main process together with the instances of the security module.  The synchronous
  requests of main (opening and closing a session, ending sessions) are answered by the handlers
  of the module's model over a link that may fail; the requests that workers send to the module
  interleave with the events of main.
\<close>

section \<open>The link between main and the security module\<close>

text \<open>The state of every instance, and all messages that were sent, in order.\<close>

record sec_world =
  sw_mod :: "nat \<Rightarrow> sec_mod_st"
  sw_out :: "sec_out list"

text \<open>
  What happens to a request: whether it is sent, the environment in which the module handles
  it, the configuration that the configuration module adds, and whether the reply arrives.
\<close>

record sec_link =
  lk_sent :: bool
  lk_env :: sec_env
  lk_conf :: "session_rep \<Rightarrow> group_cfg_st"
  lk_recv :: bool

definition serve :: "(sec_mod_st \<Rightarrow> sec_mod_st \<times> sec_out list) \<Rightarrow> nat \<Rightarrow> sec_world \<Rightarrow> sec_out list \<times> sec_world" where
  "serve f k w = (case f (sw_mod w k) of (sec, outs) \<Rightarrow> (outs, \<lparr>sw_mod = (sw_mod w)(k := sec), sw_out = sw_out w @ outs\<rparr>))"

text \<open>The unpacked reply; the seed is copied byte by byte.\<close>

definition reply_msg :: "(session_rep \<Rightarrow> group_cfg_st) \<Rightarrow> session_rep \<Rightarrow> open_msg" where
  "reply_msg conf rep =
     \<lparr>om_session_start_time = sr_session_start_time rep, om_username = Some (sr_username rep),
      om_groupname = Some (sr_groupname rep), om_user_agent = Some (sr_user_agent rep),
      om_device_type = Some (sr_device_type rep), om_device_platform = Some (sr_device_platform rep),
      om_ip = Some (sr_ip rep), om_vhost = sr_vhost rep,
      om_ipv4_seed = map (\<lambda>j. ucast (drop_bit (8 * j) (sr_ipv4_seed rep))) [0, 1, 2, 3],
      om_config = Some (conf rep)\<rparr>"

fun session_reply :: "sec_out list \<Rightarrow> session_rep option" where
  "session_reply [] = None"
| "session_reply (OutSessionOk rep # outs) = Some rep"
| "session_reply (_ # outs) = session_reply outs"

fun stats_reply :: "sec_out list \<Rightarrow> (u64 \<times> u64 \<times> nat option) option" where
  "stats_reply [] = None"
| "stats_reply (OutCliStats a b d # outs) = Some (a, b, d)"
| "stats_reply (_ # outs) = stats_reply outs"

definition link_open :: "sec_link \<Rightarrow> nat \<Rightarrow> bytes \<Rightarrow> string option \<Rightarrow> string option \<Rightarrow> sec_world \<Rightarrow> open_result \<times> sec_world" where
  "link_open lk k cookie a b w =
     (if \<not> lk_sent lk then (OpenSendFail, w)
      else (case serve (\<lambda>sec. snd (handle_secm_session_open_cmd (lk_env lk) cookie a b sec)) k w of
              (outs, w') \<Rightarrow>
                (if \<not> lk_recv lk then OpenRecvFail 0
                 else case session_reply outs of
                   Some rep \<Rightarrow> OpenOk (reply_msg (lk_conf lk) rep)
                 | None \<Rightarrow> if OutSessionFailed \<in> set outs then OpenRejected else OpenRecvFail 0, w')))"

definition link_close :: "sec_link \<Rightarrow> nat \<Rightarrow> session_close_req \<Rightarrow> sec_world \<Rightarrow> close_result \<times> sec_world" where
  "link_close lk k req w =
     (if \<not> lk_sent lk then (CloseSendFail, w)
      else (case serve (\<lambda>sec. snd (handle_secm_session_close_cmd (lk_env lk) req sec)) k w of
              (outs, w') \<Rightarrow>
                (if \<not> lk_recv lk then CloseRecvFail 0
                 else case stats_reply outs of Some (a, b, d) \<Rightarrow> CloseOk a b d | None \<Rightarrow> CloseRecvFail 0, w')))"

definition link_term :: "sec_link \<Rightarrow> (sec_mod_st \<Rightarrow> int \<times> sec_mod_st \<times> sec_out list) \<Rightarrow> nat \<Rightarrow> sec_world \<Rightarrow> int \<times> sec_world" where
  "link_term lk f k w =
     (if \<not> lk_sent lk then (-1, w)
      else (if lk_recv lk then fst (f (sw_mod w k)) else -1, snd (serve (\<lambda>sec. snd (f sec)) k w)))"

definition linked :: "sec_world main_env \<Rightarrow> bool" where
  "linked env \<longleftrightarrow>
     (\<exists>lk. me_open env = link_open lk \<and> me_close env = link_close lk \<and>
       me_term_user env = (\<lambda>k u. link_term lk (terminate_user_sessions (Some u)) k) \<and>
       me_term_sid env = (\<lambda>k i. link_term lk (terminate_session_by_sid (Some i)) k))"

section \<open>The security module keeps its promises\<close>

definition world_ok :: "sec_world \<Rightarrow> bool" where
  "world_ok w \<longleftrightarrow> (\<forall>k. sec_ok (sw_mod w k) \<and> all_announced (sw_mod w k) (sw_out w))"

definition authenticated :: "sec_world \<Rightarrow> bytes \<Rightarrow> bool" where
  "authenticated w sid \<longleftrightarrow> (\<exists>u m. OutAuthOk sid u m \<in> set (sw_out w))"

lemma all_announced_mono: "all_announced sec h \<Longrightarrow> set h \<subseteq> set h' \<Longrightarrow> all_announced sec h'"
  unfolding all_announced_def using announced_mono by blast

lemma serve_ok:
  assumes "serve (sec_step env op) k w = (outs, w')" "world_ok w"
  shows "world_ok w' \<and> (authenticated w sid \<longrightarrow> authenticated w' sid)"
proof -
  have sec: "sec_ok (sw_mod w j)" "all_announced (sw_mod w j) (sw_out w)" for j using assms(2) by (auto simp: world_ok_def)
  have w': "w' = \<lparr>sw_mod = (sw_mod w)(k := fst (sec_step env op (sw_mod w k))), sw_out = sw_out w @ snd (sec_step env op (sw_mod w k))\<rparr>"
    using assms(1) by (simp add: serve_def split: prod.splits)
  have "sec_ok (fst (sec_step env op (sw_mod w k)))"
    using sec_step_trans [OF sec(1) [of k], of op env] by (simp add: sec_trans_def)
  moreover have "all_announced (sw_mod w j) (sw_out w')" for j
    using all_announced_mono [OF sec(2)] by (simp add: w')
  ultimately show ?thesis
    using sec all_announced_step [OF sec [of k], of env op] by (auto simp: world_ok_def authenticated_def w')
qed

lemma session_reply_mem: "session_reply outs = Some rep \<Longrightarrow> OutSessionOk rep \<in> set outs"
  by (induction outs rule: session_reply.induct) auto

lemma open_serves: "serve (\<lambda>sec. snd (handle_secm_session_open_cmd env c a b sec)) = serve (sec_step env (OpSessionOpen c a b))"
  and close_serves: "serve (\<lambda>sec. snd (handle_secm_session_close_cmd env q sec)) = serve (sec_step env (OpSessionClose q))"
  and term_user_serves: "serve (\<lambda>sec. snd (terminate_user_sessions u sec)) = serve (sec_step env (OpTermUser u))"
  and term_sid_serves: "serve (\<lambda>sec. snd (terminate_session_by_sid u sec)) = serve (sec_step env (OpTermSession u))"
  by (simp_all add: serve_def [abs_def])

lemma session_ok_sid:
  "OutSessionOk rep \<in> set (snd (snd (handle_secm_session_open_cmd env c a b sec))) \<Longrightarrow> sr_sid rep = c"
  by (auto simp: handle_secm_session_open_cmd_def session_open_finish_def session_open_reply_def
      send_failed_session_open_reply_def Let_def dest: find_sid split: if_splits option.splits)

lemma link_open_later:
  assumes "link_open lk k c a b w = (r, w')" "world_ok w"
  shows "world_ok w' \<and> (authenticated w d \<longrightarrow> authenticated w' d)"
proof (cases "lk_sent lk")
  case True
  obtain outs w1 where s: "serve (sec_step (lk_env lk) (OpSessionOpen c a b)) k w = (outs, w1)" by fastforce
  then have "w' = w1" using assms(1) True by (simp add: link_open_def open_serves)
  then show ?thesis using serve_ok [OF s assms(2)] by simp
qed (use assms in \<open>simp add: link_open_def\<close>)

lemma link_open_grants:
  assumes "link_open lk k c a b w = (OpenOk m, w')" "world_ok w"
  shows "authenticated w' c"
proof -
  obtain outs where s: "serve (sec_step (lk_env lk) (OpSessionOpen c a b)) k w = (outs, w')" "session_reply outs \<noteq> None"
    using assms(1) by (auto simp: link_open_def open_serves split: if_splits prod.splits option.splits)
  then obtain rep where rep: "OutSessionOk rep \<in> set outs" using session_reply_mem by fastforce
  have outs: "outs = snd (sec_step (lk_env lk) (OpSessionOpen c a b) (sw_mod w k))"
    using s(1) by (simp add: serve_def split: prod.splits)
  have sec: "sec_ok (sw_mod w k)" "all_announced (sw_mod w k) (sw_out w)" using assms(2) by (auto simp: world_ok_def)
  obtain e where e: "find_client_entry (sw_mod w k) (sr_sid rep) = Some e" "ce_status e = PS_AUTH_COMPLETED"
    using sec_trans_session [OF sec_step_trans [OF sec(1)]] rep outs by blast
  then have "announced e (sw_out w)" using sec(2) unfolding all_announced_def by blast
  moreover have "ce_sid e = c" using session_ok_sid rep outs find_sid [OF e(1)] by simp
  ultimately have "authenticated w c" by (auto simp: announced_def authenticated_def)
  then show ?thesis using link_open_later [OF assms] by blast
qed

lemma link_close_later:
  assumes "link_close lk k q w = (r, w')" "world_ok w"
  shows "world_ok w' \<and> (authenticated w d \<longrightarrow> authenticated w' d)"
proof (cases "lk_sent lk")
  case True
  obtain outs w1 where s: "serve (sec_step (lk_env lk) (OpSessionClose q)) k w = (outs, w1)" by fastforce
  then have "w' = w1" using assms(1) True by (simp add: link_close_def close_serves)
  then show ?thesis using serve_ok [OF s assms(2)] by simp
qed (use assms in \<open>simp add: link_close_def\<close>)

lemma link_term_later:
  assumes "link_term lk f k w = (r, w')" "world_ok w" "serve (\<lambda>sec. snd (f sec)) = serve (sec_step env op)"
  shows "world_ok w' \<and> (authenticated w d \<longrightarrow> authenticated w' d)"
proof (cases "lk_sent lk")
  case True
  obtain outs w1 where s: "serve (sec_step env op) k w = (outs, w1)" by fastforce
  then have "w' = w1" using assms(1,3) True by (simp add: link_term_def)
  then show ?thesis using serve_ok [OF s assms(2)] by simp
qed (use assms in \<open>simp add: link_term_def\<close>)

interpretation authority: session_authority world_ok authenticated linked
proof unfold_locales
  fix env w k c a b and r :: open_result and w' d m q and r' :: close_result and u :: string and n :: int
  assume lk: "linked env" and w: "world_ok w"
  obtain lk where eq: "me_open env = link_open lk" "me_close env = link_close lk"
    "me_term_user env = (\<lambda>k u. link_term lk (terminate_user_sessions (Some u)) k)"
    "me_term_sid env = (\<lambda>k i. link_term lk (terminate_session_by_sid (Some i)) k)"
    using lk by (auto simp: linked_def)
  show "me_open env k c a b w = (r, w') \<Longrightarrow> world_ok w' \<and> (\<forall>d. authenticated w d \<longrightarrow> authenticated w' d)"
    using link_open_later [OF _ w] by (simp add: eq)
  show "me_open env k c a b w = (OpenOk m, w') \<Longrightarrow> authenticated w' c"
    using link_open_grants [OF _ w] by (simp add: eq)
  show "me_close env k q w = (r', w') \<Longrightarrow> world_ok w' \<and> (\<forall>d. authenticated w d \<longrightarrow> authenticated w' d)"
    using link_close_later [OF _ w] by (simp add: eq)
  show "me_term_user env k u w = (n, w') \<Longrightarrow> world_ok w' \<and> (\<forall>d. authenticated w d \<longrightarrow> authenticated w' d)"
    using link_term_later [OF _ w term_user_serves] by (simp add: eq)
  show "me_term_sid env k u w = (n, w') \<Longrightarrow> world_ok w' \<and> (\<forall>d. authenticated w d \<longrightarrow> authenticated w' d)"
    using link_term_later [OF _ w term_sid_serves] by (simp add: eq)
qed

section \<open>Runs of the system\<close>

text \<open>An event of main, or a request that a worker or the timer makes to an instance of the security module.\<close>

datatype sys_event = Sys_Main "sec_world main_event" | Sys_Sec nat sec_env sec_op

fun sys_step :: "sys_event \<Rightarrow> sec_world main_server_st \<Rightarrow> sec_world main_server_st option" where
  "sys_step (Sys_Main ev) s = (if ms_exited s then Some s else main_step ev s)"
| "sys_step (Sys_Sec k env op) s = Some (s\<lparr>ms_sec := snd (serve (sec_step env op) k (ms_sec s))\<rparr>)"

fun sys_run :: "sys_event list \<Rightarrow> sec_world main_server_st \<Rightarrow> sec_world main_server_st option" where
  "sys_run [] s = Some s"
| "sys_run (ev # evs) s = do { s1 \<leftarrow> sys_step ev s; sys_run evs s1 }"

fun sys_event_ok :: "(bytes \<Rightarrow> nat) \<Rightarrow> sec_world main_server_st \<Rightarrow> sys_event \<Rightarrow> bool" where
  "sys_event_ok H s (Sys_Main ev) \<longleftrightarrow> event_ok H s ev \<and> (\<forall>env. event_env ev = Some env \<longrightarrow> linked env)"
| "sys_event_ok H s (Sys_Sec k env op) \<longleftrightarrow> True"

fun sys_run_ok :: "(bytes \<Rightarrow> nat) \<Rightarrow> sys_event list \<Rightarrow> sec_world main_server_st \<Rightarrow> bool" where
  "sys_run_ok H [] s \<longleftrightarrow> True"
| "sys_run_ok H (ev # evs) s \<longleftrightarrow>
     sys_event_ok H s ev \<and> (case sys_step ev s of None \<Rightarrow> True | Some s1 \<Rightarrow> sys_run_ok H evs s1)"

definition sys_inv :: "(bytes \<Rightarrow> nat) \<Rightarrow> sec_world main_server_st \<Rightarrow> bool" where
  "sys_inv H s \<longleftrightarrow> (ms_exited s \<or> main_inv H s) \<and> authority.auth_ok s"

lemma sys_step_ok:
  assumes "sys_inv H s" "sys_event_ok H s ev"
  shows "\<exists>s'. sys_step ev s = Some s' \<and> sys_inv H s'"
proof (cases ev)
  case (Sys_Main e)
  show ?thesis
  proof (cases "ms_exited s")
    case False
    then have inv: "main_inv H s" "event_ok H s e" and ok: "authority.auth_ok s" using assms Sys_Main by (auto simp: sys_inv_def)
    obtain s' where s': "main_step e s = Some s'" "steps_to H s s'" using main_step_ok [OF inv(1) False inv(2)] by blast
    have "authority.auth_ok s'" by (rule authority.main_step_auth [OF s'(1) ok _ inv]) (use assms(2) Sys_Main in auto)
    moreover have "ms_exited s' \<or> main_inv H s'" using s'(2) by (auto simp: steps_to_def settles_def)
    ultimately show ?thesis using s'(1) Sys_Main False by (simp add: sys_inv_def)
  qed (use assms Sys_Main in simp)
next
  case (Sys_Sec k env op)
  obtain outs w where w: "serve (sec_step env op) k (ms_sec s) = (outs, w)" by fastforce
  have "world_ok (ms_sec s)" using assms(1) by (simp add: sys_inv_def authority.auth_ok_def)
  from serve_ok [OF w this] have "authority.auth_ok (s\<lparr>ms_sec := w\<rparr>)"
    using assms(1) by (auto simp: sys_inv_def authority.auth_ok_def)
  then show ?thesis using assms(1) Sys_Sec w by (simp add: sys_inv_def)
qed

lemma sys_run_inv:
  assumes "sys_inv H s" "sys_run_ok H evs s"
  shows "\<exists>s'. sys_run evs s = Some s' \<and> sys_inv H s'"
  using assms
proof (induction evs arbitrary: s)
  case (Cons ev evs)
  then obtain s1 where "sys_step ev s = Some s1" "sys_inv H s1" using sys_step_ok [of H s ev] by auto
  then show ?case using Cons.IH [of s1] Cons.prems(2) by simp
qed simp

lemma sys_init_inv:
  assumes "vs \<noteq> []" "\<And>k. sec_db (mods k) = []"
  shows "sys_inv H (main_init now vs n ban \<lparr>sw_mod = mods, sw_out = []\<rparr>)"
proof -
  have "world_ok \<lparr>sw_mod = mods, sw_out = []\<rparr>"
    using assms(2) by (simp add: world_ok_def all_announced_def find_client_entry_def htable_get_def table_simps)
  then have "authority.auth_ok (main_init now vs n ban \<lparr>sw_mod = mods, sw_out = []\<rparr>)"
    by (simp add: authority.auth_ok_def main_init_def)
  then show ?thesis unfolding sys_inv_def by (intro conjI disjI2 main_init_inv [OF assms(1)])
qed

text \<open>
  C1 No tunnel without authentication.  In every run of the main process together with any
  number of instances of the security module, in which the requests of workers to the module
  interleave arbitrarily with the events of main and every link and system call may fail, the
  descriptor of a tunnel device is handed to a worker only for a cookie for which the module
  has sent a successful authentication reply before.  The events of main satisfy \<^const>\<open>event_ok\<close>
  and the instances start with empty databases.
\<close>

theorem tunnel_requires_authentication:
  assumes "vs \<noteq> []" "\<And>k. sec_db (mods k) = []"
    and "sys_run_ok H evs (main_init now vs n ban \<lparr>sw_mod = mods, sw_out = []\<rparr>)"
    and "sys_run evs (main_init now vs n ban \<lparr>sw_mod = mods, sw_out = []\<rparr>) = Some s"
    and "OutCookieOk i fd sid user \<in> set (ms_trace s)"
  shows "\<exists>u m. OutAuthOk sid u m \<in> set (sw_out (ms_sec s))"
proof -
  have "authority.auth_ok s"
    using sys_run_inv [OF sys_init_inv [OF assms(1,2)] assms(3)] assms(4) by (auto simp: sys_inv_def)
  moreover have "sid \<in> set (tunnels tr)" if "OutCookieOk i fd sid user \<in> set tr" for tr
    using that by (induction tr rule: tunnels.induct) auto
  ultimately show ?thesis using assms(5) by (auto simp: authority.auth_ok_def authenticated_def)
qed

section \<open>Sessions that main refuses\<close>

text \<open>The removal of a process without a session does not talk to the security module.\<close>

lemma silent_authority: "session_authority (\<lambda>x. x = w) (\<lambda>_ _. True) (\<lambda>_. False)"
  by unfold_locales simp_all

lemma remove_inactive_sec:
  assumes "remove_proc env i kill quit s = Some s'" "ms_heap s i = Some p" "\<not> p_active_sid p"
  shows "ms_sec s' = ms_sec s"
proof -
  define s1 where "s1 = upd_stats (\<lambda>st. st\<lparr>st_active_clients := st_active_clients st - 1\<rparr>) (s\<lparr>ms_procs := remove1 i (ms_procs s)\<rparr>)"
  define s2 where "s2 = (if kill \<and> p_pid p \<noteq> -1 \<and> p_pid p \<noteq> 0 then emit (OutKill (p_pid p)) s1 else s1)"
  have sec: "ms_sec s2 = ms_sec s" by (simp add: s2_def s1_def)
  have "remove_proc_rest env i s2 = Some s'"
    using assms by (simp add: remove_proc_def Let_def s1_def [symmetric] s2_def [symmetric])
  then have "session_authority.quiet (\<lambda>x. x = ms_sec s) (\<lambda>_ _. True) s2 s'"
    by (rule session_authority.calmD(2) [OF silent_authority session_authority.remove_proc_rest_calm [OF silent_authority]])
  then show ?thesis
    unfolding session_authority.quiet_def [OF silent_authority] session_authority.later_def [OF silent_authority] sec by simp
qed

lemma session_open_finish_in_use:
  assumes "OutSessionOk rep \<in> set (snd (snd (session_open_finish env e sec out0)))" "OutSessionOk rep \<notin> set out0"
  shows "\<exists>d x. fst (snd (session_open_finish env e sec out0)) =
    store_entry (e\<lparr>ce_discon_reason := d, ce_exptime := x, ce_in_use := ce_in_use e + 1\<rparr>) sec"
  using assms
  by (auto simp: session_open_finish_def send_failed_session_open_reply_def Let_def split: if_splits option.splits)

lemma session_open_in_use:
  assumes "OutSessionOk rep \<in> set (snd (snd (handle_secm_session_open_cmd env c a b sec)))" "sec_ok sec"
  shows "\<exists>e e'. find_client_entry sec c = Some e \<and>
    find_client_entry (fst (snd (handle_secm_session_open_cmd env c a b sec))) c = Some e' \<and> ce_in_use e' = ce_in_use e + 1"
proof -
  let ?h = "handle_secm_session_open_cmd env c a b sec"
  have no: "OutSessionOk rep \<notin> set (snd (send_failed_session_open_reply env))"
    by (simp add: send_failed_session_open_reply_def)
  then obtain e where e: "find_client_entry sec c = Some e"
    using assms(1) by (auto simp: handle_secm_session_open_cmd_def split: prod.splits if_splits option.splits)
  obtain e1 out where h: "?h = session_open_finish env e1 sec out" "OutSessionOk rep \<notin> set out"
    "ce_sid e1 = ce_sid e" "ce_in_use e1 = ce_in_use e"
    using assms(1) no e
    by (fastforce simp: handle_secm_session_open_cmd_def Let_def split: prod.splits if_splits)
  have "OutSessionOk rep \<in> set (snd (snd (session_open_finish env e1 sec out)))" using assms(1) h(1) by simp
  from session_open_finish_in_use [OF this h(2)] obtain d x where
    "fst (snd ?h) = store_entry (e1\<lparr>ce_discon_reason := d, ce_exptime := x, ce_in_use := ce_in_use e1 + 1\<rparr>) sec"
    using h(1) by auto
  moreover have "ce_sid e = c" using find_sid [OF e] by simp
  ultimately show ?thesis using e h(3,4) assms(2) by (simp add: table_simps)
qed

text \<open>
  C26 A session that main refuses after the security module has opened it, because roaming is
  denied or the reply has no configuration, stays open in the module: its use count is one
  higher, and the removal of the process does not close it.
\<close>

theorem refused_session_leaks:
  assumes "ms_heap s i = Some p" "\<not> p_active_sid p" "world_ok (ms_sec s)" "me_open env = link_open lk"
    and "link_open lk k cookie (lease_ip_str (p_ipv4 p)) (lease_ip_str (p_ipv6 p)) (ms_sec s) = (OpenOk m, w)"
    and "session_open env k i cookie s = Some (r, s1)" "r < 0" "length cookie = SID_SIZE"
    and "remove_proc env' i kill quit s1 = Some s2"
  shows "\<exists>e e'. find_client_entry (sw_mod (ms_sec s) k) cookie = Some e \<and>
    find_client_entry (sw_mod (ms_sec s2) k) cookie = Some e' \<and> ce_in_use e' = ce_in_use e + 1"
proof -
  let ?a = "lease_ip_str (p_ipv4 p)" and ?b = "lease_ip_str (p_ipv6 p)"
  let ?h = "handle_secm_session_open_cmd (lk_env lk) cookie ?a ?b (sw_mod (ms_sec s) k)"
  let ?s = "(emit (OutSecOpen k cookie ?a ?b) s)\<lparr>ms_sec := w\<rparr>"
  have acc: "session_accept env i p m ?s = Some (r, s1)"
    using assms(1,4-6,8) by (simp add: session_open_def Let_def)
  have "ms_sec s1 = w" using authority.session_accept_sec [OF acc] by simp
  moreover have "authority.quiet ?s s1" using authority.calmD(1) [OF authority.session_accept_calm acc] assms(1) by simp
  then have "\<not> p_active_sid q" if "ms_heap s1 i = Some q" for q
    using that assms(1,2) unfolding authority.quiet_def by fastforce
  moreover obtain q where "ms_heap s1 i = Some q" using assms(9) by (auto simp: remove_proc_def Option.bind_eq_Some_conv)
  ultimately have w: "ms_sec s2 = w" using remove_inactive_sec [OF assms(9)] by auto
  obtain outs where "outs = snd (snd ?h)" "session_reply outs \<noteq> None" "sw_mod w k = fst (snd ?h)"
    using assms(5) by (auto simp: link_open_def serve_def split: if_splits option.splits prod.splits)
  then obtain rep where "OutSessionOk rep \<in> set (snd (snd ?h))" "sw_mod w k = fst (snd ?h)" using session_reply_mem by fastforce
  moreover have "sec_ok (sw_mod (ms_sec s) k)" using assms(3) by (simp add: world_ok_def)
  ultimately show ?thesis using session_open_in_use [of rep "lk_env lk" cookie ?a ?b] w by simp
qed

section \<open>Ending the sessions of a user\<close>

lemma link_term_other: "j \<noteq> k \<Longrightarrow> sw_mod (snd (link_term lk f j w)) k = sw_mod w k"
  by (simp add: link_term_def serve_def split: prod.split)

lemma term_instances_stop:
  assumes "a \<le> j" "j < k" "j < n" "\<And>w'. sw_mod w' j = sw_mod w j \<Longrightarrow> fst (link_term lk f j w') > 0"
  shows "sw_mod (snd (term_instances (link_term lk f) [a..<n] w)) k = sw_mod w k"
  using assms
proof (induction "j - a" arbitrary: a w)
  case 0
  then have a: "a = j" "[a..<n] = j # [Suc j..<n]" by (simp_all add: upt_conv_Cons)
  obtain r w1 where r: "link_term lk f j w = (r, w1)" by fastforce
  have "0 < r" using 0(5) [of w] r by simp
  then show ?case using link_term_other [of j k lk f w] 0(3) r a by simp
next
  case (Suc x)
  have up: "[a..<n] = a # [Suc a..<n]" using Suc by (simp add: upt_conv_Cons)
  obtain r w1 where r: "link_term lk f a w = (r, w1)" by fastforce
  have w1: "sw_mod w1 j = sw_mod w j" "sw_mod w1 k = sw_mod w k"
    using link_term_other [of a j lk f w] link_term_other [of a k lk f w] Suc r by auto
  have "sw_mod (snd (term_instances (link_term lk f) [Suc a..<n] w1)) k = sw_mod w1 k"
    using Suc w1 by (intro Suc(1)) auto
  then show ?case using r w1 up by simp
qed

text \<open>
  C28 Terminating a user ends at the first instance that had a session of the user: the
  instances behind it are not asked, and their cookies of the user stay valid.
\<close>

theorem terminate_user_skips_instances:
  assumes "me_term_user env = (\<lambda>k u. link_term lk (terminate_user_sessions (Some u)) k)" "lk_sent lk" "lk_recv lk"
    and "name \<noteq> []" "e \<in> set (sec_db (sw_mod (ms_sec s) j))" "ai_username (ce_acct e) = name"
    and "j < k" "j < length (ms_instances s)"
  shows "sw_mod (ms_sec (terminate_user_sessions_in_secmod env name s)) k = sw_mod (ms_sec s) k"
proof -
  have "fst (link_term lk (terminate_user_sessions (Some name)) j w') > 0" if "sw_mod w' j = sw_mod (ms_sec s) j" for w'
    using assms(2-6) that by (auto simp: link_term_def terminate_user_sessions_def Let_def list_ex_iff)
  from term_instances_stop [OF _ assms(7,8) this, of 0] show ?thesis
    by (simp add: terminate_user_sessions_in_secmod_def assms(1))
qed

end
