(* ===== verification/Vpn_Witness.thy ===== *)
theory Vpn_Witness
  imports Vpn_System
begin

text \<open>
  Concrete runs of the main process with its security module: a login at the module followed by
  a connection with the cookie of the login, the same with roaming denied, and the end of the
  sessions of a user on two instances.
\<close>

section \<open>A login and a tunnel\<close>

definition demo_link :: sec_link where
  "demo_link = \<lparr>lk_sent = True, lk_env = demo_env 1002 [] 0, lk_conf = (\<lambda>_. demo_group), lk_recv = True\<rparr>"

definition demo_sys_env :: "sec_world main_env" where
  "demo_sys_env =
     (demo_menv (link_open demo_link) (link_close demo_link))
     \<lparr>me_term_user := (\<lambda>k u. link_term demo_link (terminate_user_sessions (Some u)) k),
      me_term_sid := (\<lambda>k i. link_term demo_link (terminate_session_by_sid (Some i)) k)\<rparr>"

lemma demo_link_open:
  "link_open demo_link k c a b w = (OpenOk m, w') \<Longrightarrow> \<exists>gc. om_config m = Some gc \<and> gc_iroutes gc = None"
  by (auto simp: link_open_def demo_link_def reply_msg_def demo_group_def split: prod.splits if_splits option.splits)

lemma demo_sys_env_ok: "menv_ok length demo_sys_env" "linked demo_sys_env"
proof -
  have "menv_ok length (demo_menv (link_open demo_link) (link_close demo_link))"
    using demo_menv_ok demo_link_open by blast
  then show "menv_ok length demo_sys_env" by (simp add: menv_ok_def demo_sys_env_def)
  show "linked demo_sys_env"
    unfolding linked_def by (rule exI [of _ demo_link]) (simp add: demo_sys_env_def demo_menv_def)
qed

definition demo_sys_events :: "sys_event list" where
  "demo_sys_events = map (\<lambda>(env, op). Sys_Sec 0 env op) demo_login @ map Sys_Main (demo_connect demo_sys_env 0 9)"

definition demo_sys :: "sec_world main_server_st" where
  "demo_sys = main_init 900 demo_vhosts 1 ban_demo \<lparr>sw_mod = (\<lambda>_. demo_sec), sw_out = []\<rparr>"

lemma sys_run_ok_all: "list_all (\<lambda>ev. \<forall>s. sys_event_ok H s ev) evs \<Longrightarrow> sys_run_ok H evs s"
  by (induction evs arbitrary: s) (auto split: option.split)

lemma demo_sys_events_ok: "sys_run_ok length demo_sys_events s"
  by (rule sys_run_ok_all)
    (simp add: demo_sys_events_def demo_login_def demo_connect_def demo_sys_env_ok demo_accept_def demo_addr_wf worker_msg_ok_def demo_msg_def)

lemma demo_sys_tunnel:
  "map_option (\<lambda>s. list_ex (\<lambda>out. case out of OutCookieOk i fd sid user \<Rightarrow> i = 0 \<and> sid = demo_sid | _ \<Rightarrow> False) (ms_trace s))
     (sys_run demo_sys_events demo_sys) = Some True"
  by code_simp

theorem tunnel_requires_authentication_witness:
  "\<exists>s fd user u m. sys_run demo_sys_events demo_sys = Some s \<and>
     OutCookieOk 0 fd demo_sid user \<in> set (ms_trace s) \<and> OutAuthOk demo_sid u m \<in> set (sw_out (ms_sec s))"
proof -
  obtain s fd user where s: "sys_run demo_sys_events demo_sys = Some s" "OutCookieOk 0 fd demo_sid user \<in> set (ms_trace s)"
    using demo_sys_tunnel by (auto simp: list_ex_iff split: main_out.splits)
  have "demo_vhosts \<noteq> []" "\<And>k. sec_db ((\<lambda>_ :: nat. demo_sec) k) = []" by (simp_all add: demo_vhosts_def demo_sec_def)
  from tunnel_requires_authentication [OF this demo_sys_events_ok s [unfolded demo_sys_def]] show ?thesis
    using s by blast
qed

section \<open>A session refused because of roaming\<close>

definition demo_roam_link :: sec_link where
  "demo_roam_link = demo_link\<lparr>lk_conf := (\<lambda>_. demo_group\<lparr>gc_deny_roaming := Some True\<rparr>)\<rparr>"

definition demo_roam_env :: "sec_world main_env" where
  "demo_roam_env = demo_menv (link_open demo_roam_link) (link_close demo_roam_link)"

definition demo_roam_events :: "sys_event list" where
  "demo_roam_events = map (\<lambda>(env, op). Sys_Sec 0 env op) demo_login @ [Sys_Main (E_Accept demo_sys_env (demo_accept 9))]"

lemma demo_roam_events_ok: "sys_run_ok length demo_roam_events s"
  by (rule sys_run_ok_all)
    (simp add: demo_roam_events_def demo_login_def demo_sys_env_ok demo_accept_def demo_addr_wf)

lemma demo_refused:
  "map_option (\<lambda>s. case ms_heap s 0 of None \<Rightarrow> False | Some p \<Rightarrow> \<not> p_active_sid p \<and>
      (case link_open demo_roam_link 0 demo_sid (lease_ip_str (p_ipv4 p)) (lease_ip_str (p_ipv6 p)) (ms_sec s) of
         (OpenOk m, w) \<Rightarrow> True | _ \<Rightarrow> False) \<and>
      (case session_open demo_roam_env 0 0 demo_sid s of None \<Rightarrow> False
       | Some (r, s1) \<Rightarrow> r < 0 \<and> (case remove_proc demo_roam_env 0 True False s1 of None \<Rightarrow> False | Some _ \<Rightarrow> True)))
     (sys_run demo_roam_events demo_sys) = Some True"
  by code_simp

lemma demo_sid_length: "length demo_sid = SID_SIZE"
  by (simp add: demo_sid_def)

theorem refused_session_leaks_witness:
  "\<exists>s r s1 s2 e e'. sys_run demo_roam_events demo_sys = Some s \<and> session_open demo_roam_env 0 0 demo_sid s = Some (r, s1) \<and>
     remove_proc demo_roam_env 0 True False s1 = Some s2 \<and> find_client_entry (sw_mod (ms_sec s) 0) demo_sid = Some e \<and>
     find_client_entry (sw_mod (ms_sec s2) 0) demo_sid = Some e' \<and> ce_in_use e' = ce_in_use e + 1"
proof -
  obtain s p m w r s1 s2 where s: "sys_run demo_roam_events demo_sys = Some s" "ms_heap s 0 = Some p" "\<not> p_active_sid p"
    "link_open demo_roam_link 0 demo_sid (lease_ip_str (p_ipv4 p)) (lease_ip_str (p_ipv6 p)) (ms_sec s) = (OpenOk m, w)"
    "session_open demo_roam_env 0 0 demo_sid s = Some (r, s1)" "r < 0" "remove_proc demo_roam_env 0 True False s1 = Some s2"
    using demo_refused by (auto split: option.splits prod.splits open_result.splits)
  have "sys_inv length demo_sys" unfolding demo_sys_def by (rule sys_init_inv) (simp_all add: demo_vhosts_def demo_sec_def)
  from sys_run_inv [OF this demo_roam_events_ok] have "world_ok (ms_sec s)"
    using s(1) by (simp add: sys_inv_def authority.auth_ok_def)
  moreover have "me_open demo_roam_env = link_open demo_roam_link" by (simp add: demo_roam_env_def demo_menv_def)
  ultimately show ?thesis using refused_session_leaks [OF s(2,3) _ _ s(4-6) demo_sid_length s(7)] s(1,5,7) by blast
qed

section \<open>A user with sessions on two instances\<close>

definition demo_two :: "sec_world main_server_st" where
  "demo_two = main_init 900 demo_vhosts 2 ban_demo \<lparr>sw_mod = (\<lambda>k. demo_open\<lparr>sec_index := k\<rparr>), sw_out = []\<rparr>"

lemma demo_open_user: "list_ex (\<lambda>e. ai_username (ce_acct e) = ''alice'') (sec_db demo_open)"
  by code_simp

theorem terminate_user_skips_instances_witness:
  "\<exists>e \<in> set (sec_db (sw_mod (ms_sec (terminate_user_sessions_in_secmod demo_sys_env ''alice'' demo_two)) 1)).
     ai_username (ce_acct e) = ''alice''"
proof -
  have two: "sw_mod (ms_sec demo_two) k = demo_open\<lparr>sec_index := k\<rparr>" "length (ms_instances demo_two) = 2" for k
    by (simp_all add: demo_two_def main_init_def Let_def)
  obtain e where e: "e \<in> set (sec_db demo_open)" "ai_username (ce_acct e) = ''alice''"
    using demo_open_user by (auto simp: list_ex_iff)
  have "sw_mod (ms_sec (terminate_user_sessions_in_secmod demo_sys_env ''alice'' demo_two)) 1 = sw_mod (ms_sec demo_two) 1"
    by (rule terminate_user_skips_instances [of _ demo_link _ e _ 0])
      (use e in \<open>simp_all add: two demo_sys_env_def demo_link_def\<close>)
  then show ?thesis using e by (auto simp: two)
qed

end
