(* ===== verification/Text_Codec.thy ===== *)
theory Text_Codec
  imports Ocserv_Prelude
begin

text \<open>
  Decoding and encoding of the text that clients send (\<^verbatim>\<open>src/src/html.c\<close>) and the validation
  of host names (\<^verbatim>\<open>src/src/valid-hostname.c\<close>).  A C string is the list of its characters;
  reading at the index of its length gives the terminator.  A read of the URL decoder behind the
  terminator is out of bounds; the HTML decoder stops at the length it is given, which is the one
  of the string, and its library calls stop at the terminator.
  Characters are in the C locale, and \<^verbatim>\<open>wcrtomb\<close>, which depends on the locale, is an argument.
\<close>

section \<open>Reading strings\<close>

definition c_at :: "string \<Rightarrow> nat \<Rightarrow> char" where
  "c_at s i = (if i < length s then s ! i else CHR 0x00)"

text \<open>\<^verbatim>\<open>strncasecmp (s, pat, strlen (pat)) == 0\<close>.\<close>

definition starts_nocase :: "string \<Rightarrow> string \<Rightarrow> bool" where
  "starts_nocase pat s = strcaseeq (take (length pat) s) pat"

definition base_digit :: "nat \<Rightarrow> char \<Rightarrow> bool" where
  "base_digit base c = (case xdigit_val c of None \<Rightarrow> False | Some d \<Rightarrow> d < base)"

definition base_val :: "nat \<Rightarrow> string \<Rightarrow> nat" where
  "base_val base ds = foldl (\<lambda>v d. base * v + the (xdigit_val d)) 0 ds"

text \<open>The prefix \<^verbatim>\<open>0x\<close> that base 16 allows in front of a digit.\<close>

definition skip_0x :: "nat \<Rightarrow> string \<Rightarrow> string" where
  "skip_0x base s =
     (if base = 16 \<and> length s \<ge> 3 \<and> s ! 0 = CHR ''0'' \<and> tolower (s ! 1) = CHR ''x'' \<and> base_digit 16 (s ! 2)
      then drop 2 s else s)"

definition strtol :: "nat \<Rightarrow> string \<Rightarrow> int \<times> string" where
  "strtol base s =
     (case strto_sign (dropWhile isspace s) of (neg, r) \<Rightarrow>
        (let r' = skip_0x base r; ds = takeWhile (base_digit base) r'; v = int (base_val base ds) in
         if ds = [] then (0, s)
         else (if neg then max (- (2 ^ 63)) (- v) else min (2 ^ 63 - 1) v, dropWhile (base_digit base) r')))"

section \<open>unescape_html\<close>

definition html_entities :: "(string \<times> char) list" where
  "html_entities =
     [(''&lt;'', CHR ''<''), (''&gt;'', CHR ''>''), (''&nbsp;'', CHR '' ''), (''&quot;'', CHR 0x22),
      (''&amp;'', CHR ''&''), (''&apos;'', CHR 0x27)]"

fun find_entity :: "(string \<times> char) list \<Rightarrow> string \<Rightarrow> (string \<times> char) option" where
  "find_entity [] s = None"
| "find_entity ((pat, c) # tab) s = (if starts_nocase pat s then Some (pat, c) else find_entity tab s)"

abbreviation (input) WCHAR_MAX :: int where "WCHAR_MAX \<equiv> 2 ^ 31 - 1"

text \<open>
  One numeric character reference: \<open>None\<close> when the function fails, else the number of
  characters that are consumed and the bytes that are written.  The argument \<open>room\<close> is \<^verbatim>\<open>len - pos\<close>.
\<close>

definition html_numeric :: "(int \<Rightarrow> string option) \<Rightarrow> nat \<Rightarrow> string \<Rightarrow> (nat \<times> string) option" where
  "html_numeric wcrtomb room s =
     (let p = (if c_at s 2 = CHR ''x'' then drop 3 s else drop 2 s);
          (val, endptr) = strtol (if c_at s 2 = CHR ''x'' then 16 else 10) p
      in
      if c_at endptr 0 \<noteq> CHR '';'' \<or> val > WCHAR_MAX then Some (1, [c_at s 0])
      else (case wcrtomb (sint (word_of_int val :: 32 word)) of
              None \<Rightarrow> None
            | Some mb \<Rightarrow>
                if room > length mb then Some (1 + (length s - length endptr), mb) else None))"

definition html_step :: "(int \<Rightarrow> string option) \<Rightarrow> nat \<Rightarrow> string \<Rightarrow> (nat \<times> string) option" where
  "html_step wcrtomb room s =
     (if c_at s 0 = CHR ''&'' then
        (case find_entity html_entities s of
           Some (pat, c) \<Rightarrow> Some (length pat, [c])
         | None \<Rightarrow> if take 2 s = ''&#'' then html_numeric wcrtomb room s else Some (1, [c_at s 0]))
      else Some (1, [c_at s 0]))"

lemma html_step_pos: "html_step w room s = Some (n, out) \<Longrightarrow> n > 0"
  by (auto simp: html_step_def html_numeric_def html_entities_def Let_def split: if_splits option.splits prod.splits)

function unescape_html_loop :: "(int \<Rightarrow> string option) \<Rightarrow> string \<Rightarrow> nat \<Rightarrow> nat \<Rightarrow> string \<Rightarrow> string option" where
  "unescape_html_loop wcrtomb html len i msg =
     (if i < len then
        (if len - length msg < 1 then None
         else (case html_step wcrtomb (len - length msg) (drop i html) of
                 None \<Rightarrow> None
               | Some (n, out) \<Rightarrow> unescape_html_loop wcrtomb html len (i + n) (msg @ out)))
      else Some msg)"
  by pat_completeness auto
termination by (relation "measure (\<lambda>(w, h, len, i, m). len - i)") (auto dest: html_step_pos)

declare unescape_html_loop.simps [simp del]

definition unescape_html :: "bool \<Rightarrow> (int \<Rightarrow> string option) \<Rightarrow> string \<Rightarrow> nat \<Rightarrow> string option" where
  "unescape_html alloc wcrtomb html len =
     (if \<not> alloc then None else unescape_html_loop wcrtomb html len 0 [])"

section \<open>unescape_url and escape_url\<close>

text \<open>
  \<^verbatim>\<open>sscanf (b, "%02x", &u)\<close> for the two characters of \<open>b\<close>: white space is skipped, a sign is
  accepted, and \<^verbatim>\<open>0x\<close> without digits does not match.  The result is stored in a \<^verbatim>\<open>char\<close>, so
  that its low eight bits matter.
\<close>

definition sscanf_02x :: "string \<Rightarrow> char option" where
  "sscanf_02x b =
     (case strto_sign (dropWhile isspace (takeWhile (\<lambda>c. c \<noteq> CHR 0x00) b)) of (neg, r) \<Rightarrow>
        (let ds = takeWhile (base_digit 16) r; v = base_val 16 ds in
         if ds = [] \<or> map tolower r = ''0x'' then None
         else Some (char_of (if neg then 256 - v else v))))"

datatype codec_result = Decoded string | Rejected | OutOfBounds

function unescape_url_loop :: "string \<Rightarrow> nat \<Rightarrow> nat \<Rightarrow> string \<Rightarrow> codec_result" where
  "unescape_url_loop url len i msg =
     (if i < len then
        (if c_at url i = CHR ''%'' then
           (if i + 2 > length url then OutOfBounds
            else case sscanf_02x [c_at url (i + 1), c_at url (i + 2)] of
                   None \<Rightarrow> Rejected
                 | Some u \<Rightarrow> unescape_url_loop url len (i + 3) (msg @ [u]))
         else if c_at url i = CHR ''+'' then unescape_url_loop url len (i + 1) (msg @ [CHR '' ''])
         else unescape_url_loop url len (i + 1) (msg @ [c_at url i]))
      else Decoded msg)"
  by pat_completeness auto
termination by (relation "measure (\<lambda>(u, len, i, m). len - i)") auto

declare unescape_url_loop.simps [simp del]

definition unescape_url :: "bool \<Rightarrow> string \<Rightarrow> nat \<Rightarrow> codec_result" where
  "unescape_url alloc url len = (if \<not> alloc then Rejected else unescape_url_loop url len 0 [])"

definition hex_upper :: "nat \<Rightarrow> char" where
  "hex_upper d = char_of (if d < 10 then d + 48 else d + 55)"

text \<open>
  The three characters that \<^verbatim>\<open>snprintf (.., 4, "%%%02X", (unsigned int)c)\<close> leaves: a character
  above 127 is negative, is extended to eight digits F.. and truncated to the first two.
\<close>

definition percent_hex :: "char \<Rightarrow> string" where
  "percent_hex c =
     (if ccode c < 128 then [CHR ''%'', hex_upper (ccode c div 16), hex_upper (ccode c mod 16)]
      else ''%FF'')"

definition url_plain :: "char \<Rightarrow> bool" where
  "url_plain c = (isalnum c \<or> c \<in> set ''-_.~'')"

definition escape_char :: "char \<Rightarrow> string" where
  "escape_char c = (if url_plain c then [c] else if c = CHR '' '' then ''+'' else percent_hex c)"

definition escape_url :: "bool \<Rightarrow> string \<Rightarrow> string option" where
  "escape_url alloc url = (if \<not> alloc then None else Some (concat (map escape_char url)))"

section \<open>Host names\<close>

abbreviation (input) MAX_DNS_LABEL_LENGTH :: nat where "MAX_DNS_LABEL_LENGTH \<equiv> 63"
abbreviation (input) MAX_DNS_NAME_LENGTH :: nat where "MAX_DNS_NAME_LENGTH \<equiv> 253"

definition valid_hostname :: "string option \<Rightarrow> bool" where
  "valid_hostname host =
     (case host of
        None \<Rightarrow> False
      | Some [] \<Rightarrow> False
      | Some h \<Rightarrow>
          if hd h = CHR ''-'' then False
          else if \<not> list_all (\<lambda>c. isalnum c \<or> c = CHR ''-'') h then False
          else if last h = CHR ''-'' then False
          else if length h > MAX_DNS_LABEL_LENGTH then False
          else True)"

function fqdn_loop :: "string \<Rightarrow> bool" where
  "fqdn_loop p =
     (if p = [] then True
      else
        let dot = strchr p (CHR ''.'');
            len = (case dot of Some d \<Rightarrow> length p - length d | None \<Rightarrow> length p)
        in
        if len = 0 \<or> len > MAX_DNS_LABEL_LENGTH then False
        else if \<not> valid_hostname (Some (take len p)) then False
        else case dot of None \<Rightarrow> True | Some d \<Rightarrow> fqdn_loop (drop (len + 1) p))"
  by pat_completeness auto
termination by (relation "measure length") auto

declare fqdn_loop.simps [simp del]

definition valid_fqdn :: "string option \<Rightarrow> bool" where
  "valid_fqdn host =
     (case host of
        None \<Rightarrow> False
      | Some [] \<Rightarrow> False
      | Some h \<Rightarrow>
          if length h > MAX_DNS_NAME_LENGTH then False
          else if last h = CHR ''.'' then False
          else fqdn_loop h)"

definition valid_hostport :: "string option \<Rightarrow> bool" where
  "valid_hostport host =
     (case host of
        None \<Rightarrow> False
      | Some [] \<Rightarrow> False
      | Some h \<Rightarrow>
          (case strchr h (CHR '':'') of
             None \<Rightarrow> valid_fqdn (Some h)
           | Some colon \<Rightarrow>
               if tl colon = [] then False
               else if \<not> list_all isdigit (tl colon) then False
               else
                 let len = length h - length colon in
                 if len = 0 \<or> len > MAX_DNS_NAME_LENGTH then False
                 else valid_fqdn (Some (take len h))))"

definition strip_domain :: "string option \<Rightarrow> string option" where
  "strip_domain host =
     (case host of
        None \<Rightarrow> None
      | Some h \<Rightarrow>
          if h \<noteq> [] \<and> hd h = CHR ''.'' then Some h
          else if inet_pton4 h \<noteq> None then Some h
          else (case strchr h (CHR ''.'') of None \<Rightarrow> Some h | Some d \<Rightarrow> Some (upto_chr h (CHR ''.''))))"

section \<open>Properties of the decoders\<close>

lemma html_step_room:
  "html_step w room s = Some (n, out) \<Longrightarrow> room \<ge> 1 \<Longrightarrow> length out \<le> room"
  by (auto simp: html_step_def html_numeric_def Let_def split: if_splits option.splits prod.splits)

text \<open>
  C34 The decoder of HTML entities writes at most as many characters as the length it was given,
  whatever the multibyte encoding of the locale is, so that its output and the terminator fit
  in the block of \<^verbatim>\<open>len + 1\<close> bytes it allocates (for every length whose successor does not wrap).
\<close>

theorem unescape_html_bound: "unescape_html alloc w html len = Some out \<Longrightarrow> length out \<le> len"
proof -
  have loop: "length msg \<le> len \<Longrightarrow> unescape_html_loop w html len i msg = Some out \<Longrightarrow> length out \<le> len" for i msg
  proof (induction w html len i msg rule: unescape_html_loop.induct)
    case (1 w html len i msg)
    show ?case
    proof (cases "i < len")
      case False
      then show ?thesis using "1.prems" by (simp add: unescape_html_loop.simps)
    next
      case True
      then obtain n o' where step: "\<not> len - length msg < 1" "html_step w (len - length msg) (drop i html) = Some (n, o')"
        and rest: "unescape_html_loop w html len (i + n) (msg @ o') = Some out"
        using "1.prems"(2) by (subst (asm) unescape_html_loop.simps) (auto split: if_splits option.splits)
      have "length (msg @ o') \<le> len" using html_step_room [OF step(2)] step(1) by simp
      from "1.IH" [OF True step refl this rest] show ?thesis .
    qed
  qed
  assume "unescape_html alloc w html len = Some out"
  then show ?thesis using loop [of "[]" 0] by (simp add: unescape_html_def split: if_splits)
qed

lemma url_plain_chars: "url_plain c \<Longrightarrow> c \<noteq> CHR ''%'' \<and> c \<noteq> CHR ''+''"
  by (auto simp: url_plain_def isalnum_def isdigit_def isupper_def islower_def ccode_def)

lemma ccode_eq_iff: "c = d \<longleftrightarrow> ccode c = ccode d"
  by (simp add: ccode_def)

lemma ccode_lits: "ccode (CHR 0x00) = 0" "ccode (CHR ''-'') = 45" "ccode (CHR ''+'') = 43" "ccode (CHR ''x'') = 120"
  by (simp_all add: ccode_def)

lemma hex_upper_facts:
  assumes "n < 16"
  shows "ccode (hex_upper n) = (if n < 10 then n + 48 else n + 55)" "xdigit_val (hex_upper n) = Some n"
    "isalnum (hex_upper n)" "\<not> isspace (hex_upper n)"
    "hex_upper n \<noteq> CHR 0x00" "hex_upper n \<noteq> CHR ''-''" "hex_upper n \<noteq> CHR ''+''" "tolower (hex_upper n) \<noteq> CHR ''x''"
proof -
  show c: "ccode (hex_upper n) = (if n < 10 then n + 48 else n + 55)"
    using assms by (simp add: hex_upper_def ccode_def)
  show "xdigit_val (hex_upper n) = Some n" "isalnum (hex_upper n)" "\<not> isspace (hex_upper n)"
    "hex_upper n \<noteq> CHR 0x00" "hex_upper n \<noteq> CHR ''-''" "hex_upper n \<noteq> CHR ''+''"
    using assms by (auto simp: xdigit_val_def isalnum_def isspace_def isdigit_def isupper_def c)
      (auto simp: ccode_eq_iff c ccode_lits split: if_splits)
  have "tolower (hex_upper n) = (if n < 10 then hex_upper n else char_of (n + 87))"
    using assms by (auto simp: tolower_def isupper_def c)
  moreover have "ccode (char_of (n + 87)) = n + 87" using assms by (simp add: ccode_def)
  ultimately show "tolower (hex_upper n) \<noteq> CHR ''x''"
    using assms c by (auto simp: ccode_eq_iff ccode_lits split: if_splits)
qed

lemma sscanf_hex_pair:
  assumes "a < 16" "b < 16"
  shows "sscanf_02x [hex_upper a, hex_upper b] = Some (char_of (16 * a + b))"
  using hex_upper_facts [OF assms(1)] hex_upper_facts [OF assms(2)] assms
  by (simp add: sscanf_02x_def base_digit_def base_val_def Let_def)

lemma sscanf_percent_hex:
  assumes "ccode c < 128"
  shows "sscanf_02x [hex_upper (ccode c div 16), hex_upper (ccode c mod 16)] = Some c"
  using sscanf_hex_pair [of "ccode c div 16" "ccode c mod 16"] assms
  by (simp add: less_mult_imp_div_less) (simp add: ccode_def)

lemma c_at_append: "c_at (pre @ r) (length pre + k) = c_at r k"
  by (simp add: c_at_def nth_append)

lemma unescape_url_escaped_char:
  assumes "ccode c < 128"
  shows "unescape_url_loop (pre @ escape_char c @ r) (length (pre @ escape_char c @ r)) (length pre) msg =
    unescape_url_loop (pre @ escape_char c @ r) (length (pre @ escape_char c @ r)) (length (pre @ escape_char c)) (msg @ [c])"
proof -
  note at = c_at_append [of pre _ 0, simplified] c_at_append [of pre _ "Suc 0", simplified] c_at_append [of pre _ 2, simplified]
  show ?thesis
  proof (cases "url_plain c \<or> c = CHR '' ''")
    case True
    then show ?thesis using url_plain_chars [of c]
      by (subst unescape_url_loop.simps) (auto simp: escape_char_def at c_at_def nth_append)
  next
    case False
    then have e: "escape_char c = [CHR ''%'', hex_upper (ccode c div 16), hex_upper (ccode c mod 16)]"
      using assms by (simp add: escape_char_def percent_hex_def)
    show ?thesis unfolding e
      by (subst unescape_url_loop.simps)
        (simp add: c_at_def nth_append sscanf_percent_hex [OF assms] add.commute numeral_3_eq_3)
  qed
qed

text \<open>
  C35 Round trip: decoding the URL encoding of a text of 7-bit characters gives the text back.
\<close>

theorem url_roundtrip:
  assumes "list_all (\<lambda>c. ccode c < 128) s"
  shows "\<exists>e. escape_url True s = Some e \<and> unescape_url True e (length e) = Decoded s"
proof -
  let ?esc = "\<lambda>s. concat (map escape_char s)"
  have "list_all (\<lambda>c. ccode c < 128) t \<Longrightarrow>
      unescape_url_loop (?esc (d @ t)) (length (?esc (d @ t))) (length (?esc d)) d = Decoded (d @ t)" for d t
  proof (induction t arbitrary: d)
    case Nil
    then show ?case by (simp add: unescape_url_loop.simps)
  next
    case (Cons c t)
    then show ?case
      using unescape_url_escaped_char [of c "?esc d" "?esc t" d] Cons.IH [of "d @ [c]"] by simp
  qed
  from this [OF assms, of "[]"] show ?thesis by (simp add: escape_url_def unescape_url_def)
qed

text \<open>
  Whatever the input is, the URL encoder produces only letters, digits and the characters
  \<^verbatim>\<open>- _ . ~ + %\<close>, and at most three characters for each one of the input, as it has allocated.
\<close>

theorem escape_url_safe:
  "\<exists>e. escape_url True s = Some e \<and> list_all (\<lambda>c. isalnum c \<or> c \<in> set ''-_.~+%'') e \<and> length e \<le> 3 * length s"
proof -
  have one: "list_all (\<lambda>c. isalnum c \<or> c \<in> set ''-_.~+%'') (escape_char c) \<and> length (escape_char c) \<le> 3" for c
  proof -
    have "ccode c < 256" by (simp add: ccode_def)
    then have "isalnum (hex_upper (ccode c div 16))" "isalnum (hex_upper (ccode c mod 16))"
      by (intro hex_upper_facts(3); simp)+
    moreover have "isalnum (CHR ''F'')" by code_simp
    ultimately show ?thesis by (simp add: escape_char_def url_plain_def percent_hex_def)
  qed
  have "list_all (\<lambda>c. isalnum c \<or> c \<in> set ''-_.~+%'') (concat (map escape_char s)) \<and>
      length (concat (map escape_char s)) \<le> 3 * length s"
  proof (induction s)
    case (Cons c s)
    then show ?case using one [of c] by (simp del: set_simps)
  qed simp
  then show ?thesis by (simp add: escape_url_def)
qed

lemma unescape_url_plain:
  "list_all url_plain u \<Longrightarrow> i \<le> length u \<Longrightarrow> length u \<le> len \<Longrightarrow>
     unescape_url_loop (u @ r) len i msg = unescape_url_loop (u @ r) len (length u) (msg @ drop i u)"
proof (induction "length u - i" arbitrary: i msg)
  case (Suc n)
  then have i: "i < length u" "u ! i \<noteq> CHR ''%''" "u ! i \<noteq> CHR ''+''"
    using url_plain_chars [of "u ! i"] by (auto simp: list_all_length)
  then have "unescape_url_loop (u @ r) len i msg = unescape_url_loop (u @ r) len (i + 1) (msg @ [u ! i])"
    using Suc.prems by (subst unescape_url_loop.simps) (simp add: c_at_def nth_append)
  then show ?case using Suc.hyps(1) [of "i + 1" "msg @ [u ! i]"] Suc.hyps(2) Suc.prems i(1)
    by (simp add: Cons_nth_drop_Suc)
qed simp

text \<open>
  C36 A percent sign at the very end of a string of plain characters makes the URL decoder read
  behind the terminator of the string.
\<close>

theorem unescape_url_overread:
  "list_all url_plain u \<Longrightarrow> unescape_url True (u @ ''%'') (length u + 1) = OutOfBounds"
  using unescape_url_plain [of u 0 "length u + 1" "''%''" "[]"]
  by (simp add: unescape_url_def unescape_url_loop.simps [of _ _ "length u"] c_at_def)

section \<open>Properties of host names\<close>

text \<open>The rules of RFC 1123 for a label and for a name.\<close>

definition label_ok :: "string \<Rightarrow> bool" where
  "label_ok l =
     (1 \<le> length l \<and> length l \<le> 63 \<and> list_all (\<lambda>c. isalnum c \<or> c = CHR ''-'') l \<and>
      hd l \<noteq> CHR ''-'' \<and> last l \<noteq> CHR ''-'')"

definition fqdn_ok :: "string \<Rightarrow> bool" where
  "fqdn_ok h = (h \<noteq> [] \<and> length h \<le> 253 \<and> list_all label_ok (split_on (CHR ''.'') h))"

lemma valid_hostname_iff: "valid_hostname (Some l) \<longleftrightarrow> label_ok l"
  by (cases l) (auto simp: valid_hostname_def label_ok_def)

lemma split_on_trailing: "\<exists>y ys. split_on c (x @ [c]) = y # ys @ [[]]"
  by (induction x) auto

lemma fqdn_loop_iff:
  "p \<noteq> [] \<Longrightarrow> last p \<noteq> CHR ''.'' \<Longrightarrow> fqdn_loop p \<longleftrightarrow> list_all label_ok (split_on (CHR ''.'') p)"
proof (induction p rule: length_induct)
  case (1 p)
  show ?case
  proof (cases "CHR ''.'' \<in> set p")
    case False
    then have "strchr p (CHR ''.'') = None" by (simp add: strchr_None)
    then show ?thesis using 1(2) False
      by (auto simp: fqdn_loop.simps [of p] valid_hostname_iff split_on_none label_ok_def Let_def)
  next
    case True
    then obtain a b where p: "p = a @ CHR ''.'' # b" "CHR ''.'' \<notin> set a" by (meson split_list_first)
    have b: "b \<noteq> []" "last b \<noteq> CHR ''.''" using 1(3) by (auto simp: p(1) split: if_splits)
    have "strchr p (CHR ''.'') = Some (CHR ''.'' # b)" "length p - length (CHR ''.'' # b) = length a"
      "take (length a) p = a" "drop (length a + 1) p = b"
      by (simp_all add: p strchr_skip)
    then have "fqdn_loop p \<longleftrightarrow> label_ok a \<and> fqdn_loop b"
      using 1(2) by (subst fqdn_loop.simps) (auto simp: valid_hostname_iff label_ok_def Let_def)
    moreover have "fqdn_loop b \<longleftrightarrow> list_all label_ok (split_on (CHR ''.'') b)" using 1(1) b by (simp add: p(1))
    ultimately show ?thesis by (simp add: p split_on_skip)
  qed
qed

lemma valid_fqdn_iff: "valid_fqdn (Some h) \<longleftrightarrow> fqdn_ok h"
proof (cases "h \<noteq> [] \<and> last h = CHR ''.''")
  case True
  then have "[] \<in> set (split_on (CHR ''.'') h)"
    using split_on_trailing [of "CHR ''.''" "butlast h"] append_butlast_last_id [of h] by auto
  then have "\<not> list_all label_ok (split_on (CHR ''.'') h)" by (force simp: list_all_iff label_ok_def)
  then show ?thesis using True by (cases h) (auto simp: valid_fqdn_def fqdn_ok_def)
next
  case False
  then show ?thesis using fqdn_loop_iff [of h] by (cases h) (auto simp: valid_fqdn_def fqdn_ok_def)
qed

text \<open>
  C37 The validation of a fully qualified name accepts exactly the names of at most 253
  characters whose labels, between the dots, are all valid labels.
\<close>

theorem valid_fqdn_equiv: "valid_fqdn (Some h) \<longleftrightarrow> fqdn_ok h"
  by (rule valid_fqdn_iff)

lemma split_on_chars: "c \<in> set h \<Longrightarrow> c \<noteq> d \<Longrightarrow> \<exists>l \<in> set (split_on d h). c \<in> set l"
  by (induction h) (auto split: list.splits)

lemma fqdn_ok_chars: "fqdn_ok h \<Longrightarrow> c \<in> set h \<Longrightarrow> isalnum c \<or> c = CHR ''-'' \<or> c = CHR ''.''"
  using split_on_chars [of c h "CHR ''.''"] by (auto simp: fqdn_ok_def label_ok_def list_all_iff)

lemma fqdn_ok_no_colon: "fqdn_ok h \<Longrightarrow> CHR '':'' \<notin> set h"
proof
  assume "fqdn_ok h" "CHR '':'' \<in> set h"
  moreover have "\<not> isalnum (CHR '':'')" by code_simp
  ultimately show False using fqdn_ok_chars [of h "CHR '':''"] by simp
qed

lemma valid_hostport_unfold:
  "h \<noteq> [] \<Longrightarrow> valid_hostport (Some h) =
     (case strchr h (CHR '':'') of
        None \<Rightarrow> fqdn_ok h
      | Some colon \<Rightarrow> tl colon \<noteq> [] \<and> list_all isdigit (tl colon) \<and>
          (let len = length h - length colon in len \<noteq> 0 \<and> len \<le> 253 \<and> fqdn_ok (take len h)))"
  by (cases h) (auto simp: valid_hostport_def valid_fqdn_iff Let_def simp del: strchr.simps split: option.split)

text \<open>
  The validation of a host with an optional port accepts exactly a valid name, or a valid
  name, a colon and a non-empty sequence of decimal digits.
\<close>

theorem valid_hostport_equiv:
  "valid_hostport (Some h) \<longleftrightarrow>
     fqdn_ok h \<or> (\<exists>name port. h = name @ CHR '':'' # port \<and> fqdn_ok name \<and> port \<noteq> [] \<and> list_all isdigit port)"
proof (cases "CHR '':'' \<in> set h")
  case False
  then have "strchr h (CHR '':'') = None" by (simp add: strchr_None)
  then have "valid_hostport (Some h) \<longleftrightarrow> fqdn_ok h"
    using valid_hostport_unfold [of h] by (cases "h = []") (auto simp: valid_hostport_def fqdn_ok_def)
  then show ?thesis using False by auto
next
  case True
  then obtain n q where h: "h = n @ CHR '':'' # q" "CHR '':'' \<notin> set n" by (meson split_list_first)
  have "strchr h (CHR '':'') = Some (CHR '':'' # q)" by (simp add: h strchr_skip)
  then have "valid_hostport (Some h) \<longleftrightarrow> q \<noteq> [] \<and> list_all isdigit q \<and> fqdn_ok n"
    using valid_hostport_unfold [of h] by (auto simp: Let_def h(1) fqdn_ok_def)
  moreover have "name = n \<and> port = q" if "h = name @ CHR '':'' # port" "fqdn_ok name" for name port
  proof -
    have "takeWhile (\<lambda>c. c \<noteq> CHR '':'') h = name" "takeWhile (\<lambda>c. c \<noteq> CHR '':'') h = n"
      using fqdn_ok_no_colon [OF that(2)] h(2) by (subst that(1) h(1), simp add: takeWhile_append)+
    then show ?thesis using that(1) h(1) by simp
  qed
  ultimately show ?thesis using fqdn_ok_no_colon [of h] True h(1) by blast
qed

section \<open>Examples\<close>

theorem unescape_html_bound_witness: "length ''<b>'' \<le> 9"
proof -
  have "unescape_html True (\<lambda>_. None) ''&lt;b&gt;'' 9 = Some ''<b>''" by code_simp
  from unescape_html_bound [OF this] show ?thesis .
qed

theorem url_roundtrip_witness:
  "\<exists>e. escape_url True ''a b/c?'' = Some e \<and> unescape_url True e (length e) = Decoded ''a b/c?''"
  by (rule url_roundtrip) code_simp

theorem unescape_url_overread_witness: "unescape_url True ''abc%'' 4 = OutOfBounds"
proof -
  have "list_all url_plain ''abc''" by code_simp
  from unescape_url_overread [OF this] show ?thesis by (simp add: numeral_eq_Suc)
qed

end
