(* ===== verification/Lzs_Bits.thy ===== *)
theory Lzs_Bits
  imports Ocserv_Prelude
begin

text \<open>
  The bit streams of the LZS codec: the macros \<^verbatim>\<open>GET_BITS\<close> and \<^verbatim>\<open>PUT_BITS\<close> of
  \<^verbatim>\<open>src/src/lzs.c\<close> and their meaning on lists of bits, most significant bit first.
\<close>

section \<open>Reading and writing bits\<close>

text \<open>
  \<^verbatim>\<open>GET_BITS\<close>: the state is the rest of the input and the number of bits that are left in its
  first byte; \<open>None\<close> is the early return of \<^verbatim>\<open>-EINVAL\<close>.
\<close>

definition get_bits :: "nat \<Rightarrow> bytes \<times> nat \<Rightarrow> (u32 \<times> bytes \<times> nat) option" where
  "get_bits bits st =
     (case st of (src, bits_left) \<Rightarrow>
        if length src < 2 then None
        else if bits \<ge> 8 \<or> bits \<ge> bits_left then
          (let data = and (push_bit (bits - bits_left) (ucast (src ! 0))) (mask bits);
               src' = tl src; bits_left' = bits_left + 8 - bits
           in
           if bits > 8 \<or> bits_left' < 8 then
             (let data' = or data (drop_bit bits_left' (ucast (src' ! 0))) in
              if bits > 8 \<and> bits_left' = 0 then Some (data', tl src', 8) else Some (data', src', bits_left'))
           else Some (data, src', bits_left'))
        else Some (and (drop_bit (bits_left - bits) (ucast (src ! 0))) (mask bits), src, bits_left - bits))"

record put_st =
  pu_outbits :: u32
  pu_nr_outbits :: nat
  pu_dst :: bytes

text \<open>One byte of output, or the early return of \<^verbatim>\<open>-EFBIG\<close>.\<close>

definition put_byte :: "nat \<Rightarrow> put_st \<Rightarrow> put_st option" where
  "put_byte dstlen s =
     (let n = pu_nr_outbits s - 8 in
      if length (pu_dst s) = dstlen then None
      else Some (s\<lparr>pu_nr_outbits := n, pu_dst := pu_dst s @ [ucast (drop_bit n (pu_outbits s))]\<rparr>))"

definition put_bits :: "nat \<Rightarrow> nat \<times> u32 \<Rightarrow> put_st \<Rightarrow> put_st option" where
  "put_bits dstlen code s =
     (case code of (nr, bits) \<Rightarrow>
        let s1 = s\<lparr>pu_outbits := or (push_bit nr (pu_outbits s)) bits, pu_nr_outbits := pu_nr_outbits s + nr\<rparr> in
        (case (if nr > 8 then put_byte dstlen s1 else Some s1) of
           None \<Rightarrow> None
         | Some s2 \<Rightarrow> if pu_nr_outbits s2 \<ge> 8 then put_byte dstlen s2 else Some s2))"

fun put_all :: "nat \<Rightarrow> (nat \<times> u32) list \<Rightarrow> put_st \<Rightarrow> put_st option" where
  "put_all dstlen [] s = Some s"
| "put_all dstlen (c # cs) s =
     (case put_bits dstlen c s of None \<Rightarrow> None | Some s' \<Rightarrow> put_all dstlen cs s')"

section \<open>Lists of bits\<close>

definition bits_of :: "nat \<Rightarrow> 'a :: len word \<Rightarrow> bool list" where
  "bits_of n w = map (bit w) (rev [0..<n])"

definition stream :: "bytes \<Rightarrow> bool list" where
  "stream bs = concat (map (bits_of 8) bs)"

text \<open>What is left to read, and what has been written.\<close>

definition unread :: "bytes \<times> nat \<Rightarrow> bool list" where
  "unread st = drop (8 - snd st) (stream (fst st))"

definition written :: "put_st \<Rightarrow> bool list" where
  "written s = stream (pu_dst s) @ bits_of (pu_nr_outbits s) (pu_outbits s)"

lemma length_bits_of [simp]: "length (bits_of n w) = n"
  by (simp add: bits_of_def)

lemma nth_bits_of: "i < n \<Longrightarrow> bits_of n w ! i = bit w (n - Suc i)"
  by (simp add: bits_of_def rev_nth)

lemma length_stream [simp]: "length (stream bs) = 8 * length bs"
  by (induction bs) (simp_all add: stream_def)

lemma stream_simps [simp]: "stream [] = []" "stream (b # bs) = bits_of 8 b @ stream bs" "stream (xs @ ys) = stream xs @ stream ys"
  by (simp_all add: stream_def)

lemma bits_of_inj:
  fixes v w :: "'a :: len word"
  assumes "bits_of n v = bits_of n w" "\<forall>i \<ge> n. \<not> bit v i" "\<forall>i \<ge> n. \<not> bit w i"
  shows "v = w"
proof (rule bit_eqI)
  fix i
  show "bit v i = bit w i"
  proof (cases "i < n")
    case True
    then show ?thesis
      using nth_bits_of [of "n - Suc i" n v] nth_bits_of [of "n - Suc i" n w] assms(1) by simp
  qed (use assms in auto)
qed

text \<open>Splitting the bits of a word.\<close>

lemma bits_of_split: "bits_of (m + n) w = bits_of m (drop_bit n w) @ bits_of n w"
  by (rule nth_equalityI) (auto simp: nth_bits_of nth_append bit_simps add.commute)

lemma bits_of_cong: "(\<And>i. i < n \<Longrightarrow> bit v i = bit w i) \<Longrightarrow> bits_of n v = bits_of n w"
  by (simp add: bits_of_def)

section \<open>Writing\<close>

lemma written_init: "written \<lparr>pu_outbits = x, pu_nr_outbits = 0, pu_dst = []\<rparr> = []"
  by (simp add: written_def bits_of_def)

lemma put_byte_written:
  assumes "put_byte dstlen s = Some s'" "pu_nr_outbits s \<ge> 8"
  shows "written s' = written s \<and> pu_nr_outbits s' = pu_nr_outbits s - 8 \<and> pu_outbits s' = pu_outbits s"
proof -
  let ?n = "pu_nr_outbits s - 8"
  have s': "s' = s\<lparr>pu_nr_outbits := ?n, pu_dst := pu_dst s @ [ucast (drop_bit ?n (pu_outbits s))]\<rparr>"
    using assms(1) by (simp add: put_byte_def Let_def split: if_splits)
  have "bits_of (pu_nr_outbits s) (pu_outbits s) = bits_of 8 (drop_bit ?n (pu_outbits s)) @ bits_of ?n (pu_outbits s)"
    using assms(2) bits_of_split [of 8 ?n "pu_outbits s"] by simp
  moreover have "bits_of 8 (ucast (drop_bit ?n (pu_outbits s)) :: u8) = bits_of 8 (drop_bit ?n (pu_outbits s))"
    by (simp add: bits_of_def bit_simps)
  ultimately show ?thesis by (simp add: s' written_def)
qed

lemma put_bits_written:
  assumes "put_bits dstlen (nr, v) s = Some s'" "pu_nr_outbits s < 8" "nr \<le> 16" "\<forall>i \<ge> nr. \<not> bit v i"
  shows "written s' = written s @ bits_of nr v \<and> pu_nr_outbits s' < 8"
proof -
  define t where "t = s\<lparr>pu_outbits := or (push_bit nr (pu_outbits s)) v, pu_nr_outbits := pu_nr_outbits s + nr\<rparr>"
  have "bits_of (pu_nr_outbits s + nr) (pu_outbits t) = bits_of (pu_nr_outbits s) (pu_outbits s) @ bits_of nr v"
    unfolding bits_of_split
  proof (intro arg_cong2 [of _ _ _ _ append] bits_of_cong)
    fix i assume "i < pu_nr_outbits s"
    then show "bit (drop_bit nr (pu_outbits t)) i = bit (pu_outbits s) i"
      using assms(2-4) by (auto simp: t_def bit_simps)
  next
    fix i assume "i < nr"
    then show "bit (pu_outbits t) i = bit v i" by (auto simp: t_def bit_simps)
  qed
  then have t: "written t = written s @ bits_of nr v" by (simp add: t_def written_def)
  have tn: "pu_nr_outbits t = pu_nr_outbits s + nr" by (simp add: t_def)
  obtain t' where t': "(if nr > 8 then put_byte dstlen t else Some t) = Some t'"
    and s': "(if pu_nr_outbits t' \<ge> 8 then put_byte dstlen t' else Some t') = Some s'"
    using assms(1) unfolding put_bits_def Let_def prod.case t_def [symmetric] by (auto split: option.splits)
  have "written t' = written t \<and> pu_nr_outbits t' < 16"
    using t' tn assms(2,3) put_byte_written [of dstlen t t'] by (auto split: if_splits)
  then show ?thesis using s' t put_byte_written [of dstlen t' s'] by (auto split: if_splits)
qed

definition code_ok :: "nat \<times> u32 \<Rightarrow> bool" where
  "code_ok c = (fst c \<le> 16 \<and> (\<forall>i \<ge> fst c. \<not> bit (snd c) i))"

definition code_bits :: "(nat \<times> u32) list \<Rightarrow> bool list" where
  "code_bits cs = concat (map (\<lambda>(n, v). bits_of n v) cs)"

lemma code_bits_simps [simp]:
  "code_bits [] = []" "code_bits ((n, v) # cs) = bits_of n v @ code_bits cs" "code_bits (a @ b) = code_bits a @ code_bits b"
  by (simp_all add: code_bits_def)

lemma put_all_written:
  "put_all dstlen cs s = Some s' \<Longrightarrow> list_all code_ok cs \<Longrightarrow> pu_nr_outbits s < 8 \<Longrightarrow>
     written s' = written s @ code_bits cs \<and> pu_nr_outbits s' < 8"
proof (induction cs arbitrary: s)
  case (Cons c cs)
  obtain n v where c: "c = (n, v)" by fastforce
  obtain t where t: "put_bits dstlen (n, v) s = Some t" "put_all dstlen cs t = Some s'"
    using Cons.prems(1) c by (auto split: option.splits)
  have "written t = written s @ bits_of n v \<and> pu_nr_outbits t < 8"
    using put_bits_written [OF t(1)] Cons.prems c by (simp add: code_ok_def)
  with Cons.IH [OF t(2)] Cons.prems(2) c show ?case by simp
qed simp

lemma put_all_append:
  "put_all dstlen (a @ b) s = (case put_all dstlen a s of None \<Rightarrow> None | Some s' \<Rightarrow> put_all dstlen b s')"
  by (induction a arbitrary: s) (simp_all split: option.splits)

lemma put_all_bound: "put_all dstlen cs s = Some s' \<Longrightarrow> length (pu_dst s) \<le> dstlen \<Longrightarrow> length (pu_dst s') \<le> dstlen"
proof (induction cs arbitrary: s)
  case (Cons c cs)
  have "put_byte dstlen x = Some y \<Longrightarrow> length (pu_dst x) \<le> dstlen \<Longrightarrow> length (pu_dst y) \<le> dstlen" for x y
    by (auto simp: put_byte_def Let_def split: if_splits)
  then have "put_bits dstlen c s = Some t \<Longrightarrow> length (pu_dst t) \<le> dstlen" for t
    using Cons.prems(2) by (fastforce simp: put_bits_def Let_def split: prod.splits option.splits if_splits)
  then show ?case using Cons by (auto split: option.splits)
qed simp

section \<open>Reading\<close>

lemma u8_high_bit [simp]: "8 \<le> n \<Longrightarrow> \<not> bit (y :: u8) n"
  using bit_imp_le_length [of y n] by auto

lemma drop_bits_of: "k \<le> n \<Longrightarrow> drop k (bits_of n w) = bits_of (n - k) w"
  using bits_of_split [of k "n - k" w] by simp

lemma unread_Cons:
  "1 \<le> bl \<Longrightarrow> bl \<le> 8 \<Longrightarrow> unread (b # bs, bl) = bits_of bl b @ stream bs"
  by (simp add: unread_def drop_bits_of)

lemma bits_of_ucast: "n \<le> 8 \<Longrightarrow> bits_of n (ucast (b :: u8) :: u32) = bits_of n b"
  by (simp add: bits_of_def bit_simps)

text \<open>The two halves of a read that spans two bytes.\<close>

lemma bits_of_joined:
  fixes x y :: u8 and data :: u32
  assumes "bl + k = bits" "bl \<le> 8" "k \<le> 8"
    and "data = or (and (push_bit k (ucast x)) (mask bits)) (drop_bit (8 - k) (ucast y))"
  shows "bits_of bits data = bits_of bl x @ bits_of k (drop_bit (8 - k) y)" "\<forall>i \<ge> bits. \<not> bit data i"
proof -
  have "bits_of bits data = bits_of bl (drop_bit k data) @ bits_of k data"
    using bits_of_split [of bl k data] assms(1) by simp
  moreover have "bits_of bl (drop_bit k data) = bits_of bl (ucast x :: u32)"
  proof (rule bits_of_cong)
    fix i assume "i < bl"
    moreover have "bit (ucast y :: u32) (8 - k + (k + i)) \<longleftrightarrow> False" using assms(3) by (simp add: bit_simps)
    ultimately show "bit (drop_bit k data) i = bit (ucast x :: u32) i" using assms by (auto simp: bit_simps)
  qed
  moreover have "bits_of k data = bits_of k (drop_bit (8 - k) y)"
    unfolding bits_of_def using assms by (auto simp: bit_simps)
  ultimately show "bits_of bits data = bits_of bl x @ bits_of k (drop_bit (8 - k) y)"
    using assms(2) by (simp add: bits_of_ucast)
  show "\<forall>i \<ge> bits. \<not> bit data i" using assms by (auto simp: bit_simps)
qed

lemma get_bits_unread:
  assumes len: "length (unread (src, bl)) \<ge> 9" and bl: "1 \<le> bl" "bl \<le> 8" and bits: "bits \<in> {2, 4, 9}"
  shows "\<exists>data src' bl'. get_bits bits (src, bl) = Some (data, src', bl') \<and> 1 \<le> bl' \<and> bl' \<le> 8 \<and>
    unread (src, bl) = bits_of bits data @ unread (src', bl') \<and> (\<forall>i \<ge> bits. \<not> bit data i)"
proof -
  have "length src \<ge> 2" using len bl by (simp add: unread_def)
  then obtain x y rest where src: "src = x # y # rest" by (metis Suc_le_length_iff numeral_2_eq_2)
  have un: "unread (src, bl) = bits_of bl x @ bits_of 8 y @ stream rest" using bl by (simp add: src unread_Cons)
  show ?thesis
  proof (cases "bits < bl")
    case True
    let ?d = "and (drop_bit (bl - bits) (ucast x)) (mask bits) :: u32"
    have "bits_of bl x = bits_of bits (drop_bit (bl - bits) x) @ bits_of (bl - bits) x"
      using bits_of_split [of bits "bl - bits" x] True by simp
    moreover have "bits_of bits ?d = bits_of bits (drop_bit (bl - bits) x)"
      unfolding bits_of_def using True bl by (auto simp: bit_simps)
    moreover have "get_bits bits (src, bl) = Some (?d, src, bl - bits)"
      using True bl bits by (auto simp: get_bits_def src)
    moreover have "unread (src, bl - bits) = bits_of (bl - bits) x @ bits_of 8 y @ stream rest"
      using True bl by (simp add: src unread_Cons)
    ultimately show ?thesis using un True bl by (auto simp: bit_simps)
  next
    case False
    define k where "k = bits - bl"
    have k: "bl + k = bits" "k \<le> 8" "bl + 8 - bits = 8 - k" using False bits bl by (auto simp: k_def)
    define d :: u32 where "d = or (and (push_bit k (ucast x)) (mask bits)) (drop_bit (8 - k) (ucast y))"
    note join = bits_of_joined [OF k(1) bl(2) k(2) d_def]
    have y: "bits_of 8 y = bits_of k (drop_bit (8 - k) y) @ bits_of (8 - k) y"
      using bits_of_split [of k "8 - k" y] k(2) by simp
    have get: "get_bits bits (src, bl) = Some (d, if k = 8 then rest else y # rest, if k = 8 then 8 else 8 - k)"
    proof (cases "k = 0")
      case True
      moreover have "drop_bit 8 (ucast y :: u32) = 0" by (rule bit_eqI) (simp add: bit_simps)
      ultimately show ?thesis using False bits k bl by (auto simp: get_bits_def src d_def k_def)
    next
      case False
      then show ?thesis using bits k bl \<open>\<not> bits < bl\<close> by (auto simp: get_bits_def src d_def k_def Let_def)
    qed
    have "unread (if k = 8 then rest else y # rest, if k = 8 then 8 else 8 - k) = bits_of (8 - k) y @ stream rest"
    proof (cases "k = 8")
      case True
      then show ?thesis by (simp add: unread_def bits_of_def)
    next
      case False
      then show ?thesis using k(2) unread_Cons [of "8 - k" y rest] by simp
    qed
    moreover have "unread (src, bl) = bits_of bits d @ bits_of (8 - k) y @ stream rest"
      unfolding un y join(1) by simp
    ultimately show ?thesis
      by (intro exI conjI) (rule get, use k(2) in auto, use join(2) in blast)
  qed
qed

end
