(* ===== verification/Lzs.thy ===== *)
theory Lzs
  imports Lzs_Bits
begin

text \<open>
  The LZS compression of the data channel (\<^verbatim>\<open>src/src/lzs.c\<close>).  The decompressor and the
  compressor are functions on lists of bytes; the hash table and the ring buffer of links are
  functions from indices to 16-bit values.  The error codes are the only other results; a
  read of the compressor outside the input (a hash, a comparison or the extension of a match),
  or a chain of links that does not end, is \<open>None\<close>.
\<close>

section \<open>Decompression\<close>

abbreviation (input) EINVAL :: int where "EINVAL \<equiv> 22"
abbreviation (input) EFBIG :: int where "EFBIG \<equiv> 27"

type_synonym in_st = "bytes \<times> nat"

definition in_measure :: "in_st \<Rightarrow> nat" where
  "in_measure st = 8 * length (fst st) + snd st"

lemma get_bits_measure:
  assumes "get_bits bits st = Some (d, st')" "0 < bits" "bits \<le> 9"
  shows "in_measure st' < in_measure st"
proof -
  obtain src bl where st: "st = (src, bl)" by fastforce
  then have "length src \<ge> 2" using assms(1) by (auto simp: get_bits_def split: if_splits)
  then obtain x y rest where src: "src = x # y # rest" by (metis Suc_le_length_iff numeral_2_eq_2)
  show ?thesis
    using assms unfolding st src get_bits_def in_measure_def Let_def by (simp split: if_splits) auto
qed

text \<open>The nybbles that extend a long match, added to a 16-bit length.\<close>

function length_nybbles :: "in_st \<Rightarrow> 16 word \<Rightarrow> (16 word \<times> in_st) option" where
  "length_nybbles st len =
     (case get_bits 4 st of
        None \<Rightarrow> None
      | Some (data, st') \<Rightarrow>
          if data \<noteq> 15 then Some (len + ucast data, st') else length_nybbles st' (len + 15))"
  by pat_completeness auto
termination by (relation "measure (in_measure \<circ> fst)") (auto intro: get_bits_measure)

declare length_nybbles.simps [simp del]

definition get_length :: "in_st \<Rightarrow> (16 word \<times> in_st) option" where
  "get_length st =
     (case get_bits 2 st of
        None \<Rightarrow> None
      | Some (data, st1) \<Rightarrow>
          if data \<noteq> 3 then Some (ucast data + 2, st1)
          else
            (case get_bits 2 st1 of
               None \<Rightarrow> None
             | Some (data', st2) \<Rightarrow>
                 if data' \<noteq> 3 then Some (ucast data' + 5, st2) else length_nybbles st2 8))"

text \<open>The offset: 7 bits, or 11 bits of which the last four are read now.\<close>

definition get_offset :: "u32 \<Rightarrow> in_st \<Rightarrow> (16 word \<times> in_st) option" where
  "get_offset data st =
     (let offset = ucast (and data 0x7f) in
      if data < 0x180 then
        (case get_bits 4 st of
           None \<Rightarrow> None
         | Some (data', st') \<Rightarrow> Some (or (push_bit 4 offset) (ucast data'), st'))
      else Some (offset, st))"

lemmas get_bits_less =
  get_bits_measure [of 2, simplified] get_bits_measure [of 4, simplified] get_bits_measure [of 9, simplified]

lemma length_nybbles_measure: "length_nybbles st len = Some (l, st') \<Longrightarrow> in_measure st' < in_measure st"
proof (induction st len rule: length_nybbles.induct)
  case (1 st len)
  obtain data st1 where g: "get_bits 4 st = Some (data, st1)"
    using "1.prems" by (cases "get_bits 4 st") (auto simp: length_nybbles.simps [of st])
  show ?case
  proof (cases "data = 15")
    case True
    then have "length_nybbles st1 (len + 15) = Some (l, st')"
      using "1.prems" g by (simp add: length_nybbles.simps [of st])
    from "1.IH" [OF g refl _ this] True get_bits_less(2) [OF g] show ?thesis by simp
  next
    case False
    then show ?thesis using "1.prems" g get_bits_less(2) [OF g] by (simp add: length_nybbles.simps [of st])
  qed
qed

lemma get_length_measure: "get_length st = Some (l, st') \<Longrightarrow> in_measure st' < in_measure st"
  by (auto simp: get_length_def split: option.splits if_splits dest!: get_bits_less length_nybbles_measure)

lemma get_offset_measure: "get_offset d st = Some (x, st') \<Longrightarrow> in_measure st' \<le> in_measure st"
  by (auto simp: get_offset_def Let_def split: option.splits if_splits dest!: get_bits_less)

fun copy_match :: "nat \<Rightarrow> nat \<Rightarrow> bytes \<Rightarrow> bytes" where
  "copy_match offset 0 dst = dst"
| "copy_match offset (Suc n) dst = copy_match offset n (dst @ [dst ! (length dst - offset)])"

function decompress_loop :: "nat \<Rightarrow> in_st \<Rightarrow> bytes \<Rightarrow> int + bytes" where
  "decompress_loop dstlen st dst =
     (case get_bits 9 st of
        None \<Rightarrow> Inl (- EINVAL)
      | Some (data, st1) \<Rightarrow>
          if data < 0x100 then
            (if length dst = dstlen then Inl (- EFBIG)
             else decompress_loop dstlen st1 (dst @ [ucast data]))
          else if data = 0x180 then Inr dst
          else
            (case get_offset data st1 of
               None \<Rightarrow> Inl (- EINVAL)
             | Some (offset, st2) \<Rightarrow>
                 (case get_length st2 of
                    None \<Rightarrow> Inl (- EINVAL)
                  | Some (len, st3) \<Rightarrow>
                      if offset = 0 \<or> unat offset > length dst then Inl (- EINVAL)
                      else if unat len + length dst > dstlen then Inl (- EFBIG)
                      else decompress_loop dstlen st3 (copy_match (unat offset) (unat len) dst))))"
  by pat_completeness auto
termination
proof (relation "measure (\<lambda>(dstlen, st, dst). in_measure st)", goal_cases)
  case 1
  then show ?case by simp
next
  case 2
  then show ?case by (auto intro: get_bits_measure)
next
  case (3 dstlen st dst x data st1 y offset st2 z len st3)
  then show ?case
    using get_bits_measure [of 9 st] get_offset_measure [of data st1] get_length_measure [of st2] by fastforce
qed

declare decompress_loop.simps [simp del]

definition lzs_decompress :: "nat \<Rightarrow> bytes \<Rightarrow> int + bytes" where
  "lzs_decompress dstlen src = decompress_loop dstlen (src, 8) []"

section \<open>Compression\<close>

abbreviation (input) INVALID_OFS :: nat where "INVALID_OFS \<equiv> 0xffff"
abbreviation (input) MAX_HISTORY :: nat where "MAX_HISTORY \<equiv> 2048"

text \<open>\<^verbatim>\<open>HASH\<close> loads the two bytes at a position as a 16-bit value.\<close>

definition hash_at :: "bytes \<Rightarrow> nat \<Rightarrow> 16 word" where
  "hash_at src p = or (ucast (src ! p)) (push_bit 8 (ucast (src ! (p + 1))))"

record hist_st =
  hs_table :: "16 word \<Rightarrow> nat"
  hs_chain :: "nat \<Rightarrow> nat"

definition hist_init :: "(nat \<Rightarrow> nat) \<Rightarrow> hist_st" where
  "hist_init junk = \<lparr>hs_table = (\<lambda>_. INVALID_OFS), hs_chain = junk\<rparr>"

text \<open>Entering a position: the link to the last one with the same hash, and the table.\<close>

definition hist_insert :: "bytes \<Rightarrow> nat \<Rightarrow> hist_st \<Rightarrow> hist_st" where
  "hist_insert src p h =
     h\<lparr>hs_chain := (hs_chain h)(p mod MAX_HISTORY := hs_table h (hash_at src p)),
       hs_table := (hs_table h)(hash_at src p := p mod 2 ^ 16)\<rparr>"

text \<open>
  The inner \<^verbatim>\<open>do\<close> loop that extends a match; the flag says that the end of the input was
  reached (\<^verbatim>\<open>goto got_match\<close>).
\<close>

function extend_match :: "bytes \<Rightarrow> nat \<Rightarrow> nat \<Rightarrow> nat \<Rightarrow> (bool \<times> nat) option" where
  "extend_match src inpos hofs len =
     (if len + 1 + inpos > length src then None
      else if len + 1 + inpos = length src then Some (True, len + 1)
      else if len + 1 + hofs \<ge> length src then None
      else if src ! (len + 1 + inpos) = src ! (len + 1 + hofs) then extend_match src inpos hofs (len + 1)
      else Some (False, len + 1))"
  by pat_completeness auto
termination by (relation "measure (\<lambda>(src, inpos, hofs, len). length src - (len + inpos))") auto

declare extend_match.simps [simp del]

text \<open>\<^verbatim>\<open>memcmp\<close> of two ranges of the input, which must both lie inside it; only equality is used.\<close>

definition memcmp_eq :: "bytes \<Rightarrow> nat \<Rightarrow> nat \<Rightarrow> nat \<Rightarrow> bool option" where
  "memcmp_eq src p q n =
     (if p + n > length src \<or> q + n > length src then None
      else Some (take n (drop p src) = take n (drop q src)))"

text \<open>The search along the links; its first argument bounds the number of rounds.\<close>

fun match_loop :: "nat \<Rightarrow> bytes \<Rightarrow> hist_st \<Rightarrow> nat \<Rightarrow> nat \<Rightarrow> nat \<Rightarrow> nat \<Rightarrow> (nat \<times> nat) option" where
  "match_loop 0 src h inpos hofs len ofs = None"
| "match_loop (Suc fuel) src h inpos hofs len ofs =
     (if hofs \<noteq> INVALID_OFS \<and> hofs + MAX_HISTORY > inpos then
        (case memcmp_eq src (hofs + 2) (inpos + 2) (len - 1) of
           None \<Rightarrow> None
         | Some True \<Rightarrow>
             (case extend_match src inpos hofs len of
                None \<Rightarrow> None
              | Some (True, len') \<Rightarrow> Some (len', hofs)
              | Some (False, len') \<Rightarrow> match_loop fuel src h inpos (hs_chain h (hofs mod MAX_HISTORY)) len' hofs)
         | Some False \<Rightarrow> match_loop fuel src h inpos (hs_chain h (hofs mod MAX_HISTORY)) len ofs)
      else Some (len, ofs))"

definition offset_code :: "nat \<Rightarrow> nat \<times> u32" where
  "offset_code offset =
     (if offset < 0x80 then (9, or 0x180 (of_nat offset)) else (13, or 0x1000 (of_nat offset)))"

function long_codes :: "nat \<Rightarrow> (nat \<times> u32) list" where
  "long_codes len =
     (if len \<ge> 30 then (8, 0xff) # long_codes (len - 30)
      else if len \<ge> 15 then [(8, 0xf0 + of_nat len - 15)]
      else [(4, of_nat len)])"
  by pat_completeness auto
termination by (relation "measure id") auto

declare long_codes.simps [simp del]

definition length_codes :: "nat \<Rightarrow> (nat \<times> u32) list" where
  "length_codes len =
     (if len < 5 then [(2, of_nat len - 2)]
      else if len < 8 then [(4, of_nat len + 7)]
      else long_codes (len + 7))"

fun insert_range :: "bytes \<Rightarrow> nat \<Rightarrow> nat \<Rightarrow> hist_st \<Rightarrow> hist_st option" where
  "insert_range src p 0 h = Some h"
| "insert_range src p (Suc n) h =
     (if p + 1 \<ge> length src then None else insert_range src (p + 1) n (hist_insert src p h))"

text \<open>One round of the main loop: the codes that are written, the match length and the history.\<close>

definition compress_step :: "bytes \<Rightarrow> nat \<Rightarrow> hist_st \<Rightarrow> ((nat \<times> u32) list \<times> nat \<times> hist_st) option" where
  "compress_step src inpos h =
     (if inpos + 1 \<ge> length src then None
      else
      let hofs = hs_table h (hash_at src inpos); h' = hist_insert src inpos h in
      if hofs = INVALID_OFS \<or> hofs + MAX_HISTORY \<le> inpos then Some ([(9, ucast (src ! inpos))], 1, h')
      else
        (case match_loop (inpos + 1) src h' inpos hofs 2 hofs of
           None \<Rightarrow> None
         | Some (len, ofs) \<Rightarrow> Some (offset_code (inpos - ofs) # length_codes len, len, h')))"

lemma extend_match_ge: "extend_match src inpos hofs len = Some (b, len') \<Longrightarrow> len' \<ge> len"
proof (induction src inpos hofs len rule: extend_match.induct)
  case (1 src inpos hofs len)
  show ?case
  proof (cases "len + 1 + inpos < length src \<and> len + 1 + hofs < length src \<and> src ! (len + 1 + inpos) = src ! (len + 1 + hofs)")
    case True
    then have "extend_match src inpos hofs (len + 1) = Some (b, len')"
      using "1.prems" by (simp add: extend_match.simps [of _ _ _ len])
    with "1.IH" True show ?thesis by simp
  next
    case False
    then show ?thesis using "1.prems" by (auto simp: extend_match.simps [of _ _ _ len] split: if_splits)
  qed
qed

lemma match_loop_ge: "match_loop fuel src h inpos hofs len ofs = Some (len', ofs') \<Longrightarrow> len' \<ge> len"
proof (induction fuel arbitrary: hofs len ofs)
  case (Suc fuel)
  show ?case
  proof (cases "extend_match src inpos hofs len")
    case None
    then show ?thesis using Suc by (auto split: if_splits option.splits bool.splits)
  next
    case (Some r)
    obtain b l where r: "r = (b, l)" by fastforce
    then have "l \<ge> len" using Some extend_match_ge by simp
    then show ?thesis using Suc.prems Some r Suc.IH [of _ l hofs] Suc.IH [of _ len ofs]
      by (cases b) (auto split: if_splits option.splits bool.splits intro: le_trans)
  qed
qed simp

lemma compress_step_ge: "compress_step src inpos h = Some (cs, len, h') \<Longrightarrow> len \<ge> 1"
  by (auto simp: compress_step_def Let_def simp del: match_loop.simps dest!: match_loop_ge split: if_splits option.splits)

datatype comp_res = CErr int | CDone nat put_st hist_st

text \<open>
  The main loop.  After a literal the next round follows; after a match the loop is left when
  the end is near, else the rest of the match is entered in the history.
\<close>

function compress_loop :: "nat \<Rightarrow> bytes \<Rightarrow> nat \<Rightarrow> hist_st \<Rightarrow> put_st \<Rightarrow> comp_res option" where
  "compress_loop dstlen src inpos h out =
     (if inpos + 2 < length src then
        (case compress_step src inpos h of
           None \<Rightarrow> None
         | Some (codes, len, h') \<Rightarrow>
             (case put_all dstlen codes out of
                None \<Rightarrow> Some (CErr (- EFBIG))
              | Some out' \<Rightarrow>
                  if len > 1 \<and> inpos + len + 2 \<ge> length src then Some (CDone (inpos + len) out' h')
                  else
                    (case insert_range src (inpos + 1) (len - 1) h' of
                       None \<Rightarrow> None
                     | Some h'' \<Rightarrow> compress_loop dstlen src (inpos + len) h'' out')))
      else Some (CDone inpos out h))"
  by pat_completeness auto
termination
  by (relation "measure (\<lambda>(d, src, inpos, h, out). length src - inpos)") (auto dest!: compress_step_ge)

declare compress_loop.simps [simp del]

text \<open>The last one or two bytes, and the end marker.\<close>

definition tail_codes :: "bytes \<Rightarrow> nat \<Rightarrow> hist_st \<Rightarrow> (nat \<times> u32) list" where
  "tail_codes src inpos h =
     (if inpos + 2 = length src then
        (let hofs = hs_table h (hash_at src inpos) in
         if hofs \<noteq> INVALID_OFS \<and> hofs + MAX_HISTORY > inpos then [offset_code (inpos - hofs), (2, 0)]
         else [(9, ucast (src ! inpos)), (9, ucast (src ! (inpos + 1)))])
      else if inpos + 1 = length src then [(9, ucast (src ! inpos))]
      else [])"

definition lzs_compress :: "(nat \<Rightarrow> nat) \<Rightarrow> nat \<Rightarrow> bytes \<Rightarrow> (int + bytes) option" where
  "lzs_compress junk dstlen src =
     (if length src > INVALID_OFS + 1 then Some (Inl (- EFBIG))
      else
        (case compress_loop dstlen src 0 (hist_init junk) \<lparr>pu_outbits = 0, pu_nr_outbits = 0, pu_dst = []\<rparr> of
           None \<Rightarrow> None
         | Some (CErr e) \<Rightarrow> Some (Inl e)
         | Some (CDone inpos out h) \<Rightarrow>
             (case put_all dstlen (tail_codes src inpos h @ [(16, 0xc000)]) out of
                None \<Rightarrow> Some (Inl (- EFBIG))
              | Some out' \<Rightarrow> Some (Inr (pu_dst out')))))"

end
