(* ===== verification/Lzs_Decode.thy ===== *)
theory Lzs_Decode
  imports Lzs
begin

text \<open>
  The meaning of an LZS stream: a sequence of literals and matches, its encoding in bits and
  the bytes it expands to.  The decompressor reads such a stream back.
\<close>

section \<open>Tokens\<close>

datatype lz_token = Lit u8 | Match nat nat

fun tok_codes :: "lz_token \<Rightarrow> (nat \<times> u32) list" where
  "tok_codes (Lit b) = [(9, ucast b)]"
| "tok_codes (Match off len) = offset_code off # length_codes len"

fun tok_ok :: "nat \<Rightarrow> lz_token \<Rightarrow> bool" where
  "tok_ok n (Lit b) = True"
| "tok_ok n (Match off len) = (1 \<le> off \<and> off < 2048 \<and> off \<le> n \<and> 2 \<le> len \<and> len < 2 ^ 16)"

fun apply_tok :: "bytes \<Rightarrow> lz_token \<Rightarrow> bytes" where
  "apply_tok dst (Lit b) = dst @ [b]"
| "apply_tok dst (Match off len) = copy_match off len dst"

fun toks_ok :: "bytes \<Rightarrow> lz_token list \<Rightarrow> bool" where
  "toks_ok dst [] = True"
| "toks_ok dst (t # ts) = (tok_ok (length dst) t \<and> toks_ok (apply_tok dst t) ts)"

definition expand :: "bytes \<Rightarrow> lz_token list \<Rightarrow> bytes" where
  "expand dst ts = foldl apply_tok dst ts"

definition toks_codes :: "lz_token list \<Rightarrow> (nat \<times> u32) list" where
  "toks_codes ts = concat (map tok_codes ts)"

lemma length_copy_match [simp]: "length (copy_match off len dst) = length dst + len"
  by (induction len arbitrary: dst) auto

lemma toks_ok_append: "toks_ok dst (a @ b) \<longleftrightarrow> toks_ok dst a \<and> toks_ok (expand dst a) b"
  by (induction a arbitrary: dst) (simp_all add: expand_def)

lemma expand_append: "expand dst (a @ b) = expand (expand dst a) b"
  by (simp add: expand_def)

lemma expand_length: "length dst \<le> length (expand dst ts)"
proof (induction ts arbitrary: dst)
  case (Cons t ts)
  have "length dst \<le> length (apply_tok dst t)" by (cases t) simp_all
  then show ?case using Cons [of "apply_tok dst t"] by (simp add: expand_def)
qed (simp add: expand_def)

section \<open>Numbers as bits\<close>

abbreviation (input) nbits :: "nat \<Rightarrow> nat \<Rightarrow> bool list" where
  "nbits n v \<equiv> bits_of n (of_nat v :: u32)"

lemma bit_of_nat_word: "bit (of_nat v :: 'a :: len word) i \<longleftrightarrow> i < LENGTH('a) \<and> bit v i"
  by transfer (simp add: bit_simps)

lemmas bit_of_nat_u32 = bit_of_nat_word [where 'a = 32, simplified]

lemma bit_small: "v < 2 ^ n \<Longrightarrow> n \<le> i \<Longrightarrow> \<not> bit (v :: nat) i"
  by (metis bit_take_bit_iff not_le take_bit_nat_eq_self_iff)

lemma nbits_split:
  "v < 2 ^ 32 \<Longrightarrow> nbits (m + n) v = nbits m (v div 2 ^ n) @ nbits n (v mod 2 ^ n)"
  unfolding bits_of_split
proof (intro arg_cong2 [of _ _ _ _ append] bits_of_cong)
  fix i assume "v < 2 ^ 32"
  then have "n + i < 32" if "bit v (n + i)" using bit_small [of v 32 "n + i"] that by (meson not_le)
  then show "bit (drop_bit n (of_nat v :: u32)) i = bit (of_nat (v div 2 ^ n) :: u32) i"
    by (auto simp: bit_simps bit_of_nat_u32 simp flip: drop_bit_eq_div)
next
  fix i assume "i < n"
  then show "bit (of_nat v :: u32) i = bit (of_nat (v mod 2 ^ n) :: u32) i"
    by (auto simp: bit_of_nat_u32 bit_simps simp flip: take_bit_eq_mod)
qed

lemma of_nat_u32_simps:
  assumes "v < 2 ^ 32"
  shows "unat (of_nat v :: u32) = v" "ucast (of_nat v :: u32) = (of_nat v :: 16 word)"
    "ucast (of_nat v :: u32) = (of_nat v :: u8)"
  using assms by (simp_all add: unsigned_of_nat take_bit_nat_eq_self)

lemma of_nat_u32_eq: "v < 2 ^ 32 \<Longrightarrow> w < 2 ^ 32 \<Longrightarrow> (of_nat v :: u32) = of_nat w \<longleftrightarrow> v = w"
  using of_nat_u32_simps(1) by metis

definition in_ok :: "in_st \<Rightarrow> bool" where
  "in_ok st = (1 \<le> snd st \<and> snd st \<le> 8)"

text \<open>Reading a code of two, four or nine bits while the end marker is still to come.\<close>

lemma get_code:
  assumes "in_ok st" "unread st = nbits n v @ r" "length r + n \<ge> 9" "n \<in> {2, 4, 9}" "v < 2 ^ n"
  shows "\<exists>st'. get_bits n st = Some (of_nat v, st') \<and> in_ok st' \<and> unread st' = r"
proof -
  obtain src bl where st: "st = (src, bl)" by fastforce
  have "length (unread st) \<ge> 9" using assms(2,3) by simp
  then obtain d src' bl' where g: "get_bits n (src, bl) = Some (d, src', bl')" "1 \<le> bl'" "bl' \<le> 8"
    "unread (src, bl) = bits_of n d @ unread (src', bl')" "\<forall>i \<ge> n. \<not> bit d i"
    using get_bits_unread [of src bl n] assms(1,4) by (auto simp: st in_ok_def)
  then have "bits_of n d = nbits n v" "unread (src', bl') = r"
    using assms(2) by (simp_all add: st append_eq_append_conv)
  moreover have "\<forall>i \<ge> n. \<not> bit (of_nat v :: u32) i" using bit_small [OF assms(5)] by (auto simp: bit_of_nat_u32)
  ultimately have "d = of_nat v" using g(5) by (intro bits_of_inj [of n]) auto
  then show ?thesis using g \<open>unread (src', bl') = r\<close> by (auto simp: st in_ok_def)
qed

section \<open>Lengths\<close>

function nybbles :: "nat \<Rightarrow> bool list" where
  "nybbles m = (if m \<ge> 15 then nbits 4 15 @ nybbles (m - 15) else nbits 4 m)"
  by pat_completeness auto
termination by (relation "measure id") auto

declare nybbles.simps [simp del]

lemma nbits_two_nybbles: "a < 16 \<Longrightarrow> b < 16 \<Longrightarrow> nbits 8 (16 * a + b) = nbits 4 a @ nbits 4 b"
  using nbits_split [of "16 * a + b" 4 4] by simp

lemma long_codes_nybbles: "code_bits (long_codes len) = nybbles len"
proof (induction len rule: long_codes.induct)
  case (1 len)
  consider "len \<ge> 30" | "15 \<le> len" "len < 30" | "len < 15" by linarith
  then show ?case
  proof cases
    case 1
    have "nybbles len = nbits 4 15 @ nbits 4 15 @ nybbles (len - 30)"
    proof -
      have "len - 15 \<ge> 15" "len - 15 - 15 = len - 30" using 1 by auto
      then show ?thesis using 1 by (simp add: nybbles.simps [of len] nybbles.simps [of "len - 15"])
    qed
    moreover have "long_codes len = (8, of_nat (16 * 15 + 15)) # long_codes (len - 30)"
      using 1 by (simp add: long_codes.simps [of len])
    ultimately show ?thesis using "1.IH" [OF 1] nbits_two_nybbles [of 15 15] by simp
  next
    case 2
    have "0xf0 + of_nat len - 15 = (of_nat (16 * 15 + (len - 15)) :: u32)" using 2 by (simp add: of_nat_diff)
    then have "long_codes len = [(8, of_nat (16 * 15 + (len - 15)))]"
      using 2 by (simp add: long_codes.simps [of len])
    moreover have "nybbles len = nbits 4 15 @ nbits 4 (len - 15)"
    proof -
      have "\<not> 15 \<le> len - 15" using 2 by simp
      then show ?thesis using 2 by (simp add: nybbles.simps [of len] nybbles.simps [of "len - 15"])
    qed
    ultimately show ?thesis using 2 nbits_two_nybbles [of 15 "len - 15"] by simp
  next
    case 3
    then show ?thesis by (simp add: long_codes.simps [of len] nybbles.simps [of len])
  qed
qed

lemma length_nybbles_read:
  "in_ok st \<Longrightarrow> unread st = nybbles m @ r \<Longrightarrow> length r \<ge> 9 \<Longrightarrow>
     \<exists>st'. length_nybbles st len = Some (len + of_nat m, st') \<and> in_ok st' \<and> unread st' = r"
proof (induction m arbitrary: st len rule: nybbles.induct)
  case (1 m)
  show ?case
  proof (cases "m \<ge> 15")
    case True
    obtain st1 where g: "get_bits 4 st = Some (of_nat 15, st1)" "in_ok st1" "unread st1 = nybbles (m - 15) @ r"
      using get_code [of st 4 15 "nybbles (m - 15) @ r"] "1.prems" True by (auto simp: nybbles.simps [of m])
    from "1.IH" [OF True g(2,3) "1.prems"(3), of "len + 15"] obtain st' where
      "length_nybbles st1 (len + 15) = Some (len + 15 + of_nat (m - 15), st')" "in_ok st'" "unread st' = r" by blast
    then show ?thesis using g(1) True by (simp add: length_nybbles.simps [of st] of_nat_diff)
  next
    case False
    obtain st1 where g: "get_bits 4 st = Some (of_nat m, st1)" "in_ok st1" "unread st1 = r"
      using get_code [of st 4 m r] "1.prems" False by (auto simp: nybbles.simps [of m])
    have "of_nat m \<noteq> (15 :: u32)" using of_nat_u32_eq [of m 15] False by simp
    moreover have "ucast (of_nat m :: u32) = (of_nat m :: 16 word)" using False by (simp add: of_nat_u32_simps)
    ultimately show ?thesis using g by (simp add: length_nybbles.simps [of st])
  qed
qed

lemma get_length_read:
  assumes "in_ok st" "unread st = code_bits (length_codes len) @ r" "length r \<ge> 9" "2 \<le> len"
  shows "\<exists>st'. get_length st = Some (of_nat len, st') \<and> in_ok st' \<and> unread st' = r"
proof -
  consider "len < 5" | "5 \<le> len" "len < 8" | "8 \<le> len" by linarith
  then show ?thesis
  proof cases
    case 1
    then have *: "length_codes len = [(2, of_nat (len - 2))]" using assms(4) by (simp add: length_codes_def of_nat_diff)
    obtain st1 where g: "get_bits 2 st = Some (of_nat (len - 2), st1)" "in_ok st1" "unread st1 = r"
    proof -
      have "len - 2 < 2 ^ 2" using 1 by simp
      from get_code [OF assms(1) _ _ _ this, of r] * assms(2,3) that show thesis by auto
    qed
    moreover have "of_nat (len - 2) \<noteq> (3 :: u32)" using of_nat_u32_eq [of "len - 2" 3] 1 by simp
    moreover have "ucast (of_nat (len - 2) :: u32) + 2 = (of_nat len :: 16 word)"
      using 1 assms(4) of_nat_u32_simps(2) [of "len - 2"] by (simp add: of_nat_diff)
    ultimately show ?thesis by (simp add: get_length_def)
  next
    case 2
    have "nbits (2 + 2) (len + 7) = nbits 2 ((len + 7) div 2 ^ 2) @ nbits 2 ((len + 7) mod 2 ^ 2)"
      using 2 by (intro nbits_split) simp
    moreover have "(len + 7) div 4 = 3" "(len + 7) mod 4 = len - 5" using 2 by presburger+
    ultimately have "code_bits (length_codes len) = nbits 2 3 @ nbits 2 (len - 5)"
      using 2 by (simp add: length_codes_def)
    then obtain st1 where g1: "get_bits 2 st = Some (of_nat 3, st1)" "in_ok st1" "unread st1 = nbits 2 (len - 5) @ r"
      using get_code [of st 2 3 "nbits 2 (len - 5) @ r"] assms(1-3) by auto
    then obtain st2 where g2: "get_bits 2 st1 = Some (of_nat (len - 5), st2)" "in_ok st2" "unread st2 = r"
    proof -
      have "len - 5 < 2 ^ 2" using 2 by simp
      from get_code [OF g1(2) _ _ _ this, of r] g1(3) assms(3) that show thesis by auto
    qed
    moreover have "of_nat (len - 5) \<noteq> (3 :: u32)" using of_nat_u32_eq [of "len - 5" 3] 2 by simp
    moreover have "ucast (of_nat (len - 5) :: u32) + 5 = (of_nat len :: 16 word)"
      using 2 of_nat_u32_simps(2) [of "len - 5"] by (simp add: of_nat_diff)
    ultimately show ?thesis using g1(1) by (simp add: get_length_def)
  next
    case 3
    have "nbits (2 + 2) 15 = nbits 2 (15 div 2 ^ 2) @ nbits 2 (15 mod 2 ^ 2)" by (intro nbits_split) simp
    then have "nbits 4 15 = nbits 2 3 @ nbits 2 3" by simp
    then have "code_bits (length_codes len) = nbits 2 3 @ nbits 2 3 @ nybbles (len - 8)"
      using 3 by (simp add: length_codes_def long_codes_nybbles nybbles.simps [of "len + 7"])
    then obtain st1 where g1: "get_bits 2 st = Some (of_nat 3, st1)" "in_ok st1" "unread st1 = nbits 2 3 @ nybbles (len - 8) @ r"
      using get_code [of st 2 3 "nbits 2 3 @ nybbles (len - 8) @ r"] assms(1-3) by auto
    then obtain st2 where g2: "get_bits 2 st1 = Some (of_nat 3, st2)" "in_ok st2" "unread st2 = nybbles (len - 8) @ r"
      using get_code [of st1 2 3 "nybbles (len - 8) @ r"] assms(3) by auto
    from length_nybbles_read [OF g2(2,3) assms(3), of 8] obtain st' where
      "length_nybbles st2 8 = Some (8 + of_nat (len - 8), st')" "in_ok st'" "unread st' = r" by blast
    moreover have "(8 :: 16 word) + of_nat (len - 8) = of_nat len" using 3 by (simp add: of_nat_diff)
    ultimately show ?thesis using g1(1) g2(1) by (simp add: get_length_def)
  qed
qed

section \<open>Offsets\<close>

lemma or_high:
  assumes "v < 2 ^ k"
  shows "or (push_bit k (of_nat a)) (of_nat v) = (of_nat (a * 2 ^ k + v) :: 'a :: len word)"
proof -
  have "push_bit k (of_nat a) + of_nat v = or (push_bit k (of_nat a)) (of_nat v :: 'a word)"
    using bit_small [OF assms] by (intro disjunctive_add) (auto simp: bit_simps bit_of_nat_word not_le)
  then show ?thesis by (simp add: push_bit_eq_mult mult.commute)
qed

lemma offset_code_nat:
  "off < 0x80 \<Longrightarrow> offset_code off = (9, of_nat (0x180 + off))"
  "0x80 \<le> off \<Longrightarrow> off < 0x800 \<Longrightarrow> offset_code off = (13, of_nat (0x1000 + off))"
proof -
  have "push_bit 7 (of_nat 3) = (0x180 :: u32)" "push_bit 12 (of_nat 1) = (0x1000 :: u32)" by simp_all
  then show "off < 0x80 \<Longrightarrow> offset_code off = (9, of_nat (0x180 + off))"
    "0x80 \<le> off \<Longrightarrow> off < 0x800 \<Longrightarrow> offset_code off = (13, of_nat (0x1000 + off))"
    using or_high [of off 7 3] or_high [of off 12 1] by (simp_all add: offset_code_def)
qed

lemma and_7f: "and (of_nat v :: u32) 0x7f = of_nat (v mod 128)"
proof -
  have "and (of_nat v :: u32) (mask 7) = of_nat (v mod 2 ^ 7)"
    by (simp only: take_bit_eq_mask [symmetric] take_bit_of_nat take_bit_nat_def)
  moreover have "(mask 7 :: u32) = 0x7f" by (simp add: mask_eq_exp_minus_1)
  ultimately show ?thesis by simp
qed

lemma less_u32: "v < 2 ^ 32 \<Longrightarrow> (of_nat v :: u32) < of_nat w \<longleftrightarrow> v < w" if "w < 2 ^ 32"
  using that by (simp add: word_less_nat_alt of_nat_u32_simps)

lemma offset_read:
  assumes "in_ok st" "unread st = code_bits [offset_code off] @ r" "length r \<ge> 9" "1 \<le> off" "off < 2048"
  shows "\<exists>data st1 st2. get_bits 9 st = Some (data, st1) \<and> \<not> data < 0x100 \<and> data \<noteq> 0x180 \<and>
    get_offset data st1 = Some (of_nat off, st2) \<and> in_ok st2 \<and> unread st2 = r"
proof (cases "off < 128")
  case True
  have lt: "384 + off < 2 ^ 9" using True by simp
  from get_code [OF assms(1) _ _ _ lt, of r] obtain st1 where
    g: "get_bits 9 st = Some (of_nat (384 + off), st1)" "in_ok st1" "unread st1 = r"
    using assms(2,3) True by (auto simp: offset_code_nat)
  have "(off + 3 * 128) mod 128 = off" using True by (simp only: mod_mult_self1 mod_less)
  then have "(384 + off) mod 128 = off" by (simp add: add.commute)
  then have a: "and (of_nat (384 + off)) 0x7f = (of_nat off :: u32)" by (simp only: and_7f)
  have "\<not> (of_nat (384 + off) :: u32) < of_nat 256" "\<not> (of_nat (384 + off) :: u32) < of_nat 384"
    "of_nat (384 + off) \<noteq> (of_nat 384 :: u32)"
    using less_u32 [of 256 "384 + off"] less_u32 [of 384 "384 + off"] of_nat_u32_eq [of "384 + off" 384] True assms(4)
    by simp_all
  moreover have "ucast (of_nat off :: u32) = (of_nat off :: 16 word)" using True by (simp add: of_nat_u32_simps)
  ultimately show ?thesis using g a by (cases st1) (auto simp: get_offset_def)
next
  case False
  have lt: "256 + off div 16 < 2 ^ 9" "off mod 16 < 2 ^ 4" using assms(5) by auto
  have "(off + 256 * 16) div 16 = 256 + off div 16" "(off + 256 * 16) mod 16 = off mod 16"
    by (simp_all only: div_mult_self1 mod_mult_self1)
  then have "(4096 + off) div 2 ^ 4 = 256 + off div 16" "(4096 + off) mod 2 ^ 4 = off mod 16"
    by (simp_all add: add.commute)
  then have "nbits (9 + 4) (4096 + off) = nbits 9 (256 + off div 16) @ nbits 4 (off mod 16)"
    using nbits_split [of "4096 + off" 9 4] assms(5) by simp
  then have un: "unread st = nbits 9 (256 + off div 16) @ nbits 4 (off mod 16) @ r"
    using assms(2,5) False by (simp add: offset_code_nat)
  from get_code [OF assms(1) un _ _ lt(1)] obtain st1 where
    g: "get_bits 9 st = Some (of_nat (256 + off div 16), st1)" "in_ok st1" "unread st1 = nbits 4 (off mod 16) @ r"
    by auto
  from get_code [OF g(2,3) _ _ lt(2)] assms(3) obtain st2 where
    g2: "get_bits 4 st1 = Some (of_nat (off mod 16), st2)" "in_ok st2" "unread st2 = r" by auto
  have "off div 16 < 128" using assms(5) by simp
  then have "(off div 16 + 2 * 128) mod 128 = off div 16" by (simp only: mod_mult_self1 mod_less)
  then have "(256 + off div 16) mod 128 = off div 16" by (simp add: add.commute)
  then have a: "and (of_nat (256 + off div 16)) 0x7f = (of_nat (off div 16) :: u32)" by (simp only: and_7f)
  have "(of_nat (256 + off div 16) :: u32) < of_nat 384" "\<not> (of_nat (256 + off div 16) :: u32) < of_nat 256"
    "of_nat (256 + off div 16) \<noteq> (of_nat 384 :: u32)"
    using less_u32 [of 384 "256 + off div 16"] less_u32 [of 256 "256 + off div 16"]
      of_nat_u32_eq [of "256 + off div 16" 384] assms(5) by simp_all
  moreover have "or (push_bit 4 (ucast (of_nat (off div 16) :: u32))) (ucast (of_nat (off mod 16) :: u32)) = (of_nat off :: 16 word)"
    using or_high [of "off mod 16" 4 "off div 16"] assms(5) by (simp add: of_nat_u32_simps)
  ultimately show ?thesis using g g2 a by (cases st2) (auto simp: get_offset_def)
qed

section \<open>Reading a stream\<close>

lemma decompress_tokens:
  "toks_ok dst ts \<Longrightarrow> length (expand dst ts) \<le> dstlen \<Longrightarrow> in_ok st
    \<Longrightarrow> unread st = code_bits (toks_codes ts) @ nbits 9 0x180 @ pad
    \<Longrightarrow> decompress_loop dstlen st dst = Inr (expand dst ts)"
proof (induction ts arbitrary: dst st)
  case Nil
  obtain st1 where "get_bits 9 st = Some (of_nat 0x180, st1)"
    using get_code [of st 9 "0x180" pad] Nil.prems(3) Nil.prems(4) by (auto simp: toks_codes_def)
  then show ?case by (simp add: decompress_loop.simps [of dstlen st] expand_def)
next
  case (Cons t ts)
  let ?r = "code_bits (toks_codes ts) @ nbits 9 0x180 @ pad"
  have un: "unread st = code_bits (tok_codes t) @ ?r" using Cons.prems(4) by (simp add: toks_codes_def)
  have ex: "expand dst (t # ts) = expand (apply_tok dst t) ts" by (simp add: expand_def)
  note IH = Cons.IH [of "apply_tok dst t"]
  show ?case
  proof (cases t)
    case (Lit b)
    have "unat b < 2 ^ LENGTH(8)" by (rule unsigned_less)
    then have b256: "unat b < 256" by simp
    then have lt: "unat b < 2 ^ 9" by simp
    have "unread st = nbits 9 (unat b) @ ?r" using un Lit by simp
    from get_code [OF Cons.prems(3) this _ _ lt] obtain st1 where
      g: "get_bits 9 st = Some (of_nat (unat b), st1)" "in_ok st1" "unread st1 = ?r" by auto
    have "of_nat (unat b) < (of_nat 256 :: u32)"
      using less_u32 [of 256 "unat b"] b256 by simp
    moreover have "length dst \<noteq> dstlen"
      using Cons.prems(2) expand_length [of "dst @ [b]" ts] Lit ex by simp
    moreover have "ucast (of_nat (unat b) :: u32) = b" using of_nat_u32_simps(3) [of "unat b"] lt by simp
    ultimately have "decompress_loop dstlen st dst = decompress_loop dstlen st1 (dst @ [b])"
      using g(1) by (simp add: decompress_loop.simps [of dstlen st])
    then show ?thesis using IH [of st1] Cons.prems(1,2) g ex Lit by simp
  next
    case (Match off len)
    have ok: "1 \<le> off" "off < 2048" "off \<le> length dst" "2 \<le> len" "len < 2 ^ 16" using Cons.prems(1) Match by auto
    let ?r2 = "code_bits (length_codes len) @ ?r"
    obtain data st1 st2 where o: "get_bits 9 st = Some (data, st1)" "\<not> data < 0x100" "data \<noteq> 0x180"
      "get_offset data st1 = Some (of_nat off, st2)" "in_ok st2" "unread st2 = ?r2"
      using offset_read [OF Cons.prems(3), of off ?r2] un ok Match by (cases "offset_code off") auto
    obtain st3 where l: "get_length st2 = Some (of_nat len, st3)" "in_ok st3" "unread st3 = ?r"
      using get_length_read [OF o(5,6) _ ok(4)] by auto
    have "unat (of_nat off :: 16 word) = off" "unat (of_nat len :: 16 word) = len"
      using ok by (simp_all add: unsigned_of_nat take_bit_nat_eq_self)
    moreover from this(1) have "of_nat off \<noteq> (0 :: 16 word)" using ok(1) by fastforce
    moreover have "len + length dst \<le> dstlen"
      using Cons.prems(2) expand_length [of "copy_match off len dst" ts] Match ex by simp
    ultimately have "decompress_loop dstlen st dst = decompress_loop dstlen st3 (copy_match off len dst)"
      using o l ok by (simp add: decompress_loop.simps [of dstlen st])
    then show ?thesis using IH [of st3] Cons.prems(1,2) l ex Match by simp
  qed
qed

lemma lzs_decompress_tokens:
  assumes "toks_ok [] ts" "length (expand [] ts) \<le> dstlen"
    and "stream src = code_bits (toks_codes ts) @ nbits 9 0x180 @ pad"
  shows "lzs_decompress dstlen src = Inr (expand [] ts)"
  using decompress_tokens [OF assms(1,2), of "(src, 8)" pad] assms(3)
  by (simp add: lzs_decompress_def in_ok_def unread_def)

text \<open>The output never exceeds the size of the destination.\<close>

lemma decompress_loop_bound:
  "decompress_loop dstlen st dst = Inr out \<Longrightarrow> length dst \<le> dstlen \<Longrightarrow> length out \<le> dstlen"
proof (induction dstlen st dst rule: decompress_loop.induct)
  case (1 dstlen st dst)
  show ?case
  proof (cases "get_bits 9 st")
    case None
    then show ?thesis using "1.prems" by (simp add: decompress_loop.simps [of dstlen st])
  next
    case (Some r)
    obtain data st1 where g: "get_bits 9 st = Some (data, st1)" using Some by (cases r) auto
    consider "data < 0x100" | "\<not> data < 0x100" "data = 0x180" | "\<not> data < 0x100" "data \<noteq> 0x180" by blast
    then show ?thesis
    proof cases
      case 1
      then show ?thesis
        using "1.prems" "1.IH"(1) [OF g refl 1] g
        by (auto simp: decompress_loop.simps [of dstlen st] split: if_splits)
    next
      case 2
      then show ?thesis using "1.prems" g by (simp add: decompress_loop.simps [of dstlen st])
    next
      case 3
      then obtain off st2 len st3 where o: "get_offset data st1 = Some (off, st2)" "get_length st2 = Some (len, st3)"
        "\<not> (off = 0 \<or> unat off > length dst)" "\<not> unat len + length dst > dstlen"
        "decompress_loop dstlen st3 (copy_match (unat off) (unat len) dst) = Inr out"
        using "1.prems" g by (auto simp: decompress_loop.simps [of dstlen st] split: option.splits if_splits)
      then show ?thesis using "1.IH"(2) [OF g refl 3 o(1) refl o(2) refl o(3,4,5)] by simp
    qed
  qed
qed

end
