(* ===== verification/Lzs_Roundtrip.thy ===== *)
theory Lzs_Roundtrip
  imports Lzs_Decode
begin

text \<open>
  The compressor of \<^verbatim>\<open>src/src/lzs.c\<close> always returns, and decompressing what it wrote gives the
  input back.  The history invariant says that every position found through the hash table
  or through the links holds the two bytes that were looked for.
\<close>

section \<open>The history\<close>

lemma hash_at_inj:
  assumes "hash_at src p = hash_at src q"
  shows "src ! p = src ! q \<and> src ! (p + 1) = src ! (q + 1)"
proof -
  have bits: "bit (hash_at src r) i \<longleftrightarrow> (i < 8 \<and> bit (src ! r) i) \<or> (8 \<le> i \<and> i < 16 \<and> bit (src ! (r + 1)) (i - 8))" for r i
    by (auto simp: hash_at_def bit_simps)
  have "bit (src ! p) i = bit (src ! q) i" for i
    using bits [of p i] bits [of q i] assms u8_high_bit [of i] by (cases "i < 8") auto
  moreover have "bit (src ! (p + 1)) i = bit (src ! (q + 1)) i" for i
    using bits [of p "i + 8"] bits [of q "i + 8"] assms u8_high_bit [of i] by (cases "i < 8") auto
  ultimately show ?thesis by (auto intro: bit_eqI)
qed

text \<open>All positions below \<open>n\<close> have been entered.\<close>

definition hist_inv :: "bytes \<Rightarrow> nat \<Rightarrow> hist_st \<Rightarrow> bool" where
  "hist_inv src n h =
     ((\<forall>hv. hs_table h hv \<noteq> INVALID_OFS \<longrightarrow> hs_table h hv < n \<and> hash_at src (hs_table h hv) = hv) \<and>
      (\<forall>p < n. n \<le> p + MAX_HISTORY \<longrightarrow> hs_chain h (p mod MAX_HISTORY) \<noteq> INVALID_OFS \<longrightarrow>
         hs_chain h (p mod MAX_HISTORY) < p \<and> hash_at src (hs_chain h (p mod MAX_HISTORY)) = hash_at src p))"

lemma hist_inv_init: "hist_inv src 0 (hist_init junk)"
  by (simp add: hist_inv_def hist_init_def)

lemma ring_distinct: "p < n \<Longrightarrow> n < p + MAX_HISTORY \<Longrightarrow> p mod MAX_HISTORY \<noteq> n mod MAX_HISTORY"
proof
  assume "p < n" "n < p + 2048" "p mod 2048 = n mod 2048"
  then have "(n - p) mod 2048 = 0" by (metis less_imp_le_nat mod_eq_dvd_iff_nat mod_0_imp_dvd dvd_imp_mod_0)
  with \<open>p < n\<close> \<open>n < p + 2048\<close> show False by simp
qed

lemma hist_inv_insert:
  assumes "hist_inv src n h" "n < 2 ^ 16"
  shows "hist_inv src (n + 1) (hist_insert src n h)"
proof -
  let ?h = "hist_insert src n h"
  have tab: "hs_table ?h hv < n + 1 \<and> hash_at src (hs_table ?h hv) = hv" if "hs_table ?h hv \<noteq> INVALID_OFS" for hv
    using assms that by (cases "hv = hash_at src n") (auto simp: hist_inv_def hist_insert_def less_SucI)
  have "hs_chain ?h (p mod 2048) < p \<and> hash_at src (hs_chain ?h (p mod 2048)) = hash_at src p"
    if "p < n + 1" "n + 1 \<le> p + 2048" "hs_chain ?h (p mod 2048) \<noteq> INVALID_OFS" for p
  proof (cases "p = n")
    case True
    then show ?thesis using assms(1) that(3) by (auto simp: hist_inv_def hist_insert_def)
  next
    case False
    then have "p < n" "n < p + 2048" using that by auto
    then show ?thesis using ring_distinct [of p n] assms(1) that(3) by (auto simp: hist_inv_def hist_insert_def)
  qed
  with tab show ?thesis unfolding hist_inv_def by blast
qed

lemma hist_inv_range:
  "hist_inv src p h \<Longrightarrow> p + n \<le> 2 ^ 16 \<Longrightarrow> n = 0 \<or> p + n < length src \<Longrightarrow>
     \<exists>h'. insert_range src p n h = Some h' \<and> hist_inv src (p + n) h'"
proof (induction n arbitrary: p h)
  case (Suc n)
  then show ?case using hist_inv_insert [of src p h] Suc.IH [of "p + 1" "hist_insert src p h"] by auto
qed simp

section \<open>The search for a match\<close>

definition same_at :: "bytes \<Rightarrow> nat \<Rightarrow> nat \<Rightarrow> nat \<Rightarrow> bool" where
  "same_at src p q len = (\<forall>k < len. src ! (p + k) = src ! (q + k))"

lemma same_at_hash: "hash_at src p = hash_at src q \<Longrightarrow> same_at src p q 2"
  using hash_at_inj [of src p q] by (auto simp: same_at_def less_Suc_eq numeral_2_eq_2)

lemma extend_match_ok:
  assumes "same_at src hofs inpos (len + 1)" "len + inpos < length src" "hofs < inpos"
  shows "\<exists>b len'. extend_match src inpos hofs len = Some (b, len') \<and> len' > len \<and> same_at src hofs inpos len' \<and>
    (if b then len' + inpos = length src else len' + inpos < length src)"
  using assms
proof (induction src inpos hofs len rule: extend_match.induct)
  case (1 src inpos hofs len)
  show ?case
  proof (cases "len + 1 + inpos < length src \<and> src ! (len + 1 + inpos) = src ! (len + 1 + hofs)")
    case True
    then have "same_at src hofs inpos (len + 1 + 1)"
      using "1.prems"(1) by (auto simp: same_at_def less_Suc_eq add.commute)
    with "1.IH" True obtain b len' where "extend_match src inpos hofs (len + 1) = Some (b, len')" "len' > len + 1"
      "same_at src hofs inpos len'" "if b then len' + inpos = length src else len' + inpos < length src"
      using "1.prems"(3) by auto
    then show ?thesis using True "1.prems"(3) by (auto simp: extend_match.simps [of src inpos hofs len])
  next
    case False
    then show ?thesis using "1.prems" by (auto simp: extend_match.simps [of src inpos hofs len])
  qed
qed

lemma same_at_memcmp:
  assumes "same_at src p q 2" "memcmp_eq src (p + 2) (q + 2) (len - 1) = Some True"
    and "2 \<le> len" "p < q" "len + q < length src"
  shows "same_at src p q (len + 1)"
  unfolding same_at_def
proof (intro allI impI)
  fix k assume k: "k < len + 1"
  show "src ! (p + k) = src ! (q + k)"
  proof (cases "k < 2")
    case False
    then obtain j where j: "k = j + 2" by (metis add.commute le_Suc_ex not_less)
    then have "take (len - 1) (drop (p + 2) src) ! j = src ! (p + k)"
      "take (len - 1) (drop (q + 2) src) ! j = src ! (q + k)"
      using k assms(3-5) by (auto simp: ac_simps)
    then show ?thesis using assms(2) by (simp add: memcmp_eq_def split: if_splits)
  qed (use assms(1) in \<open>simp add: same_at_def\<close>)
qed

text \<open>What the search keeps of the best match so far, and what it knows of the next candidate.\<close>

definition match_ok :: "bytes \<Rightarrow> nat \<Rightarrow> nat \<Rightarrow> nat \<Rightarrow> bool" where
  "match_ok src inpos ofs len =
     (ofs < inpos \<and> inpos < ofs + MAX_HISTORY \<and> 2 \<le> len \<and> same_at src ofs inpos len)"

lemma match_loop_ok:
  assumes "hist_inv src (inpos + 1) h"
  shows "hofs = INVALID_OFS \<or> hofs < inpos \<and> hash_at src hofs = hash_at src inpos
    \<Longrightarrow> hofs + 1 < fuel \<or> hofs = INVALID_OFS \<and> 0 < fuel \<Longrightarrow> match_ok src inpos ofs len \<Longrightarrow> len + inpos < length src
    \<Longrightarrow> \<exists>len' ofs'. match_loop fuel src h inpos hofs len ofs = Some (len', ofs') \<and>
          match_ok src inpos ofs' len' \<and> len' + inpos \<le> length src"
proof (induction fuel arbitrary: hofs len ofs)
  case (Suc fuel)
  show ?case
  proof (cases "hofs \<noteq> INVALID_OFS \<and> hofs + MAX_HISTORY > inpos")
    case False
    then show ?thesis using Suc.prems by auto
  next
    case True
    then have h: "hofs < inpos" "hash_at src hofs = hash_at src inpos" "inpos < hofs + MAX_HISTORY" "hofs < fuel"
      using Suc.prems(1,2) by auto
    let ?c = "hs_chain h (hofs mod MAX_HISTORY)"
    have c: "?c = INVALID_OFS \<or> ?c < inpos \<and> hash_at src ?c = hash_at src inpos"
      and cf: "?c + 1 < fuel \<or> ?c = INVALID_OFS \<and> 0 < fuel"
    proof -
      have "?c \<noteq> INVALID_OFS \<longrightarrow> ?c < hofs \<and> hash_at src ?c = hash_at src hofs"
        using assms h(1,3) unfolding hist_inv_def by auto
      then show "?c = INVALID_OFS \<or> ?c < inpos \<and> hash_at src ?c = hash_at src inpos"
        "?c + 1 < fuel \<or> ?c = INVALID_OFS \<and> 0 < fuel" using h by auto
    qed
    obtain e where e: "memcmp_eq src (hofs + 2) (inpos + 2) (len - 1) = Some e"
      using h(1) Suc.prems(3,4) by (auto simp: memcmp_eq_def match_ok_def)
    show ?thesis
    proof (cases e)
      case False
      from Suc.IH [OF c cf Suc.prems(3,4)] show ?thesis using True False e by simp
    next
      case True
      then have eq: "memcmp_eq src (hofs + 2) (inpos + 2) (len - 1) = Some True" using e by simp
      have "same_at src hofs inpos (len + 1)"
        using same_at_memcmp [OF same_at_hash [OF h(2)] eq _ h(1)] Suc.prems(3,4) by (simp add: match_ok_def)
      from extend_match_ok [OF this Suc.prems(4) h(1)] obtain b l where
        l: "extend_match src inpos hofs len = Some (b, l)" "l > len" "same_at src hofs inpos l"
        "if b then l + inpos = length src else l + inpos < length src" by blast
      then have m: "match_ok src inpos hofs l" using h Suc.prems(3) by (auto simp: match_ok_def)
      show ?thesis
      proof (cases b)
        case True
        then show ?thesis using l m eq \<open>hofs \<noteq> INVALID_OFS \<and> hofs + MAX_HISTORY > inpos\<close> by simp
      next
        case False
        from Suc.IH [OF c cf m] l(4) False show ?thesis
          using l(1) eq \<open>hofs \<noteq> INVALID_OFS \<and> hofs + MAX_HISTORY > inpos\<close> by simp
      qed
    qed
  qed
qed simp

section \<open>Matches as tokens\<close>

lemma copy_match_take:
  "ofs < p \<Longrightarrow> p + len \<le> length src \<Longrightarrow> same_at src ofs p len \<Longrightarrow>
     copy_match (p - ofs) len (take p src) = take (p + len) src"
proof (induction len arbitrary: p ofs)
  case (Suc n)
  have "src ! ofs = src ! p" using Suc.prems(3) by (auto simp: same_at_def dest: spec [of _ 0])
  then have "take p src @ [take p src ! (length (take p src) - (p - ofs))] = take (Suc p) src"
    using Suc.prems(1,2) by (simp add: take_Suc_conv_app_nth min_def)
  moreover have "same_at src (Suc ofs) (Suc p) n" using Suc.prems(3) by (auto simp: same_at_def)
  ultimately show ?case using Suc.IH [of "Suc ofs" "Suc p"] Suc.prems(1,2) by simp
qed simp

text \<open>A round of the main loop writes one token.\<close>

lemma compress_step_tok:
  assumes "hist_inv src inpos h" "inpos + 2 < length src" "length src \<le> 2 ^ 16"
  shows "\<exists>t len. compress_step src inpos h = Some (tok_codes t, len, hist_insert src inpos h) \<and>
    tok_ok inpos t \<and> apply_tok (take inpos src) t = take (inpos + len) src \<and> 1 \<le> len \<and> inpos + len \<le> length src"
proof -
  let ?hofs = "hs_table h (hash_at src inpos)" and ?h = "hist_insert src inpos h"
  have inv: "hist_inv src (inpos + 1) ?h" using assms by (intro hist_inv_insert) auto
  show ?thesis
  proof (cases "?hofs = INVALID_OFS \<or> ?hofs + MAX_HISTORY \<le> inpos")
    case True
    then show ?thesis
      using assms(2) by (intro exI [of _ "Lit (src ! inpos)"] exI [of _ 1])
        (auto simp: compress_step_def Let_def take_Suc_conv_app_nth)
  next
    case False
    then have c: "?hofs < inpos" "hash_at src ?hofs = hash_at src inpos" "inpos < ?hofs + MAX_HISTORY"
      using assms(1) unfolding hist_inv_def by auto
    then have "match_ok src inpos ?hofs 2" by (auto simp: match_ok_def intro: same_at_hash)
    then obtain len ofs where m: "match_loop (inpos + 1) src ?h inpos ?hofs 2 ?hofs = Some (len, ofs)"
      "match_ok src inpos ofs len" "len + inpos \<le> length src"
      using match_loop_ok [OF inv, of ?hofs "inpos + 1" ?hofs 2] c assms(2) by auto
    then have o: "ofs < inpos" "inpos < ofs + 2048" "2 \<le> len" "same_at src ofs inpos len" by (auto simp: match_ok_def)
    have "compress_step src inpos h = Some (tok_codes (Match (inpos - ofs) len), len, ?h)"
      using False m(1) assms(2) by (simp add: compress_step_def Let_def del: match_loop.simps)
    moreover have "tok_ok inpos (Match (inpos - ofs) len)" using o m(3) assms(2,3) by auto
    moreover have "apply_tok (take inpos src) (Match (inpos - ofs) len) = take (inpos + len) src"
      using copy_match_take [OF o(1) _ o(4)] m(3) by simp
    ultimately show ?thesis using o(3) m(3) by (intro exI [of _ "Match (inpos - ofs) len"] exI [of _ len]) auto
  qed
qed

lemma code_ok_nat: "v < 2 ^ n \<Longrightarrow> n \<le> 16 \<Longrightarrow> code_ok (n, of_nat v)"
  using bit_small [of v n] by (auto simp: code_ok_def bit_of_nat_u32)

lemma long_codes_ok: "list_all code_ok (long_codes len)"
proof (induction len rule: long_codes.induct)
  case (1 len)
  consider "len \<ge> 30" | "15 \<le> len" "len < 30" | "len < 15" by linarith
  then show ?case
  proof cases
    case 1
    then show ?thesis using "1.IH" code_ok_nat [of 255 8] by (simp add: long_codes.simps [of len])
  next
    case 2
    then have "0xf0 + of_nat len - 15 = (of_nat (225 + len) :: u32)" by simp
    then show ?thesis using 2 code_ok_nat [of "225 + len" 8] by (simp add: long_codes.simps [of len])
  next
    case 3
    then show ?thesis using code_ok_nat [of len 4] by (simp add: long_codes.simps [of len])
  qed
qed

lemma length_codes_ok: "2 \<le> len \<Longrightarrow> list_all code_ok (length_codes len)"
proof -
  assume len: "2 \<le> len"
  have "of_nat len - 2 = (of_nat (len - 2) :: u32)" "of_nat len + 7 = (of_nat (len + 7) :: u32)"
    using len by (simp_all add: of_nat_diff)
  then show ?thesis
    using code_ok_nat [of "len - 2" 2] code_ok_nat [of "len + 7" 4] long_codes_ok [of "len + 7"]
    by (simp add: length_codes_def)
qed

lemma tok_codes_ok: "tok_ok n t \<Longrightarrow> list_all code_ok (tok_codes t)"
proof (cases t)
  case (Lit b)
  then show ?thesis by (auto simp: code_ok_def bit_simps)
next
  case (Match off len)
  moreover assume "tok_ok n t"
  ultimately have "code_ok (offset_code off)" "2 \<le> len"
    using code_ok_nat [of "0x180 + off" 9] code_ok_nat [of "0x1000 + off" 13]
    by (cases "off < 128"; simp add: offset_code_nat)+
  then show ?thesis using Match length_codes_ok by simp
qed

section \<open>The main loop\<close>

text \<open>The output holds the tokens for the input up to a position.\<close>

definition out_ok :: "bytes \<Rightarrow> nat \<Rightarrow> put_st \<Rightarrow> bool" where
  "out_ok src inpos out =
     (pu_nr_outbits out < 8 \<and>
      (\<exists>ts. toks_ok [] ts \<and> expand [] ts = take inpos src \<and> written out = code_bits (toks_codes ts)))"

lemma out_ok_put:
  assumes "out_ok src inpos out" "inpos \<le> length src" "tok_ok inpos t"
    and "apply_tok (take inpos src) t = take q src" "put_all dstlen (tok_codes t) out = Some out'"
  shows "out_ok src q out'"
proof -
  obtain ts where ts: "toks_ok [] ts" "expand [] ts = take inpos src" "written out = code_bits (toks_codes ts)"
    and nr: "pu_nr_outbits out < 8" using assms(1) by (auto simp: out_ok_def)
  have "toks_ok [] (ts @ [t])" "expand [] (ts @ [t]) = take q src"
    using ts assms(2-4) by (simp_all add: toks_ok_append expand_append) (simp add: expand_def)
  moreover have "written out' = code_bits (toks_codes (ts @ [t])) \<and> pu_nr_outbits out' < 8"
    using put_all_written [OF assms(5) tok_codes_ok [OF assms(3)] nr] ts(3) by (simp add: toks_codes_def)
  ultimately show ?thesis unfolding out_ok_def by blast
qed

definition done_ok :: "bytes \<Rightarrow> comp_res \<Rightarrow> bool" where
  "done_ok src res =
     (case res of
        CErr e \<Rightarrow> e = - EFBIG
      | CDone inpos out h \<Rightarrow>
          length src \<le> inpos + 2 \<and> inpos \<le> length src \<and> out_ok src inpos out \<and> (\<exists>n \<le> inpos. hist_inv src n h))"

lemma compress_loop_ok:
  "length src \<le> 2 ^ 16 \<Longrightarrow> inpos \<le> length src \<Longrightarrow> hist_inv src inpos h \<Longrightarrow> out_ok src inpos out
    \<Longrightarrow> \<exists>res. compress_loop dstlen src inpos h out = Some res \<and> done_ok src res"
proof (induction dstlen src inpos h out rule: compress_loop.induct)
  case (1 dstlen src inpos h out)
  show ?case
  proof (cases "inpos + 2 < length src")
    case False
    then show ?thesis using "1.prems" by (auto simp: compress_loop.simps [of dstlen src inpos] done_ok_def)
  next
    case True
    obtain t len where step: "compress_step src inpos h = Some (tok_codes t, len, hist_insert src inpos h)"
      and t: "tok_ok inpos t" "apply_tok (take inpos src) t = take (inpos + len) src" "1 \<le> len" "inpos + len \<le> length src"
      using compress_step_tok [OF "1.prems"(3) True "1.prems"(1)] by blast
    show ?thesis
    proof (cases "put_all dstlen (tok_codes t) out")
      case None
      then show ?thesis using True step by (simp add: compress_loop.simps [of dstlen src inpos] done_ok_def)
    next
      case (Some out')
      have out': "out_ok src (inpos + len) out'" by (rule out_ok_put [OF "1.prems"(4,2) t(1,2) Some])
      have inv: "hist_inv src (inpos + 1) (hist_insert src inpos h)"
        using hist_inv_insert [OF "1.prems"(3)] True "1.prems"(1) by simp
      show ?thesis
      proof (cases "len > 1 \<and> inpos + len + 2 \<ge> length src")
        case True
        have "\<exists>n \<le> inpos + len. hist_inv src n (hist_insert src inpos h)" using inv t(3) by (intro exI [of _ "inpos + 1"]) simp
        then show ?thesis
          using True \<open>inpos + 2 < length src\<close> step Some out' t(4)
          by (simp add: compress_loop.simps [of dstlen src inpos] done_ok_def)
      next
        case False
        then have "len - 1 = 0 \<or> inpos + 1 + (len - 1) < length src" using t(3) by auto
        then obtain h' where h': "insert_range src (inpos + 1) (len - 1) (hist_insert src inpos h) = Some h'"
          "hist_inv src (inpos + len) h'"
          using hist_inv_range [OF inv, of "len - 1"] t(3,4) "1.prems"(1) by auto
        from "1.IH" [OF True step refl refl Some False h'(1) "1.prems"(1) t(4) h'(2) out'] show ?thesis
          using False True step Some h'(1) by (auto simp: compress_loop.simps [of dstlen src inpos])
      qed
    qed
  qed
qed

section \<open>The end of the stream\<close>

lemma tail_tokens:
  assumes "length src \<le> inpos + 2" "inpos \<le> length src" "n \<le> inpos" "hist_inv src n h"
  shows "\<exists>ts. tail_codes src inpos h = toks_codes ts \<and> toks_ok (take inpos src) ts \<and> expand (take inpos src) ts = src"
proof -
  consider "inpos + 2 = length src" | "inpos + 1 = length src" | "inpos = length src" using assms(1,2) by linarith
  then show ?thesis
  proof cases
    case 1
    let ?hofs = "hs_table h (hash_at src inpos)"
    show ?thesis
    proof (cases "?hofs \<noteq> INVALID_OFS \<and> ?hofs + MAX_HISTORY > inpos")
      case True
      then have o: "?hofs < inpos" "same_at src ?hofs inpos 2"
        using assms(3,4) unfolding hist_inv_def by (auto intro!: same_at_hash)
      have "copy_match (inpos - ?hofs) 2 (take inpos src) = src"
        using copy_match_take [OF o(1) _ o(2)] 1 by simp
      moreover have "length_codes 2 = [(2, 0)]" by (simp add: length_codes_def)
      ultimately show ?thesis using True 1 o(1)
        by (intro exI [of _ "[Match (inpos - ?hofs) 2]"]) (auto simp: tail_codes_def toks_codes_def expand_def)
    next
      case False
      have "take inpos src @ [src ! inpos, src ! (inpos + 1)] = take (Suc (Suc inpos)) src"
        using 1 take_Suc_conv_app_nth [of inpos src] take_Suc_conv_app_nth [of "Suc inpos" src] by simp
      then show ?thesis using False 1
        by (intro exI [of _ "[Lit (src ! inpos), Lit (src ! (inpos + 1))]"]) (auto simp: tail_codes_def toks_codes_def expand_def)
    qed
  next
    case 2
    then have "take inpos src @ [src ! inpos] = src" by (metis Suc_eq_plus1 lessI take_Suc_conv_app_nth take_all order_refl)
    then show ?thesis using 2
      by (intro exI [of _ "[Lit (src ! inpos)]"]) (auto simp: tail_codes_def toks_codes_def expand_def)
  next
    case 3
    then show ?thesis by (intro exI [of _ "[]"]) (simp add: tail_codes_def toks_codes_def expand_def)
  qed
qed

lemma toks_codes_ok: "toks_ok dst ts \<Longrightarrow> list_all code_ok (toks_codes ts)"
  by (induction ts arbitrary: dst) (auto simp: toks_codes_def dest: tok_codes_ok)

text \<open>The marker is complete in the bytes that are written.\<close>

lemma end_marker:
  assumes "written out = a @ nbits 16 0xc000" "pu_nr_outbits out < 8"
  shows "\<exists>pad. stream (pu_dst out) = a @ nbits 9 0x180 @ pad"
proof -
  have "nbits (9 + 7) 0xc000 = nbits 9 (0xc000 div 2 ^ 7) @ nbits 7 (0xc000 mod 2 ^ 7)" by (intro nbits_split) simp
  then have "stream (pu_dst out) @ bits_of (pu_nr_outbits out) (pu_outbits out) = (a @ nbits 9 0x180) @ nbits 7 0"
    using assms(1) by (simp add: written_def)
  then obtain us where "stream (pu_dst out) @ us = a @ nbits 9 0x180 \<and> bits_of (pu_nr_outbits out) (pu_outbits out) = us @ nbits 7 0
      \<or> stream (pu_dst out) = (a @ nbits 9 0x180) @ us \<and> us @ bits_of (pu_nr_outbits out) (pu_outbits out) = nbits 7 0"
    unfolding append_eq_append_conv2 by blast
  then show ?thesis
  proof
    assume *: "stream (pu_dst out) @ us = a @ nbits 9 0x180 \<and> bits_of (pu_nr_outbits out) (pu_outbits out) = us @ nbits 7 0"
    then have "length (bits_of (pu_nr_outbits out) (pu_outbits out)) = length us + 7" by simp
    then have "us = []" using assms(2) by simp
    then show ?thesis using * by (intro exI [of _ "[]"]) simp
  qed auto
qed

lemma compress_result:
  assumes "length src \<le> 2 ^ 16"
  shows "\<exists>res. compress_loop dstlen src 0 (hist_init junk) \<lparr>pu_outbits = 0, pu_nr_outbits = 0, pu_dst = []\<rparr> = Some res
    \<and> done_ok src res"
proof -
  have "out_ok src 0 \<lparr>pu_outbits = 0, pu_nr_outbits = 0, pu_dst = []\<rparr>"
    unfolding out_ok_def by (auto simp: written_init toks_codes_def expand_def intro!: exI [of _ "[]"])
  then show ?thesis using compress_loop_ok [OF assms _ hist_inv_init] by simp
qed

lemma compress_loop_bound:
  "compress_loop dstlen src inpos h out = Some (CDone i out' h') \<Longrightarrow> length (pu_dst out) \<le> dstlen
    \<Longrightarrow> length (pu_dst out') \<le> dstlen"
proof (induction dstlen src inpos h out rule: compress_loop.induct)
  case (1 dstlen src inpos h out)
  show ?case
  proof (cases "inpos + 2 < length src")
    case False
    then show ?thesis using "1.prems" by (simp add: compress_loop.simps [of dstlen src inpos])
  next
    case True
    then obtain codes len g o' where s: "compress_step src inpos h = Some (codes, len, g)" "put_all dstlen codes out = Some o'"
      and rest: "if len > 1 \<and> inpos + len + 2 \<ge> length src then out' = o'
        else \<exists>g'. insert_range src (inpos + 1) (len - 1) g = Some g' \<and>
          compress_loop dstlen src (inpos + len) g' o' = Some (CDone i out' h')"
      using "1.prems"(1) by (auto simp: compress_loop.simps [of dstlen src inpos] split: option.splits if_splits)
    have "length (pu_dst o') \<le> dstlen" using put_all_bound [OF s(2) "1.prems"(2)] .
    then show ?thesis using rest "1.IH" [OF True s(1) refl refl s(2)] by (auto split: if_splits)
  qed
qed

section \<open>Properties\<close>


lemma lzs_compress_decompress:
  assumes "lzs_compress junk dstlen src = Some (Inr out)" "length src \<le> n"
  shows "lzs_decompress n out = Inr src \<and> length out \<le> dstlen"
proof -
  have len: "length src \<le> 2 ^ 16" using assms(1) by (auto simp: lzs_compress_def split: if_splits)
  obtain inpos st h st' where c: "compress_loop dstlen src 0 (hist_init junk) \<lparr>pu_outbits = 0, pu_nr_outbits = 0, pu_dst = []\<rparr>
      = Some (CDone inpos st h)"
    and put: "put_all dstlen (tail_codes src inpos h @ [(16, 0xc000)]) st = Some st'" and out: "out = pu_dst st'"
    using assms(1) len by (auto simp: lzs_compress_def split: if_splits option.splits comp_res.splits)
  have "done_ok src (CDone inpos st h)" using compress_result [OF len, where dstlen = dstlen and junk = junk] c by auto
  then obtain ts k where d: "length src \<le> inpos + 2" "inpos \<le> length src" "pu_nr_outbits st < 8" "toks_ok [] ts"
    "expand [] ts = take inpos src" "written st = code_bits (toks_codes ts)" "k \<le> inpos" "hist_inv src k h"
    by (auto simp: done_ok_def out_ok_def)
  obtain us where us: "tail_codes src inpos h = toks_codes us" "toks_ok (take inpos src) us" "expand (take inpos src) us = src"
    using tail_tokens [OF d(1,2,7,8)] by blast
  have all: "toks_ok [] (ts @ us)" "expand [] (ts @ us) = src"
    using d us by (simp_all add: toks_ok_append expand_append)
  have "list_all code_ok (tail_codes src inpos h @ [(16, 0xc000)])"
    using us toks_codes_ok code_ok_nat [of 49152 16] by auto
  from put_all_written [OF put this d(3)] have w: "written st' = code_bits (toks_codes (ts @ us)) @ nbits 16 0xc000"
    "pu_nr_outbits st' < 8"
    using d(6) us(1) by (simp_all add: toks_codes_def)
  from end_marker [OF w] obtain pad where "stream out = code_bits (toks_codes (ts @ us)) @ nbits 9 0x180 @ pad"
    using out by auto
  from lzs_decompress_tokens [OF all(1) _ this] have "lzs_decompress n out = Inr src" using all(2) assms(2) by simp
  moreover have "length out \<le> dstlen"
    unfolding out by (rule put_all_bound [OF put compress_loop_bound [OF c]]) simp
  ultimately show ?thesis ..
qed

text \<open>
  C5 Round trip: decompressing the output of the compressor, into a buffer that is large
  enough, gives the input back, and the output had fitted in the destination.
\<close>

theorem lzs_roundtrip:
  assumes "lzs_compress junk dstlen src = Some (Inr out)" "length src \<le> n"
  shows "lzs_decompress n out = Inr src \<and> length out \<le> dstlen"
  using assms by (rule lzs_compress_decompress)

text \<open>
  C16 Whatever the input is, a successful decompression writes at most as many bytes as the
  destination holds.
\<close>

theorem lzs_decompress_bound: "lzs_decompress dstlen src = Inr out \<Longrightarrow> length out \<le> dstlen"
  unfolding lzs_decompress_def by (erule decompress_loop_bound) simp

section \<open>Examples\<close>

definition demo_src :: bytes where
  "demo_src = [97, 98, 97, 98]"

definition demo_lzs :: bytes where
  "demo_lzs = [48, 152, 176, 70, 0]"

lemma demo_lzs_compress: "lzs_compress (\<lambda>_. 0) 100 demo_src = Some (Inr demo_lzs)"
  by (simp add: lzs_compress_def demo_src_def demo_lzs_def compress_loop.simps compress_step_def hist_init_def
      hist_insert_def hash_at_def memcmp_eq_def put_bits_def put_byte_def tail_codes_def offset_code_def Let_def)

theorem lzs_roundtrip_witness: "lzs_decompress 10 demo_lzs = Inr demo_src \<and> length demo_lzs \<le> 100"
  by (rule lzs_roundtrip [OF demo_lzs_compress]) (simp add: demo_src_def)

theorem lzs_decompress_bound_witness: "length demo_src \<le> 10"
proof -
  have "lzs_decompress 10 demo_lzs = Inr demo_src"
    using lzs_compress_decompress [OF demo_lzs_compress, of 10] by (simp add: demo_src_def)
  then show ?thesis by (rule lzs_decompress_bound)
qed

end
