(* ===== verification/Spec2Isabelle.thy ===== *)
theory Spec2Isabelle
  imports Vpn_Witness Text_Codec Lzs_Roundtrip
begin

text \<open>
  A verification development for ocserv, the OpenConnect VPN server (sources under
  \<^verbatim>\<open>src/src/\<close>).

  \<^bold>\<open>The program.\<close>  The server consists of one privileged \<^emph>\<open>main\<close> process, one or more instances of
  the \<^emph>\<open>security module\<close> (sec-mod) that hold the credentials and the session database, and one
  unprivileged \<^emph>\<open>worker\<close> per connection.  A worker authenticates its client by messages to sec-mod
  and gets a cookie, the session id of an entry in the database.  It sends the cookie to main, which
  opens the session in sec-mod with a synchronous request, completes the configuration, leases
  addresses, opens a tun device, runs the connect script and the route commands, and hands the
  descriptor of the device to the worker.  Main also keeps the ban list, forwards UDP packets to
  their workers, and serves the administrator.

  \<^bold>\<open>Conventions.\<close>  A function of the source is one definition of the same name, or a few when it is
  long.  State is passed explicitly in records that have the fields of the C structures.  Results of
  system calls, of the clock, of allocations and of libraries are fields of environment records, so
  every theorem is about all of them.  Following a NULL or dangling pointer, access outside a
  buffer, and a loop that does not end are the value \<^const>\<open>None\<close>; error returns are values;
  \<^verbatim>\<open>exit\<close> sets a flag.  Integers have their width as words where wrap-around matters; time values,
  sizes of lists and the use count \<^verbatim>\<open>in_use\<close> of a session are unbounded.  Logging is left out.

  \<^bold>\<open>Shared theories.\<close>
  \<^item> \<open>Ocserv_Prelude\<close>: machine types, error codes, and the parts of the C library the sources use
    (character classes, \<^verbatim>\<open>strtoul\<close>, \<^verbatim>\<open>inet_pton\<close>, \<^verbatim>\<open>inet_ntop\<close>) with their round trips.
  \<^item> \<open>Hash_Table\<close>: the contract \<open>keyed_table\<close> of the vendored hash table, the laws its clients rely
    on, and the list of entries that satisfies it.  It is interpreted for the ban list, the session
    database and the lease table.
  \<^item> \<open>Sock_Addr\<close>: socket addresses as raw memory, \<^verbatim>\<open>human_addr2\<close>, and that the text of an address fits
    its buffer.

  \<^bold>\<open>Components of main.\<close>
  \<^item> \<open>Main_Ban\<close> (\<^verbatim>\<open>main-ban.c\<close>): points, bans and their expiry; a ban holds until its expiry and the
    score restarts after it.
  \<^item> \<open>Ip_Util\<close> (\<^verbatim>\<open>ip-util.c\<close>): masks, prefixes and the route check; what the check lets through, its
    inverse, and the masks it accepts.
  \<^item> \<open>Ip_Lease\<close> (\<^verbatim>\<open>ip-lease.c\<close>): the address pool; leases are exclusive and lie in the pool.
  \<^item> \<open>Str_Buf\<close> (\<^verbatim>\<open>str.c\<close>): the growing buffer and the substitution of patterns, with the contract
    \<open>text_buffer\<close>; an append refines the append of lists, the substitution is the one-pass
    substitution when no value has a percent sign, and may run forever otherwise.
  \<^item> \<open>Route_Add\<close> (\<^verbatim>\<open>route-add.c\<close>): route commands are applied all or none.
  \<^item> \<open>Proc_Search\<close> (\<^verbatim>\<open>proc-search.c\<close>): the four search tables over a heap of processes, with the
    contract \<open>keyed_search\<close>.
  \<^item> \<open>Main_Types\<close>, \<open>Main_Config\<close>, \<open>Main_Stats\<close>, \<open>Main_Session\<close>, \<open>Main_Udp\<close>, \<open>Main_Cmd\<close> (\<^verbatim>\<open>main.h\<close>,
    \<^verbatim>\<open>main-sec-mod-cmd.c\<close>, \<^verbatim>\<open>main-auth.c\<close>, \<^verbatim>\<open>main-user.c\<close>, \<^verbatim>\<open>main-proc.c\<close>, \<^verbatim>\<open>tun.c\<close>,
    \<^verbatim>\<open>main-worker-cmd.c\<close>, \<^verbatim>\<open>main-ctl-unix.c\<close>, \<^verbatim>\<open>main.c\<close>): the state of main and one definition per
    handler; the defaults of a session, the counters, and the client hello of DTLS.
  \<^item> \<open>Main_Inv\<close>, \<open>Main_Events\<close>, \<open>Main_Run\<close>: the invariant \<open>main_inv\<close> (every pointer leads to a live
    process, the lease table holds exactly the leases of live processes, the counter counts the
    process list), its preservation by every operation, and runs of events.  They give memory
    safety, the exclusive leases of live clients, and the limits of clients and sessions.
  \<^item> \<open>Main_Auth\<close>: the contract \<open>session_authority\<close>, what main relies on in the security module, and
    that main hands out tunnels only for granted cookies.
  \<^item> \<open>Main_Witness\<close>: concrete runs of main to which the properties are applied.

  \<^bold>\<open>Security module and the whole server.\<close>
  \<^item> \<open>Sec_Types\<close>, \<open>Sec_Db\<close>, \<open>Sec_Auth\<close> (\<^verbatim>\<open>sec-mod.h\<close>, \<^verbatim>\<open>sec-mod-db.c\<close>, \<^verbatim>\<open>sec-mod-cookies.c\<close>,
    \<^verbatim>\<open>sec-mod-auth.c\<close>): the session database and the request handlers.
  \<^item> \<open>Sec_Props\<close>, \<open>Sec_Witness\<close>: runs of the module; a session needs a successful authentication,
    only modules and authentic requests decide, revoked cookies are dead, certificates are checked.
  \<^item> \<open>Vpn_System\<close>, \<open>Vpn_Witness\<close>: main with any number of module instances over links that may fail;
    the interpretation of \<open>session_authority\<close> by the module's handlers, and from it that no tunnel
    is handed out without authentication; sessions that leak when main refuses them.

  \<^bold>\<open>Data channel and text.\<close>
  \<^item> \<open>Lzs_Bits\<close>, \<open>Lzs\<close>, \<open>Lzs_Decode\<close>, \<open>Lzs_Roundtrip\<close> (\<^verbatim>\<open>lzs.c\<close>): the bit streams, both directions of
    the codec, the meaning of a stream as tokens; the compressor returns and reads only its input,
    and decompression inverts it.
  \<^item> \<open>Text_Codec\<close> (\<^verbatim>\<open>html.c\<close>, \<^verbatim>\<open>valid-hostname.c\<close>): decoders of HTML and URL text, host names.

  \<^bold>\<open>Bounds.\<close>  Loops are structural recursions, functions with a termination
  measure, or, for the substitution (\<open>replace_loop\<close>), a partial function whose results are proved
  to exist.  Only the search of the compressor along its links (\<open>match_loop\<close>) takes a number of
  rounds: one more than the position it works on, which is enough because every link leads to an
  earlier position, and running out would be \<open>None\<close>, which is proved not to happen.
  talloc refuses blocks of
  \<open>MAX_TALLOC_SIZE\<close> bytes and more; theorems that need an allocation to succeed bound the text by
  \<open>TEXT_LIMIT\<close>, a quarter of that size, which leaves room for the doubling of the buffer.  The
  properties of runs of main assume \<open>event_ok\<close>: the environment is \<open>menv_ok\<close> (blocks of the
  requested size, one hash function, device names and local routes without a percent sign; routes
  that pass the route check have none, \<open>checked_route_plain\<close>), addresses are in a
  \<^verbatim>\<open>sockaddr_storage\<close>, a packet does not fill the receive buffer, and three messages of a worker are
  excluded that make main read through a wild pointer or an uninitialised buffer
  (\<open>worker_msg_ok\<close>; two of them have a theorem of their own).

  \<^bold>\<open>Not modelled.\<close>  The worker (TLS, HTTP, packet forwarding): its messages are arbitrary here.  The
  parsing of configuration files and of the wire format of messages, whose results are arguments.
  The authentication and accounting modules (PAM, RADIUS, GSSAPI, OpenID Connect, password files),
  whose verdicts are environment values.  The event loop, signals, start-up and reload of main,
  listing requests of the control socket, the accept loop, key operations and TLS session cache of
  sec-mod.  The separate programs occtl and ocpasswd, process isolation, logging, and the vendored
  libraries.
\<close>

end
